theory Spec2Isabelle
  imports Complex_Main "HOL-Library.Multiset"
begin

section \<open>Python values\<close>

text \<open>
  Conventions of the embedding.
  \<^item> A Python \<open>str\<close> is a \<open>string\<close>: the list of the bytes of its UTF-8 encoding. The case
    operations (\<open>upper\<close>, \<open>lower\<close>, \<open>title\<close>) act on the ASCII letters only.
  \<^item> A Python or numpy \<open>float\<close> that is finite is a \<open>real\<close>: rounding and overflow are not
    modelled. Where the code can produce a non-finite value from finite inputs (\<open>np.log1p\<close>
    below \<open>-1\<close>) the value is an \<open>npfloat\<close>.
  \<^item> An exception is a value of \<open>py_error\<close>, returned on the left of a sum.
  \<^item> A \<open>dict\<close> whose iteration order is observed is an association list in insertion order;
    one that is only looked up is a map.
\<close>

datatype py_error =
    ValueError string
  | ZeroDivisionError string
  | IndexError string
  | KeyError string
  | IntegrityError string
  | Exception string

fun exc_str :: "py_error \<Rightarrow> string" where
  "exc_str (ValueError m) = m"
| "exc_str (ZeroDivisionError m) = m"
| "exc_str (IndexError m) = m"
| "exc_str (KeyError m) = m"
| "exc_str (IntegrityError m) = m"
| "exc_str (Exception m) = m"

fun is_ValueError :: "py_error \<Rightarrow> bool" where
  "is_ValueError (ValueError m) = True"
| "is_ValueError e = False"

subsection \<open>Strings\<close>

definition digit_char :: "nat \<Rightarrow> char" where
  "digit_char d = char_of (48 + d)"

text \<open>\<open>str(n)\<close> for a natural number: its decimal digits.\<close>

function dec :: "nat \<Rightarrow> string" where
  "dec n = (if n < 10 then [digit_char n] else dec (n div 10) @ [digit_char (n mod 10)])"
  by pat_completeness auto
termination
  by (relation "measure id") auto

declare dec.simps [simp del]

definition str_int :: "int \<Rightarrow> string" where
  "str_int i = (if i < 0 then ''-'' @ dec (nat (- i)) else dec (nat i))"

text \<open>The format \<open>0wd\<close> of a natural number: zero-padded on the left to width \<open>w\<close>.\<close>

definition zpad :: "nat \<Rightarrow> string \<Rightarrow> string" where
  "zpad w s = replicate (w - length s) (CHR ''0'') @ s"

definition round_half_even :: "real \<Rightarrow> int" where
  "round_half_even x =
     (let f = \<lfloor>x\<rfloor>; d = x - of_int f
      in if d < 1 / 2 then f else if 1 / 2 < d then f + 1 else if even f then f else f + 1)"

text \<open>
  The formats \<open>.pf\<close> and \<open>+.pf\<close> of a finite float: the sign, the integer part and \<open>p\<close>
  decimals, the value rounded to the nearest multiple of \<open>10^-p\<close> (ties to even).
\<close>

definition fmt_abs :: "nat \<Rightarrow> real \<Rightarrow> string" where
  "fmt_abs p x =
     (let n = nat (round_half_even (\<bar>x\<bar> * 10 ^ p))
      in dec (n div 10 ^ p) @ (if p = 0 then [] else ''.'' @ zpad p (dec (n mod 10 ^ p))))"

definition fmt_f :: "nat \<Rightarrow> real \<Rightarrow> string" where
  "fmt_f p x = (if x < 0 then ''-'' else []) @ fmt_abs p x"

definition fmt_plus_f :: "nat \<Rightarrow> real \<Rightarrow> string" where
  "fmt_plus_f p x = (if x < 0 then ''-'' else ''+'') @ fmt_abs p x"

definition is_lower :: "char \<Rightarrow> bool" where
  "is_lower c = ((97::nat) \<le> of_char c \<and> of_char c \<le> (122::nat))"

definition is_upper :: "char \<Rightarrow> bool" where
  "is_upper c = ((65::nat) \<le> of_char c \<and> of_char c \<le> (90::nat))"

definition upper_char :: "char \<Rightarrow> char" where
  "upper_char c = (if is_lower c then char_of ((of_char c :: nat) - 32) else c)"

definition lower_char :: "char \<Rightarrow> char" where
  "lower_char c = (if is_upper c then char_of ((of_char c :: nat) + 32) else c)"

definition upper :: "string \<Rightarrow> string" where
  "upper s = map upper_char s"

definition lower :: "string \<Rightarrow> string" where
  "lower s = map lower_char s"

text \<open>
  \<open>str.title\<close>: a letter that follows a letter is lowercased, any other letter is
  uppercased. The flag is the library's \<open>previous_is_cased\<close>.
\<close>

fun title_from :: "bool \<Rightarrow> string \<Rightarrow> string" where
  "title_from prev [] = []"
| "title_from prev (c # cs) =
     (if is_lower c then (if prev then c else upper_char c) # title_from True cs
      else if is_upper c then (if prev then lower_char c else c) # title_from True cs
      else c # title_from False cs)"

definition title :: "string \<Rightarrow> string" where
  "title s = title_from False s"

definition replace_char :: "char \<Rightarrow> char \<Rightarrow> string \<Rightarrow> string" where
  "replace_char a b s = map (\<lambda>c. if c = a then b else c) s"

definition is_space :: "char \<Rightarrow> bool" where
  "is_space c = ((of_char c :: nat) \<in> {9, 10, 11, 12, 13, 28, 29, 30, 31, 32})"

definition strip :: "string \<Rightarrow> string" where
  "strip s = rev (dropWhile is_space (rev (dropWhile is_space s)))"

text \<open>\<open>sep.join(xs)\<close>.\<close>

fun join :: "string \<Rightarrow> string list \<Rightarrow> string" where
  "join sep [] = []"
| "join sep [x] = x"
| "join sep (x # y # ys) = x @ sep @ join sep (y # ys)"

text \<open>\<open>p in s\<close> for strings: \<open>p\<close> occurs in \<open>s\<close> as a contiguous run.\<close>

fun contains :: "string \<Rightarrow> string \<Rightarrow> bool" where
  "contains p [] = (p = [])"
| "contains p (c # cs) = (take (length p) (c # cs) = p \<or> contains p cs)"

text \<open>The slice \<open>xs[:k]\<close>; a negative \<open>k\<close> counts from the end.\<close>

definition slice_to :: "'a list \<Rightarrow> int \<Rightarrow> 'a list" where
  "slice_to xs k = (if 0 \<le> k then take (nat k) xs else take (length xs - nat (- k)) xs)"

text \<open>The truth value of an \<open>Optional[str]\<close>: \<open>None\<close> and the empty string are false.\<close>

fun truthy :: "string option \<Rightarrow> bool" where
  "truthy None = False"
| "truthy (Some s) = (s \<noteq> [])"

definition nl :: string where
  "nl = [CHR 0x0A]"

definition em_dash :: string where
  "em_dash = [CHR 0xE2, CHR 0x80, CHR 0x94]"

definition heavy_rule :: string where
  "heavy_rule = concat (replicate 50 [CHR 0xE2, CHR 0x94, CHR 0x81])"

definition light_rule :: "nat \<Rightarrow> string" where
  "light_rule n = concat (replicate n [CHR 0xE2, CHR 0x94, CHR 0x80])"

definition bullet :: string where
  "bullet = [CHR 0xE2, CHR 0x80, CHR 0xA2]"

definition up_arrow :: string where
  "up_arrow = [CHR 0xE2, CHR 0x86, CHR 0x91]"

definition down_arrow :: string where
  "down_arrow = [CHR 0xE2, CHR 0x86, CHR 0x93]"

definition section_sign :: string where
  "section_sign = [CHR 0xC2, CHR 0xA7]"

section \<open>explainer.py: the narrative\<close>

definition risk_level :: "real \<Rightarrow> string" where
  "risk_level risk_score =
     (if risk_score > 0.75 then ''HIGH'' else if risk_score > 0.50 then ''MEDIUM'' else ''ELEVATED'')"

definition risk_tier :: "real \<Rightarrow> string" where
  "risk_tier risk_score =
     (if risk_score > 0.75 then ''1'' else if risk_score > 0.50 then ''2'' else ''3'')"

definition pattern_descriptions :: "(string \<times> string) list" where
  "pattern_descriptions =
     [(''smurfing'',
         ''structuring / smurfing '' @ em_dash @ '' multiple transactions just below the $10,000 '' @
         ''reporting threshold, consistent with deliberate avoidance of CTR requirements''),
      (''layering'',
         ''multi-hop transaction layering '' @ em_dash @ '' funds routed through a chain of intermediary '' @
         ''entities across multiple high-risk jurisdictions to obscure beneficial ownership''),
      (''circular'',
         ''circular fund flows '' @ em_dash @ '' transactions forming closed loops among a small set of '' @
         ''entities, consistent with wash transactions or value-inflation schemes''),
      (''mixed'', ''multiple co-occurring suspicious transaction patterns'')]"

definition pattern_desc :: "string \<Rightarrow> string" where
  "pattern_desc pattern_type =
     (case map_of pattern_descriptions (lower pattern_type) of
        Some d \<Rightarrow> d
      | None \<Rightarrow> ''anomalous transaction behavior'')"

text \<open>
  \<open>sorted(shap_values.items(), key=lambda kv: abs(kv[1]), reverse=True)[:top_k]\<close>: a stable
  sort by decreasing magnitude, entries of equal magnitude keeping the order of the dict.
\<close>

definition sorted_shap :: "(string \<times> real) list \<Rightarrow> int \<Rightarrow> (string \<times> real) list" where
  "sorted_shap shap_values top_k = slice_to (sort_key (\<lambda>kv. - \<bar>snd kv\<bar>) shap_values) top_k"

definition driver_line :: "string \<times> real \<Rightarrow> string" where
  "driver_line kv =
     (let readable = title (replace_char (CHR ''_'') (CHR '' '') (fst kv));
          direction = (if snd kv > 0 then up_arrow @ '' Elevates'' else down_arrow @ '' Mitigates'')
      in ''    '' @ bullet @ '' '' @ readable @ '': '' @ direction @
         '' risk  (attribution: '' @ fmt_plus_f 4 (snd kv) @ '')'')"

definition drivers_str :: "(string \<times> real) list \<Rightarrow> int \<Rightarrow> string" where
  "drivers_str shap_values top_k = join nl (map driver_line (sorted_shap shap_values top_k))"

definition narrative_head ::
  "string \<Rightarrow> string \<Rightarrow> string \<Rightarrow> real \<Rightarrow> string" where
  "narrative_head entity_id entity_type country risk_score =
     heavy_rule @ nl @
     ''SUSPICIOUS ACTIVITY REPORT '' @ em_dash @ '' CASE SUMMARY'' @ nl @
     heavy_rule @ nl @
     nl @
     ''ENTITY:       '' @ entity_id @ nl @
     ''TYPE:         '' @ upper entity_type @ nl @
     ''JURISDICTION: '' @ country @ nl @
     ''RISK LEVEL:   '' @ risk_level risk_score @ ''  (Tier '' @ risk_tier risk_score @ '' '' @
       em_dash @ '' Score: '' @ fmt_f 4 risk_score @ '')'' @ nl"

definition narrative_summary ::
  "string \<Rightarrow> string \<Rightarrow> string \<Rightarrow> real \<Rightarrow> string option \<Rightarrow> int \<Rightarrow> string \<Rightarrow> string" where
  "narrative_summary entity_id entity_type country risk_score cluster_id cluster_size pattern_type =
     nl @
     light_rule 2 @ '' EXECUTIVE SUMMARY '' @ light_rule 30 @ nl @
     nl @
     ''Entity '' @ entity_id @ '' ('' @ entity_type @ '', '' @ country @
       '') has been flagged by the Graph Neural'' @ nl @
     ''Network with a suspicion score of '' @ fmt_f 4 risk_score @ '', placing it in the '' @
       risk_level risk_score @ '' risk tier.'' @ nl @
     (if truthy cluster_id
      then ''This entity is a member of suspicious cluster '' @ the cluster_id @ '' comprising '' @
           str_int cluster_size @ '' interconnected entities.''
      else ''No cluster association was identified; the entity's individual transaction patterns drive this alert.'') @ nl @
     nl @
     ''The predominant typology detected is '' @ pattern_desc pattern_type @ ''.'' @ nl"

definition narrative_actions :: "string option \<Rightarrow> string" where
  "narrative_actions cluster_id =
     nl @
     light_rule 2 @ '' RECOMMENDED ACTIONS '' @ light_rule 28 @ nl @
     nl @
     ''  1. File a Suspicious Activity Report (SAR) with FinCEN within 30 days.'' @ nl @
     ''  2. Freeze account pending enhanced due diligence review.'' @ nl @
     ''  3. Conduct full 12-month transaction history analysis for entity and'' @ nl @
     ''     all '' @ (if truthy cluster_id then ''cluster members'' else ''first-degree counterparties'') @
       ''.'' @ nl @
     ''  4. Escalate to Compliance Officer (Level 2) and Legal Counsel.'' @ nl @
     ''  5. Preserve all records per BSA record-retention requirements.'' @ nl @
     nl @
     light_rule 2 @ '' REGULATORY REFERENCES '' @ light_rule 26 @ nl @
     nl @
     ''  31 U.S.C. '' @ section_sign @ '' 5318(g)  '' @ em_dash @ '' SAR Filing Obligation'' @ nl @
     ''  31 CFR '' @ section_sign @ '' 1020.320    '' @ em_dash @ '' Reports of Suspicious Transactions'' @ nl @
     ''  FinCEN Advisory FIN-2014-A007 '' @ em_dash @ '' Layering Typologies'' @ nl @
     nl @
     heavy_rule @ nl"

definition narrative_footer :: string where
  "narrative_footer = ''Generated by AML GNN System v1.0 | Explainability: XGBoost-SHAP Surrogate''"

text \<open>
  \<open>generate_narrative\<close>: the f-string of the source, cut into its head (down to the risk
  level line), the executive summary, the drivers, the recommended actions with the
  references, and the footer line; then stripped.
\<close>

definition generate_narrative ::
  "string \<Rightarrow> string \<Rightarrow> string \<Rightarrow> real \<Rightarrow> string option \<Rightarrow> int \<Rightarrow> string \<Rightarrow>
   (string \<times> real) list \<Rightarrow> int \<Rightarrow> string" where
  "generate_narrative entity_id entity_type country risk_score cluster_id cluster_size
       pattern_type shap_values top_k =
     strip
       (narrative_head entity_id entity_type country risk_score @
        narrative_summary entity_id entity_type country risk_score cluster_id cluster_size pattern_type @
        nl @
        light_rule 2 @ '' KEY RISK DRIVERS (SHAP Attributions) '' @ light_rule 11 @ nl @
        nl @
        drivers_str shap_values top_k @ nl @
        narrative_actions cluster_id @
        narrative_footer @ nl)"

section \<open>data_generator.py: the records\<close>

text \<open>
  \<open>EntityRecord\<close> and \<open>TransactionRecord\<close>. A \<open>datetime\<close> is the number of microseconds
  since \<open>BASE_DATE\<close> (2023-01-01 00:00), so that \<open>total_seconds\<close> of a difference is the
  difference divided by \<open>10^6\<close>.
\<close>

record EntityRecord =
  e_id :: string
  e_entity_type :: string
  e_country :: string
  e_is_suspicious :: bool
  e_cluster_id :: "string option"
  e_risk_score :: real
  e_features :: "(string \<times> real) list"

record TransactionRecord =
  t_id :: string
  t_src :: string
  t_dst :: string
  t_amount :: real
  t_timestamp :: int
  t_channel :: string
  t_country :: string
  t_risk_flags :: "string list"
  t_is_suspicious :: bool

section \<open>models.py: the tables\<close>

text \<open>
  One record per ORM class. A JSON text column is modelled by the value it encodes
  (\<open>json.dumps\<close> on write, \<open>json.loads\<close> on read). The \<open>created_at\<close> column of the
  entity table, which the pipeline never writes, is left out.
\<close>

record Entity =
  ent_id :: string
  ent_entity_type :: string
  ent_country :: string
  ent_is_suspicious :: bool
  ent_cluster_id :: "string option"
  ent_risk_score :: real
  ent_features_json :: "(string \<times> real) list"

record Transaction =
  tx_id :: string
  tx_src_entity_id :: string
  tx_dst_entity_id :: string
  tx_amount :: real
  tx_timestamp :: int
  tx_channel :: string
  tx_country :: string
  tx_risk_flags_json :: "string list"
  tx_is_suspicious :: bool

record Cluster =
  cl_id :: string
  cl_entity_ids_json :: "string list"
  cl_size :: nat
  cl_suspicion_score :: real
  cl_pattern_type :: string

record Alert =
  al_id :: string
  al_entity_id :: string
  al_cluster_id :: "string option"
  al_score :: real
  al_narrative :: string
  al_shap_values_json :: "(string \<times> real) list"
  al_status :: string
  al_created_at :: int

record metrics_t =
  gnn :: "(string \<times> real) list"
  rule_based :: "(string \<times> real) list"
  logistic_regression :: "(string \<times> real) list"
  pr_curve_precision :: "real list"
  pr_curve_recall :: "real list"

record ModelRun =
  mr_id :: nat
  mr_mode :: string
  mr_metrics_json :: metrics_t
  mr_is_active :: bool
  mr_created_at :: int

text \<open>The database session: the rows of the five tables, in the order a query returns them.\<close>

record db =
  entities :: "Entity list"
  transactions :: "Transaction list"
  clusters :: "Cluster list"
  alerts :: "Alert list"
  model_runs :: "ModelRun list"

section \<open>pipeline_service.py: run_train\<close>

text \<open>
  What \<open>train\<close> returns. The training itself (torch, scikit-learn) is a parameter of the
  pipeline: \<open>run_train\<close> is modelled for every function of this type.
\<close>

record train_results =
  res_metrics :: metrics_t
  res_node_scores :: "string \<rightharpoonup> real"
  res_node_shap :: "string \<rightharpoonup> (string \<times> real) list"
  res_feature_names :: "string list"

type_synonym train_fn =
  "EntityRecord list \<Rightarrow> TransactionRecord list \<Rightarrow> string \<Rightarrow> int \<Rightarrow> py_error + train_results"

text \<open>
  The two sources of values from outside: the \<open>k\<close>-th call of \<open>str(uuid.uuid4())\<close> and of
  \<open>datetime.utcnow()\<close> within one run.
\<close>

record env =
  uuid4_str :: "nat \<Rightarrow> string"
  utcnow :: "nat \<Rightarrow> int"

record train_summary =
  alerts_created :: nat
  clusters_created :: nat
  gnn_f1 :: real
  gnn_precision :: real
  gnn_recall :: real

text \<open>\<open>d.get(k, default)\<close>.\<close>

definition get_or :: "('k \<rightharpoonup> 'v) \<Rightarrow> 'k \<Rightarrow> 'v \<Rightarrow> 'v" where
  "get_or d k dflt = (case d k of Some v \<Rightarrow> v | None \<Rightarrow> dflt)"

definition entity_record_of :: "Entity \<Rightarrow> EntityRecord" where
  "entity_record_of e =
     \<lparr>e_id = ent_id e, e_entity_type = ent_entity_type e, e_country = ent_country e,
      e_is_suspicious = ent_is_suspicious e, e_cluster_id = ent_cluster_id e,
      e_risk_score = 0, e_features = []\<rparr>"

definition transaction_record_of :: "Transaction \<Rightarrow> TransactionRecord" where
  "transaction_record_of tx =
     \<lparr>t_id = tx_id tx, t_src = tx_src_entity_id tx, t_dst = tx_dst_entity_id tx,
      t_amount = tx_amount tx, t_timestamp = tx_timestamp tx, t_channel = tx_channel tx,
      t_country = tx_country tx, t_risk_flags = tx_risk_flags_json tx,
      t_is_suspicious = tx_is_suspicious tx\<rparr>"

definition update_entity :: "train_results \<Rightarrow> Entity \<Rightarrow> Entity" where
  "update_entity results db_e =
     db_e\<lparr>ent_risk_score := get_or (res_node_scores results) (ent_id db_e) 0,
          ent_features_json := get_or (res_node_shap results) (ent_id db_e) []\<rparr>"

text \<open>\<open>cluster_map.setdefault(k, []).append(v)\<close> on a dict kept in insertion order.\<close>

fun setdefault_append :: "'k \<Rightarrow> 'v \<Rightarrow> ('k \<times> 'v list) list \<Rightarrow> ('k \<times> 'v list) list" where
  "setdefault_append k v [] = [(k, [v])]"
| "setdefault_append k v ((k', vs) # m) =
     (if k' = k then (k', vs @ [v]) # m else (k', vs) # setdefault_append k v m)"

definition cluster_map_of :: "EntityRecord list \<Rightarrow> (string \<times> EntityRecord list) list" where
  "cluster_map_of ents =
     fold (\<lambda>e m. if truthy (e_cluster_id e) then setdefault_append (the (e_cluster_id e)) e m else m)
       ents []"

definition pattern_of :: "string \<Rightarrow> string" where
  "pattern_of cid =
     (if contains ''SMURF'' cid then ''smurfing''
      else if contains ''LAYER'' cid then ''layering''
      else if contains ''CIRC'' cid then ''circular''
      else ''mixed'')"

text \<open>
  \<open>max(scores)\<close>. The list is the scores of the members of a cluster of \<open>cluster_map\<close>,
  which \<open>setdefault_append\<close> never leaves empty.
\<close>

definition max_list :: "real list \<Rightarrow> real" where
  "max_list xs = fold max (tl xs) (hd xs)"

definition make_cluster :: "train_results \<Rightarrow> string \<times> EntityRecord list \<Rightarrow> Cluster" where
  "make_cluster results cm =
     (let scores = map (\<lambda>m. get_or (res_node_scores results) (e_id m) 0) (snd cm)
      in \<lparr>cl_id = fst cm, cl_entity_ids_json = map e_id (snd cm), cl_size = length (snd cm),
          cl_suspicion_score = max_list scores, cl_pattern_type = pattern_of (fst cm)\<rparr>)"

definition threshold :: real where
  "threshold = 0.50"

definition make_alert ::
  "env \<Rightarrow> train_results \<Rightarrow> (string \<times> EntityRecord list) list \<Rightarrow> nat \<Rightarrow> Entity \<Rightarrow> Alert" where
  "make_alert ev results cluster_map k db_e =
     (let score = ent_risk_score db_e;
          shap_vals = get_or (res_node_shap results) (ent_id db_e) [];
          cid = ent_cluster_id db_e;
          c_size = length (get_or (map_of cluster_map) (if truthy cid then the cid else []) []);
          pattern = (if truthy cid then pattern_of (the cid) else ''mixed'');
          narrative = generate_narrative (ent_id db_e) (ent_entity_type db_e) (ent_country db_e)
                        score cid (int c_size) pattern shap_vals 4
      in \<lparr>al_id = upper (take 8 (uuid4_str ev k)), al_entity_id = ent_id db_e,
          al_cluster_id = cid, al_score = score, al_narrative = narrative,
          al_shap_values_json = shap_vals, al_status = ''open'',
          al_created_at = utcnow ev k\<rparr>)"

text \<open>
  The alert loop: an entity whose score is below the threshold is skipped; \<open>k\<close> counts the
  alerts created so far (\<open>alerts_created\<close>).
\<close>

fun make_alerts ::
  "env \<Rightarrow> train_results \<Rightarrow> (string \<times> EntityRecord list) list \<Rightarrow> nat \<Rightarrow> Entity list \<Rightarrow> Alert list" where
  "make_alerts ev results cluster_map k [] = []"
| "make_alerts ev results cluster_map k (db_e # rest) =
     (if ent_risk_score db_e < threshold then make_alerts ev results cluster_map k rest
      else make_alert ev results cluster_map k db_e #
           make_alerts ev results cluster_map (Suc k) rest)"

definition next_run_id :: "ModelRun list \<Rightarrow> nat" where
  "next_run_id runs = Suc (fold max (map mr_id runs) 0)"

definition deactivate :: "ModelRun \<Rightarrow> ModelRun" where
  "deactivate r = (if mr_is_active r then r\<lparr>mr_is_active := False\<rparr> else r)"

text \<open>
  \<open>run_train\<close> returns the database as the run leaves it and the value returned or the
  exception raised. The commits are the points where the database changes for good: the
  scores, the deletion of the old alerts and clusters, the new clusters, and last the alerts
  with the model run. Two alerts with one primary key make the last commit fail, and the
  session then holds what the third commit left.
\<close>

definition run_train :: "train_fn \<Rightarrow> env \<Rightarrow> db \<Rightarrow> string \<Rightarrow> int \<Rightarrow> db \<times> (py_error + train_summary)" where
  "run_train train ev d mode seed =
     (let db_entities = entities d; db_transactions = transactions d
      in if db_entities = []
         then (d, Inl (ValueError ''No entities in database. Call POST /generate first.''))
         else
           let ents = map entity_record_of db_entities;
               txs = map transaction_record_of db_transactions
           in case train ents txs mode seed of
                Inl exc \<Rightarrow> (d, Inl exc)
              | Inr results \<Rightarrow>
                  let scored = map (update_entity results) db_entities;
                      d1 = d\<lparr>entities := scored\<rparr>;
                      d2 = d1\<lparr>alerts := [], clusters := []\<rparr>;
                      cluster_map = cluster_map_of ents;
                      d3 = d2\<lparr>clusters := map (make_cluster results) cluster_map\<rparr>;
                      new_alerts = make_alerts ev results cluster_map 0 scored;
                      run = \<lparr>mr_id = next_run_id (model_runs d3), mr_mode = mode,
                             mr_metrics_json = res_metrics results, mr_is_active = True,
                             mr_created_at = utcnow ev (length new_alerts)\<rparr>
                  in if \<not> distinct (map al_id new_alerts)
                     then (d3, Inl (IntegrityError ''duplicate key value violates unique constraint''))
                     else (d3\<lparr>alerts := new_alerts,
                              model_runs := map deactivate (model_runs d3) @ [run]\<rparr>,
                           Inr \<lparr>alerts_created = length new_alerts,
                                clusters_created = length cluster_map,
                                gnn_f1 = get_or (map_of (gnn (res_metrics results))) ''f1'' 0,
                                gnn_precision = get_or (map_of (gnn (res_metrics results))) ''precision'' 0,
                                gnn_recall = get_or (map_of (gnn (res_metrics results))) ''recall'' 0\<rparr>))"

section \<open>routes.py: POST /train\<close>

datatype http_response =
    JobResponse string string train_summary
  | HTTPException nat string

definition train_model :: "train_fn \<Rightarrow> env \<Rightarrow> int \<Rightarrow> db \<Rightarrow> string \<Rightarrow> db \<times> http_response" where
  "train_model train ev settings_seed d mode =
     (case run_train train ev d mode settings_seed of
        (d', Inr result) \<Rightarrow>
          (d', JobResponse ''success''
                 (''Training complete '' @ em_dash @ '' '' @ dec (alerts_created result) @
                  '' alerts created. GNN F1: '' @ fmt_f 3 (gnn_f1 result) @
                  '', Precision: '' @ fmt_f 3 (gnn_precision result) @
                  '', Recall: '' @ fmt_f 3 (gnn_recall result) @ ''.'')
                 result)
      | (d', Inl exc) \<Rightarrow>
          (if is_ValueError exc then (d', HTTPException 400 (exc_str exc))
           else (d', HTTPException 500 (exc_str exc))))"

section \<open>metrics.py: classification metrics\<close>

text \<open>
  Labels and predictions are arrays of 0 and 1. \<open>precision_score\<close>, \<open>recall_score\<close> and
  \<open>f1_score\<close> are scikit-learn's, for the positive class 1 and with \<open>zero_division=0\<close>:
  a quotient whose denominator is zero is 0. They refuse arrays of different lengths.
  \<open>roc_auc_score\<close> is the share of (positive, negative) pairs that the scores order
  correctly, a tie counting one half.
\<close>

definition count_pairs :: "(nat \<times> nat \<Rightarrow> bool) \<Rightarrow> nat list \<Rightarrow> nat list \<Rightarrow> nat" where
  "count_pairs P y_true y_pred = length (filter P (zip y_true y_pred))"

definition true_pos :: "nat list \<Rightarrow> nat list \<Rightarrow> nat" where
  "true_pos = count_pairs (\<lambda>(t, p). t = 1 \<and> p = 1)"

definition false_pos :: "nat list \<Rightarrow> nat list \<Rightarrow> nat" where
  "false_pos = count_pairs (\<lambda>(t, p). t \<noteq> 1 \<and> p = 1)"

definition false_neg :: "nat list \<Rightarrow> nat list \<Rightarrow> nat" where
  "false_neg = count_pairs (\<lambda>(t, p). t = 1 \<and> p \<noteq> 1)"

definition ratio0 :: "nat \<Rightarrow> nat \<Rightarrow> real" where
  "ratio0 a b = (if b = 0 then 0 else real a / real b)"

definition precision_score :: "nat list \<Rightarrow> nat list \<Rightarrow> real" where
  "precision_score y_true y_pred =
     ratio0 (true_pos y_true y_pred) (true_pos y_true y_pred + false_pos y_true y_pred)"

definition recall_score :: "nat list \<Rightarrow> nat list \<Rightarrow> real" where
  "recall_score y_true y_pred =
     ratio0 (true_pos y_true y_pred) (true_pos y_true y_pred + false_neg y_true y_pred)"

definition f1_score :: "nat list \<Rightarrow> nat list \<Rightarrow> real" where
  "f1_score y_true y_pred =
     ratio0 (2 * true_pos y_true y_pred)
       (2 * true_pos y_true y_pred + false_pos y_true y_pred + false_neg y_true y_pred)"

definition roc_auc_score :: "nat list \<Rightarrow> real list \<Rightarrow> real" where
  "roc_auc_score y_true y_prob =
     (let pos = map snd (filter (\<lambda>(t, s). t = 1) (zip y_true y_prob));
          neg = map snd (filter (\<lambda>(t, s). t \<noteq> 1) (zip y_true y_prob))
      in sum_list (map (\<lambda>p. sum_list (map (\<lambda>q. if q < p then 1 else if q = p then 1 / 2 else 0) neg)) pos)
         / (real (length pos) * real (length neg)))"

definition compute_classification_metrics ::
  "nat list \<Rightarrow> nat list \<Rightarrow> real list option \<Rightarrow> py_error + (string \<times> real) list" where
  "compute_classification_metrics y_true y_pred y_prob =
     (if length y_true \<noteq> length y_pred
      then Inl (ValueError ''Found input variables with inconsistent numbers of samples'')
      else
        let metrics = [(''precision'', precision_score y_true y_pred),
                       (''recall'', recall_score y_true y_pred),
                       (''f1'', f1_score y_true y_pred)]
        in case y_prob of
             None \<Rightarrow> Inr metrics
           | Some pr \<Rightarrow>
               if 1 < length (remdups y_true)
               then (if length pr \<noteq> length y_true then Inr (metrics @ [(''roc_auc'', 0)])
                     else Inr (metrics @ [(''roc_auc'', roc_auc_score y_true pr)]))
               else Inr metrics)"

section \<open>trainer.py: the split and the training loop\<close>

text \<open>Sequencing of computations that may raise.\<close>

definition ebind :: "'e + 'a \<Rightarrow> ('a \<Rightarrow> 'e + 'b) \<Rightarrow> 'e + 'b" where
  "ebind m f = (case m of Inl e \<Rightarrow> Inl e | Inr x \<Rightarrow> f x)"

text \<open>\<open>xs[idx]\<close> with an integer array \<open>idx\<close>, and \<open>xs[m]\<close> with a boolean mask \<open>m\<close>.\<close>

definition fancy_index :: "'a list \<Rightarrow> nat list \<Rightarrow> py_error + 'a list" where
  "fancy_index xs idx =
     (if \<forall>i\<in>set idx. i < length xs then Inr (map (\<lambda>i. xs ! i) idx)
      else Inl (IndexError ''index is out of bounds''))"

definition bool_index :: "'a list \<Rightarrow> bool list \<Rightarrow> py_error + 'a list" where
  "bool_index xs m =
     (if length m = length xs then Inr (map fst (filter snd (zip xs m)))
      else Inl (IndexError ''boolean index did not match indexed array''))"

text \<open>\<open>mask(indices)\<close>: a vector of \<open>n\<close> falses with \<open>m[indices] = True\<close>.\<close>

definition mask :: "nat \<Rightarrow> nat list \<Rightarrow> py_error + bool list" where
  "mask n indices =
     (if \<forall>i\<in>set indices. i < n then Inr (map (\<lambda>i. i \<in> set indices) [0..<n])
      else Inl (IndexError ''index is out of bounds''))"

text \<open>\<open>(probs > 0.5).astype(int)\<close>.\<close>

definition threshold_preds :: "real list \<Rightarrow> nat list" where
  "threshold_preds probs = map (\<lambda>p. if p > 0.5 then 1 else 0) probs"

text \<open>
  \<open>train_test_split(arrays, test_size, stratify, random_state)\<close> is scikit-learn's. Its
  sizes are the library's rule: the test part has \<open>ceil(test_size * n)\<close> elements and the
  train part the rest; it raises when the train part would be empty, when a class of
  \<open>stratify\<close> has a single member, and when a part is smaller than the number of classes.
  Which elements go where is drawn by the library: the parameter \<open>shuffle\<close> stands for
  that draw (the array, the labels to stratify on and the seed give the reordered array,
  train part first).
\<close>

type_synonym shuffle_fn = "nat list \<Rightarrow> nat list \<Rightarrow> int \<Rightarrow> nat list"

definition n_test_of :: "real \<Rightarrow> nat \<Rightarrow> nat" where
  "n_test_of test_size n = nat \<lceil>test_size * real n\<rceil>"

definition train_test_split ::
  "shuffle_fn \<Rightarrow> nat list \<Rightarrow> real \<Rightarrow> nat list \<Rightarrow> int \<Rightarrow> py_error + (nat list \<times> nat list)" where
  "train_test_split shuffle arr test_size stratify random_state =
     (let n = length arr; n_test = n_test_of test_size n; n_train = n - n_test;
          n_classes = length (remdups stratify)
      in if length stratify \<noteq> n
         then Inl (ValueError ''Found input variables with inconsistent numbers of samples'')
         else if n_train = 0
         then Inl (ValueError ''the resulting train set will be empty'')
         else if \<exists>c\<in>set stratify. count_list stratify c < 2
         then Inl (ValueError ''The least populated class in y has only 1 member'')
         else if n_train < n_classes \<or> n_test < n_classes
         then Inl (ValueError ''The size of a part should be greater or equal to the number of classes'')
         else Inr (take n_train (shuffle arr stratify random_state),
                   drop n_train (shuffle arr stratify random_state)))"

text \<open>Step 2 of \<open>train\<close>: the two successive splits of \<open>np.arange(n)\<close>.\<close>

definition train_val_test_split ::
  "shuffle_fn \<Rightarrow> nat list \<Rightarrow> int \<Rightarrow> py_error + (nat list \<times> nat list \<times> nat list)" where
  "train_val_test_split shuffle labels seed =
     (let n = length labels; idx = [0..<n]
      in ebind (train_test_split shuffle idx 0.15 labels seed) (\<lambda>(idx_tv, idx_test).
         ebind (fancy_index labels idx_tv) (\<lambda>labels_tv.
         ebind (train_test_split shuffle idx_tv 0.15 labels_tv seed) (\<lambda>(idx_train, idx_val).
         Inr (idx_train, idx_val, idx_test)))))"

text \<open>
  The network and its optimiser are torch's. The loop is modelled over any type \<open>'m\<close> of
  parameter states with the two operations it uses: \<open>train_step epoch\<close>, one epoch of
  optimisation, and \<open>predict_proba\<close>, the probability of class 1 for every node in
  evaluation mode.
\<close>

record 'm train_state =
  model :: 'm
  best_val_f1 :: real
  best_state :: "'m option"

text \<open>
  The validation of lines 121 to 131: the predictions are taken through the boolean mask
  (so in increasing index order), the labels and the probabilities through \<open>idx_val\<close>
  (so in the order of the split).
\<close>

definition validation_metrics ::
  "nat list \<Rightarrow> nat list \<Rightarrow> real list \<Rightarrow> py_error + (string \<times> real) list" where
  "validation_metrics labels idx_val val_prob =
     ebind (mask (length labels) idx_val) (\<lambda>val_mask.
     ebind (bool_index val_prob val_mask) (\<lambda>masked.
     ebind (fancy_index labels idx_val) (\<lambda>y_true.
     ebind (fancy_index val_prob idx_val) (\<lambda>y_prob.
     compute_classification_metrics y_true (threshold_preds masked) (Some y_prob)))))"

definition epoch_body ::
  "(nat \<Rightarrow> 'm \<Rightarrow> 'm) \<Rightarrow> ('m \<Rightarrow> real list) \<Rightarrow> nat list \<Rightarrow> nat list \<Rightarrow> nat \<Rightarrow>
   'm train_state \<Rightarrow> py_error + 'm train_state" where
  "epoch_body train_step predict_proba labels idx_val epoch st =
     (let m = train_step epoch (model st)
      in if epoch mod 10 = 0
         then ebind (validation_metrics labels idx_val (predict_proba m)) (\<lambda>vm.
                case map_of vm ''f1'' of
                  None \<Rightarrow> Inl (KeyError ''f1'')
                | Some f1 \<Rightarrow>
                    if f1 > best_val_f1 st
                    then Inr \<lparr>model = m, best_val_f1 = f1, best_state = Some m\<rparr>
                    else Inr (st\<lparr>model := m\<rparr>))
         else Inr (st\<lparr>model := m\<rparr>))"

fun epoch_loop ::
  "(nat \<Rightarrow> 'm \<Rightarrow> 'm) \<Rightarrow> ('m \<Rightarrow> real list) \<Rightarrow> nat list \<Rightarrow> nat list \<Rightarrow> nat list \<Rightarrow>
   'm train_state \<Rightarrow> py_error + 'm train_state" where
  "epoch_loop train_step predict_proba labels idx_val [] st = Inr st"
| "epoch_loop train_step predict_proba labels idx_val (epoch # rest) st =
     ebind (epoch_body train_step predict_proba labels idx_val epoch st)
       (epoch_loop train_step predict_proba labels idx_val rest)"

text \<open>
  Steps 3 and 4 of \<open>train\<close>: the loop over \<open>range(1, epochs + 1)\<close>, the reload of the best
  snapshot when there is one, and the probabilities of all nodes from the model so chosen.
\<close>

definition fit_model ::
  "(nat \<Rightarrow> 'm \<Rightarrow> 'm) \<Rightarrow> ('m \<Rightarrow> real list) \<Rightarrow> nat list \<Rightarrow> nat list \<Rightarrow> nat \<Rightarrow> 'm \<Rightarrow>
   py_error + 'm" where
  "fit_model train_step predict_proba labels idx_val epochs m0 =
     ebind (epoch_loop train_step predict_proba labels idx_val [1..<epochs + 1]
              \<lparr>model = m0, best_val_f1 = - 1, best_state = None\<rparr>)
       (\<lambda>st. case best_state st of Some b \<Rightarrow> Inr b | None \<Rightarrow> Inr (model st))"

definition all_probs ::
  "(nat \<Rightarrow> 'm \<Rightarrow> 'm) \<Rightarrow> ('m \<Rightarrow> real list) \<Rightarrow> nat list \<Rightarrow> nat list \<Rightarrow> nat \<Rightarrow> 'm \<Rightarrow>
   py_error + real list" where
  "all_probs train_step predict_proba labels idx_val epochs m0 =
     ebind (fit_model train_step predict_proba labels idx_val epochs m0) (\<lambda>m. Inr (predict_proba m))"

text \<open>
  The validation F1 the specification describes: the prediction of each validation entity
  against the label of that same entity.
\<close>

definition aligned_validation_f1 :: "nat list \<Rightarrow> nat list \<Rightarrow> real list \<Rightarrow> real" where
  "aligned_validation_f1 labels idx_val val_prob =
     f1_score (map (\<lambda>i. labels ! i) idx_val) (threshold_preds (map (\<lambda>i. val_prob ! i) idx_val))"

text \<open>The sizes of the three parts, for a split that succeeded.\<close>

definition split_sizes :: "py_error + (nat list \<times> nat list \<times> nat list) \<Rightarrow> py_error + (nat \<times> nat \<times> nat)" where
  "split_sizes r = map_sum id (\<lambda>(tr, va, te). (length tr, length va, length te)) r"

section \<open>gnn_model.py: the fallback GraphSAGE layer\<close>

text \<open>
  A tensor of shape \<open>(n, d)\<close> is the list of its \<open>n\<close> rows, each of length \<open>d\<close>; the
  \<open>edge_index\<close> of shape \<open>(2, E)\<close> is the list of its \<open>E\<close> columns \<open>(src, dst)\<close>. An
  \<open>nn.Linear\<close> layer is its weight matrix (one row per output) and its bias.
\<close>

record Linear =
  weight :: "real list list"
  bias :: "real list"

definition linear :: "Linear \<Rightarrow> real list \<Rightarrow> real list" where
  "linear l v = map (\<lambda>(w, b). sum_list (map2 (*) w v) + b) (zip (weight l) (bias l))"

definition vec_add :: "real list \<Rightarrow> real list \<Rightarrow> real list" where
  "vec_add u v = map2 (+) u v"

text \<open>
  \<open>agg.scatter_add_(0, dst.unsqueeze(1).expand(-1, d), x[src])\<close>: for every edge in turn,
  the row \<open>x[src]\<close> is added to the row \<open>dst\<close> of \<open>agg\<close>; and the same with a one for
  \<open>counts\<close>.
\<close>

definition scatter_add_rows :: "(nat \<times> nat) list \<Rightarrow> real list list \<Rightarrow> real list list \<Rightarrow> real list list" where
  "scatter_add_rows edge_index x agg =
     fold (\<lambda>(src, dst) a. a[dst := vec_add (a ! dst) (x ! src)]) edge_index agg"

definition scatter_add_ones :: "(nat \<times> nat) list \<Rightarrow> real list \<Rightarrow> real list" where
  "scatter_add_ones edge_index counts =
     fold (\<lambda>(src, dst) c. c[dst := c ! dst + 1]) edge_index counts"

definition sage_eps :: real where
  "sage_eps = 1 / 10 ^ 8"

definition sage :: "Linear \<Rightarrow> Linear \<Rightarrow> real list list \<Rightarrow> (nat \<times> nat) list \<Rightarrow> py_error + real list list" where
  "sage lin_self lin_neigh x edge_index =
     (let n = length x; d = (if x = [] then 0 else length (hd x))
      in if \<exists>(src, dst)\<in>set edge_index. n \<le> src \<or> n \<le> dst
         then Inl (IndexError ''index out of range in self'')
         else
           let agg = scatter_add_rows edge_index x (replicate n (replicate d 0));
               counts = scatter_add_ones edge_index (replicate n 0);
               agg' = map2 (\<lambda>row c. map (\<lambda>a. a / (c + sage_eps)) row) agg counts
           in Inr (map2 (\<lambda>xv av. linear lin_self xv @ linear lin_neigh av) x agg'))"

definition relu :: "real list list \<Rightarrow> real list list" where
  "relu h = map (map (\<lambda>a. max a 0)) h"

text \<open>\<open>embed\<close>: the two layers without dropout.\<close>

definition embed ::
  "Linear \<Rightarrow> Linear \<Rightarrow> Linear \<Rightarrow> Linear \<Rightarrow> real list list \<Rightarrow> (nat \<times> nat) list \<Rightarrow> py_error + real list list" where
  "embed l1_self l1_neigh l2_self l2_neigh x edge_index =
     ebind (sage l1_self l1_neigh x edge_index) (\<lambda>h1.
     ebind (sage l2_self l2_neigh (relu h1) edge_index) (\<lambda>h2. Inr (relu h2)))"

text \<open>
  The layer as the specification words it: for the node \<open>v\<close>, the sum of the input vectors
  of its in-neighbours (one term per incoming edge) divided by the in-degree plus epsilon.
\<close>

definition in_neighbors :: "(nat \<times> nat) list \<Rightarrow> nat \<Rightarrow> nat list" where
  "in_neighbors edge_index v = map fst (filter (\<lambda>(src, dst). dst = v) edge_index)"

definition mean_in :: "real list list \<Rightarrow> nat \<Rightarrow> (nat \<times> nat) list \<Rightarrow> nat \<Rightarrow> real list" where
  "mean_in x d edge_index v =
     map (\<lambda>j. sum_list (map (\<lambda>s. x ! s ! j) (in_neighbors edge_index v)) /
              (real (length (in_neighbors edge_index v)) + sage_eps)) [0..<d]"

section \<open>data_generator.py: the graph and the features\<close>

subsection \<open>Floats that may be infinite or NaN\<close>

datatype npfloat = Fin real | PosInf | NegInf | NaN

text \<open>\<open>np.log1p\<close>: minus infinity at \<open>-1\<close> and NaN below it.\<close>

definition np_log1p :: "real \<Rightarrow> npfloat" where
  "np_log1p x = (if - 1 < x then Fin (ln (1 + x)) else if x = - 1 then NegInf else NaN)"

text \<open>The quotient of two numpy floats: a division by zero gives an infinity or NaN.\<close>

definition np_div :: "real \<Rightarrow> real \<Rightarrow> npfloat" where
  "np_div x y =
     (if y \<noteq> 0 then Fin (x / y) else if 0 < x then PosInf else if x < 0 then NegInf else NaN)"

text \<open>\<open>min(a, b)\<close> of Python with a float \<open>b\<close>: \<open>b\<close> when \<open>b < a\<close>, else \<open>a\<close>.\<close>

fun py_min :: "npfloat \<Rightarrow> real \<Rightarrow> npfloat" where
  "py_min (Fin a) b = (if b < a then Fin b else Fin a)"
| "py_min PosInf b = Fin b"
| "py_min NegInf b = NegInf"
| "py_min NaN b = NaN"

text \<open>\<open>np.nan_to_num(m, nan=0.0, posinf=10.0, neginf=0.0)\<close>, on one entry.\<close>

fun nan_to_num :: "npfloat \<Rightarrow> npfloat" where
  "nan_to_num (Fin a) = Fin a"
| "nan_to_num NaN = Fin 0"
| "nan_to_num PosInf = Fin 10"
| "nan_to_num NegInf = Fin 0"

fun is_finite :: "npfloat \<Rightarrow> bool" where
  "is_finite (Fin a) = True"
| "is_finite x = False"

text \<open>
  \<open>np.array(rows, dtype=np.float32)\<close>: the shape is \<open>(n, k)\<close> for \<open>n > 0\<close> rows of \<open>k\<close>
  entries and \<open>(0,)\<close> for no row at all. The rounding to 32 bits is not modelled.
\<close>

record ndarray =
  shape :: "nat list"
  data :: "npfloat list list"

definition np_array :: "npfloat list list \<Rightarrow> ndarray" where
  "np_array rows =
     \<lparr>shape = (if rows = [] then [0] else [length rows, length (hd rows)]), data = rows\<rparr>"

subsection \<open>The directed graph\<close>

text \<open>
  A \<open>networkx.DiGraph\<close>, without the attributes: the nodes in insertion order and the
  edges, each pair once. \<open>add_edge\<close> adds the end points that are not nodes yet. The degree
  of a node counts its incoming and its outgoing edges, a self-loop twice.
\<close>

record DiGraph =
  nodes :: "string list"
  edges :: "(string \<times> string) list"

definition add_node :: "string \<Rightarrow> DiGraph \<Rightarrow> DiGraph" where
  "add_node v G = (if v \<in> set (nodes G) then G else G\<lparr>nodes := nodes G @ [v]\<rparr>)"

definition add_edge :: "string \<Rightarrow> string \<Rightarrow> DiGraph \<Rightarrow> DiGraph" where
  "add_edge u v G =
     (let G' = add_node v (add_node u G)
      in if (u, v) \<in> set (edges G') then G' else G'\<lparr>edges := edges G' @ [(u, v)]\<rparr>)"

definition build_networkx_graph :: "EntityRecord list \<Rightarrow> TransactionRecord list \<Rightarrow> DiGraph" where
  "build_networkx_graph ents txs =
     fold (\<lambda>tx. add_edge (t_src tx) (t_dst tx)) txs
       (fold (\<lambda>e. add_node (e_id e)) ents \<lparr>nodes = [], edges = []\<rparr>)"

definition in_degree :: "DiGraph \<Rightarrow> string \<Rightarrow> nat" where
  "in_degree G v = length (filter (\<lambda>(a, b). b = v) (edges G))"

definition out_degree :: "DiGraph \<Rightarrow> string \<Rightarrow> nat" where
  "out_degree G v = length (filter (\<lambda>(a, b). a = v) (edges G))"

definition degree :: "DiGraph \<Rightarrow> string \<Rightarrow> nat" where
  "degree G v = in_degree G v + out_degree G v"

text \<open>
  \<open>nx.degree_centrality\<close> and \<open>nx.in_degree_centrality\<close>: 1 for every node of a graph with
  at most one node, else the degree times \<open>1 / (n - 1)\<close>.
\<close>

definition degree_centrality :: "DiGraph \<Rightarrow> string \<rightharpoonup> real" where
  "degree_centrality G v =
     (if v \<notin> set (nodes G) then None
      else if length (nodes G) \<le> 1 then Some 1
      else Some (real (degree G v) * (1 / (real (length (nodes G)) - 1))))"

definition in_degree_centrality :: "DiGraph \<Rightarrow> string \<rightharpoonup> real" where
  "in_degree_centrality G v =
     (if v \<notin> set (nodes G) then None
      else if length (nodes G) \<le> 1 then Some 1
      else Some (real (in_degree G v) * (1 / (real (length (nodes G)) - 1))))"

text \<open>\<open>max(iterable, default=1)\<close> over natural numbers: the default only for no element.\<close>

definition max_default :: "nat list \<Rightarrow> nat" where
  "max_default xs = (if xs = [] then 1 else fold max (tl xs) (hd xs))"

text \<open>
  The centralities of \<open>compute_node_features\<close>: the library's up to 8000 nodes, else the
  degree over the largest degree, a division of Python integers, which raises when the
  largest degree is zero.
\<close>

definition centralities ::
  "DiGraph \<Rightarrow> py_error + ((string \<rightharpoonup> real) \<times> (string \<rightharpoonup> real))" where
  "centralities G =
     (let n = length (nodes G)
      in if n \<le> 8000 then Inr (degree_centrality G, in_degree_centrality G)
         else
           let max_d = max_default (map (degree G) (nodes G));
               max_id = max_default (map (in_degree G) (nodes G))
           in if nodes G \<noteq> [] \<and> max_d = 0 then Inl (ZeroDivisionError ''division by zero'')
              else if nodes G \<noteq> [] \<and> max_id = 0 then Inl (ZeroDivisionError ''division by zero'')
              else Inr ((\<lambda>v. if v \<in> set (nodes G) then Some (real (degree G v) / real max_d) else None),
                        (\<lambda>v. if v \<in> set (nodes G) then Some (real (in_degree G v) / real max_id) else None)))"

subsection \<open>The single pass over the transactions\<close>

definition HIGH_RISK_COUNTRIES :: "string list" where
  "HIGH_RISK_COUNTRIES = [''PA'', ''VG'', ''KY'', ''MH'', ''BZ'', ''WS'', ''SC'', ''AE'', ''LI'']"

text \<open>
  The nine accumulators are dicts over the same keys, the entity ids; they are modelled
  as one dict whose values hold the nine entries of a key. A Python \<open>set\<close> of strings is a
  list without repetition (only its size is read).
\<close>

record entity_acc =
  out_amounts :: "real list"
  in_amounts :: "real list"
  out_countries :: "string list"
  in_countries :: "string list"
  out_channels :: "string list"
  in_channels :: "string list"
  timestamps :: "int list"
  counterparts :: "string list"
  flag_counts :: nat

definition empty_acc :: entity_acc where
  "empty_acc =
     \<lparr>out_amounts = [], in_amounts = [], out_countries = [], in_countries = [],
      out_channels = [], in_channels = [], timestamps = [], counterparts = [], flag_counts = 0\<rparr>"

definition acc_out :: "TransactionRecord \<Rightarrow> entity_acc \<Rightarrow> entity_acc" where
  "acc_out tx a =
     a\<lparr>out_amounts := out_amounts a @ [t_amount tx],
       out_countries := List.insert (t_country tx) (out_countries a),
       out_channels := List.insert (t_channel tx) (out_channels a),
       timestamps := timestamps a @ [t_timestamp tx],
       counterparts := List.insert (t_dst tx) (counterparts a),
       flag_counts := flag_counts a + length (t_risk_flags tx)\<rparr>"

definition acc_in :: "TransactionRecord \<Rightarrow> entity_acc \<Rightarrow> entity_acc" where
  "acc_in tx a =
     a\<lparr>in_amounts := in_amounts a @ [t_amount tx],
       in_countries := List.insert (t_country tx) (in_countries a),
       in_channels := List.insert (t_channel tx) (in_channels a),
       timestamps := timestamps a @ [t_timestamp tx],
       counterparts := List.insert (t_src tx) (counterparts a),
       flag_counts := flag_counts a + length (t_risk_flags tx)\<rparr>"

definition acc_tx :: "TransactionRecord \<Rightarrow> (string \<rightharpoonup> entity_acc) \<Rightarrow> (string \<rightharpoonup> entity_acc)" where
  "acc_tx tx acc =
     (let acc1 = (case acc (t_src tx) of None \<Rightarrow> acc | Some a \<Rightarrow> acc(t_src tx \<mapsto> acc_out tx a))
      in case acc1 (t_dst tx) of None \<Rightarrow> acc1 | Some a \<Rightarrow> acc1(t_dst tx \<mapsto> acc_in tx a))"

definition accumulate :: "string list \<Rightarrow> TransactionRecord list \<Rightarrow> (string \<rightharpoonup> entity_acc)" where
  "accumulate eids txs = fold acc_tx txs (\<lambda>eid. if eid \<in> set eids then Some empty_acc else None)"

subsection \<open>The rows\<close>

definition feature_names :: "string list" where
  "feature_names =
     [''total_sent'', ''total_received'', ''num_sent'', ''num_received'',
      ''avg_sent'', ''avg_received'', ''max_sent'', ''max_received'',
      ''in_out_ratio'', ''geo_diversity'', ''channel_diversity'',
      ''unique_counterparties'', ''burstiness'', ''risk_flag_count'',
      ''degree_centrality'', ''in_degree_centrality'',
      ''entity_type_enc'', ''country_risk'']"

definition etype_enc :: "(string \<times> nat) list" where
  "etype_enc = [(''individual'', 0), (''business'', 1), (''mule'', 2), (''shell'', 3)]"

definition np_mean :: "real list \<Rightarrow> real" where
  "np_mean xs = sum_list xs / real (length xs)"

text \<open>\<open>np.std\<close>: the population standard deviation.\<close>

definition np_std :: "real list \<Rightarrow> real" where
  "np_std xs = sqrt (np_mean (map (\<lambda>x. (x - np_mean xs)\<^sup>2) xs))"

text \<open>\<open>np.diff\<close>: the differences of consecutive elements.\<close>

definition np_diff :: "real list \<Rightarrow> real list" where
  "np_diff xs = map (\<lambda>(a, b). b - a) (zip xs (tl xs))"

definition total_seconds :: "int \<Rightarrow> real" where
  "total_seconds us = real_of_int us / 10 ^ 6"

definition burstiness_of :: "int list \<Rightarrow> npfloat" where
  "burstiness_of tss =
     (let ts_list = sort tss
      in if 3 \<le> length ts_list
         then let deltas = np_diff (map (\<lambda>t. total_seconds (t - hd ts_list)) ts_list)
              in np_div (np_std deltas) (np_mean deltas + 1 / 10 ^ 9)
         else Fin 0)"

text \<open>
  The row of one entity. The in/out ratio is a division of Python floats, which raises
  when the divisor \<open>total_s + 1e-9\<close> is zero.
\<close>

definition feature_row ::
  "(string \<rightharpoonup> real) \<Rightarrow> (string \<rightharpoonup> real) \<Rightarrow> EntityRecord \<Rightarrow> entity_acc \<Rightarrow> string \<Rightarrow>
   py_error + npfloat list" where
  "feature_row deg_cent in_deg_cent e a eid =
     (let oa = out_amounts a; ia = in_amounts a;
          total_s = sum_list oa; total_r = sum_list ia;
          n_s = length oa; n_r = length ia;
          avg_s = (if oa \<noteq> [] then np_mean oa else 0);
          avg_r = (if ia \<noteq> [] then np_mean ia else 0);
          max_s = (if oa \<noteq> [] then max_list oa else 0);
          max_r = (if ia \<noteq> [] then max_list ia else 0)
      in if total_s + 1 / 10 ^ 9 = 0 then Inl (ZeroDivisionError ''float division by zero'')
         else
           let ratio = total_r / (total_s + 1 / 10 ^ 9);
               geo = length (List.union (out_countries a) (in_countries a));
               ch_div = length (List.union (out_channels a) (in_channels a));
               cp = length (counterparts a);
               crisk = (if e_country e \<in> set HIGH_RISK_COUNTRIES then 1 else 0);
               burstiness = burstiness_of (timestamps a)
           in Inr [np_log1p total_s, np_log1p total_r,
                   np_log1p (real n_s), np_log1p (real n_r),
                   np_log1p avg_s, np_log1p avg_r,
                   np_log1p max_s, np_log1p max_r,
                   np_log1p ratio,
                   Fin (real geo), Fin (real ch_div), np_log1p (real cp),
                   py_min burstiness 10,
                   np_log1p (real (flag_counts a)),
                   Fin (get_or deg_cent eid 0),
                   Fin (get_or in_deg_cent eid 0),
                   Fin (real (get_or (map_of etype_enc) (e_entity_type e) 0)),
                   Fin crisk])"

text \<open>A loop that appends one result per element and stops at the first exception.\<close>

fun emap :: "('a \<Rightarrow> 'e + 'b) \<Rightarrow> 'a list \<Rightarrow> 'e + 'b list" where
  "emap f [] = Inr []"
| "emap f (x # xs) = ebind (f x) (\<lambda>y. ebind (emap f xs) (\<lambda>ys. Inr (y # ys)))"

text \<open>
  \<open>entity_lookup = {e.id: e for e in entities}\<close>: of two entities with one id the later
  one stays. Every id of \<open>eids\<close> is a key of it and of the accumulators.
\<close>

definition entity_lookup :: "EntityRecord list \<Rightarrow> string \<rightharpoonup> EntityRecord" where
  "entity_lookup ents = map_of (rev (map (\<lambda>e. (e_id e, e)) ents))"

definition compute_node_features ::
  "DiGraph \<Rightarrow> EntityRecord list \<Rightarrow> TransactionRecord list \<Rightarrow>
   py_error + (ndarray \<times> string list \<times> string list)" where
  "compute_node_features G ents txs =
     (let eids = map e_id ents;
          acc = accumulate eids txs
      in ebind (centralities G) (\<lambda>(deg_cent, in_deg_cent).
         ebind (emap (\<lambda>eid. feature_row deg_cent in_deg_cent
                               (the (entity_lookup ents eid)) (the (acc eid)) eid) eids) (\<lambda>rows.
         let feat_matrix = np_array rows
         in Inr (feat_matrix\<lparr>data := map (map nan_to_num) (data feat_matrix)\<rparr>, eids, feature_names))))"

text \<open>
  Two predicates used to state properties of a feature matrix, and the number that a
  string of decimal digits denotes (leading zeros allowed), used to tell the generated
  identifiers apart.
\<close>

definition amounts_nonneg :: "entity_acc \<Rightarrow> bool" where
  "amounts_nonneg a \<longleftrightarrow> (\<forall>x\<in>set (out_amounts a) \<union> set (in_amounts a). 0 \<le> x)"

fun is_nonneg :: "npfloat \<Rightarrow> bool" where
  "is_nonneg (Fin a) = (0 \<le> a)"
| "is_nonneg x = False"

definition digits_val :: "string \<Rightarrow> nat" where
  "digits_val s = foldl (\<lambda>acc c. 10 * acc + (of_char c - 48)) 0 s"

text \<open>The identifier \<open>f"E{i:07d}"\<close> of the \<open>i\<close>-th entity.\<close>

definition entity_id_of :: "nat \<Rightarrow> string" where
  "entity_id_of i = ''E'' @ zpad 7 (dec i)"

section \<open>data_generator.py: the generator\<close>

subsection \<open>Random numbers\<close>

text \<open>
  The generator draws from the two global generators that \<open>_reset_rng\<close> seeds: that of the
  module \<open>random\<close> and that of \<open>numpy.random\<close>. A state of both is the stream of raw draws
  of each with the number of draws consumed. Every library call consumes one raw draw and
  maps it into its range: \<open>randbelow n\<close> is the draw modulo \<open>n\<close>, \<open>random()\<close> is a multiple
  of \<open>2^-53\<close> below 1, a standard normal is a raw real. \<open>random.sample\<close> selects positions
  from a shrinking pool, as the library does for small populations (for large ones it
  redraws a position already taken; either way the elements come from distinct
  positions). A computation that draws takes the state and returns the new one, or raises.
\<close>

record rng =
  py_draws :: "nat \<Rightarrow> nat"
  py_pos :: nat
  np_draws :: "nat \<Rightarrow> real"
  np_pos :: nat

type_synonym 'a gen = "rng \<Rightarrow> py_error + ('a \<times> rng)"

definition greturn :: "'a \<Rightarrow> 'a gen" where
  "greturn x r = Inr (x, r)"

definition graise :: "py_error \<Rightarrow> 'a gen" where
  "graise e r = Inl e"

definition gbind :: "'a gen \<Rightarrow> ('a \<Rightarrow> 'b gen) \<Rightarrow> 'b gen" where
  "gbind m f r = (case m r of Inl e \<Rightarrow> Inl e | Inr (x, r') \<Rightarrow> f x r')"

text \<open>A loop that collects one result per element, and a loop that threads an accumulator.\<close>

fun gmap :: "('a \<Rightarrow> 'b gen) \<Rightarrow> 'a list \<Rightarrow> 'b list gen" where
  "gmap f [] r = Inr ([], r)"
| "gmap f (x # xs) r =
     (case f x r of
        Inl e \<Rightarrow> Inl e
      | Inr (y, r1) \<Rightarrow> (case gmap f xs r1 of Inl e \<Rightarrow> Inl e | Inr (ys, r2) \<Rightarrow> Inr (y # ys, r2)))"

fun gfold :: "('a \<Rightarrow> 's \<Rightarrow> 's gen) \<Rightarrow> 'a list \<Rightarrow> 's \<Rightarrow> 's gen" where
  "gfold f [] s r = Inr (s, r)"
| "gfold f (x # xs) s r =
     (case f x s r of Inl e \<Rightarrow> Inl e | Inr (s1, r1) \<Rightarrow> gfold f xs s1 r1)"

definition randbelow :: "nat \<Rightarrow> nat gen" where
  "randbelow n r = Inr (py_draws r (py_pos r) mod n, r\<lparr>py_pos := Suc (py_pos r)\<rparr>)"

definition randint :: "int \<Rightarrow> int \<Rightarrow> int gen" where
  "randint a b =
     (if b < a then graise (ValueError ''empty range for randrange()'')
      else gbind (randbelow (nat (b - a + 1))) (\<lambda>j. greturn (a + int j)))"

definition choice :: "'a list \<Rightarrow> 'a gen" where
  "choice xs =
     (if xs = [] then graise (IndexError ''Cannot choose from an empty sequence'')
      else gbind (randbelow (length xs)) (\<lambda>j. greturn (xs ! j)))"

definition random_unit :: "real gen" where
  "random_unit r =
     Inr (real (py_draws r (py_pos r) mod 2 ^ 53) / 2 ^ 53, r\<lparr>py_pos := Suc (py_pos r)\<rparr>)"

definition uniform :: "real \<Rightarrow> real \<Rightarrow> real gen" where
  "uniform a b = gbind random_unit (\<lambda>u. greturn (a + (b - a) * u))"

text \<open>
  The pool loop of \<open>random.sample\<close>: at step \<open>i\<close> a position below \<open>n - i\<close> is drawn, its
  element is taken, and the last element not yet taken moves into the vacancy.
\<close>

fun sample_loop :: "'a list \<Rightarrow> nat \<Rightarrow> nat \<Rightarrow> nat \<Rightarrow> rng \<Rightarrow> 'a list \<times> rng" where
  "sample_loop pool n i 0 r = ([], r)"
| "sample_loop pool n i (Suc c) r =
     (let j = py_draws r (py_pos r) mod (n - i);
          r1 = r\<lparr>py_pos := Suc (py_pos r)\<rparr>;
          (rest, r2) = sample_loop (pool[j := pool ! (n - i - 1)]) n (Suc i) c r1
      in (pool ! j # rest, r2))"

definition sample :: "'a list \<Rightarrow> nat \<Rightarrow> 'a list gen" where
  "sample population k =
     (if length population < k then graise (ValueError ''Sample larger than population or is negative'')
      else (\<lambda>r. Inr (sample_loop population (length population) 0 k r)))"

definition lognormal :: "real \<Rightarrow> real \<Rightarrow> real gen" where
  "lognormal mean sigma r =
     Inr (exp (mean + sigma * np_draws r (np_pos r)), r\<lparr>np_pos := Suc (np_pos r)\<rparr>)"

text \<open>\<open>round(x, 2)\<close>.\<close>

definition round2 :: "real \<Rightarrow> real" where
  "round2 x = real_of_int (round_half_even (x * 100)) / 100"

text \<open>The state after \<open>k\<close> further draws from \<open>random\<close>, and the next raw draw.\<close>

definition after_draws :: "nat \<Rightarrow> rng \<Rightarrow> rng" where
  "after_draws k r = r\<lparr>py_pos := py_pos r + k\<rparr>"

definition next_draw :: "rng \<Rightarrow> nat" where
  "next_draw r = py_draws r (py_pos r)"

subsection \<open>Constants\<close>

text \<open>
  \<open>HIGH_RISK_COUNTRIES\<close> and \<open>HIGH_RISK_CHANNELS\<close> are Python sets; \<open>list(...)\<close> of them is
  taken in the order of the source text.
\<close>

definition COUNTRIES :: "string list" where
  "COUNTRIES =
     [''US'', ''GB'', ''DE'', ''FR'', ''NL'', ''CH'', ''SG'', ''HK'', ''AE'', ''PA'',
      ''VG'', ''KY'', ''LU'', ''MT'', ''CY'', ''LI'', ''MH'', ''BZ'', ''WS'', ''SC'']"

definition NORMAL_COUNTRIES :: "string list" where
  "NORMAL_COUNTRIES = filter (\<lambda>c. c \<notin> set HIGH_RISK_COUNTRIES) COUNTRIES"

definition CHANNELS :: "string list" where
  "CHANNELS = [''wire'', ''cash'', ''crypto'', ''ach'', ''check'', ''swift'']"

definition HIGH_RISK_CHANNELS :: "string list" where
  "HIGH_RISK_CHANNELS = [''cash'', ''crypto'']"

definition ENTITY_TYPES :: "string list" where
  "ENTITY_TYPES = [''individual'', ''business'']"

definition SUSPICIOUS_TYPES :: "string list" where
  "SUSPICIOUS_TYPES = [''mule'', ''shell'']"

subsection \<open>Entities and transactions\<close>

definition create_entity :: "nat \<Rightarrow> nat \<Rightarrow> EntityRecord gen" where
  "create_entity n_suspicious i =
     (let is_susp = (i < n_suspicious)
      in gbind (if is_susp then choice SUSPICIOUS_TYPES else choice ENTITY_TYPES) (\<lambda>etype.
         gbind (if is_susp then choice HIGH_RISK_COUNTRIES else choice NORMAL_COUNTRIES) (\<lambda>country.
         greturn \<lparr>e_id = entity_id_of i, e_entity_type = etype, e_country = country,
                  e_is_suspicious = is_susp, e_cluster_id = None, e_risk_score = 0,
                  e_features = []\<rparr>)))"

text \<open>\<open>_create_entities\<close>, with \<open>int(n * 0.05)\<close> the twentieth of \<open>n\<close> rounded down.\<close>

definition create_entities :: "nat \<Rightarrow> EntityRecord list gen" where
  "create_entities n =
     (let n_suspicious = max 10 (n div 20)
      in gmap (create_entity n_suspicious) [0..<n])"

definition risk_flags_of :: "real \<Rightarrow> string \<Rightarrow> string \<Rightarrow> string list" where
  "risk_flags_of amount channel country =
     (if 9000 \<le> amount \<and> amount < 10000 then [''structuring_threshold''] else []) @
     (if channel \<in> set HIGH_RISK_CHANNELS then [''high_risk_channel''] else []) @
     (if country \<in> set HIGH_RISK_COUNTRIES then [''high_risk_country''] else []) @
     (if amount > 100000 then [''large_value''] else [])"

text \<open>
  \<open>_make_tx\<close>. The optional arguments are drawn when absent; then the day, the hour and
  the minute. The timestamp is in microseconds since \<open>BASE_DATE\<close>.
\<close>

definition make_tx ::
  "string \<Rightarrow> string \<Rightarrow> bool \<Rightarrow> nat \<Rightarrow> real option \<Rightarrow> string option \<Rightarrow> string option \<Rightarrow> int \<Rightarrow>
   TransactionRecord gen" where
  "make_tx src dst is_suspicious tx_idx amount channel country days_spread =
     gbind (case amount of None \<Rightarrow> lognormal 7.5 1.8 | Some a \<Rightarrow> greturn a) (\<lambda>amount.
     gbind (case channel of
              None \<Rightarrow> (if is_suspicious then choice HIGH_RISK_CHANNELS else choice CHANNELS)
            | Some c \<Rightarrow> greturn c) (\<lambda>channel.
     gbind (case country of
              None \<Rightarrow> (if is_suspicious then choice HIGH_RISK_COUNTRIES else choice NORMAL_COUNTRIES)
            | Some c \<Rightarrow> greturn c) (\<lambda>country.
     gbind (randint 0 days_spread) (\<lambda>days.
     gbind (randint 0 23) (\<lambda>hours.
     gbind (randint 0 59) (\<lambda>minutes.
     greturn \<lparr>t_id = ''T'' @ zpad 10 (dec tx_idx), t_src = src, t_dst = dst,
              t_amount = round2 amount,
              t_timestamp = ((days * 24 + hours) * 60 + minutes) * 60 * 10 ^ 6,
              t_channel = channel, t_country = country,
              t_risk_flags = risk_flags_of amount channel country,
              t_is_suspicious = is_suspicious\<rparr>))))))"

subsection \<open>The three patterns\<close>

definition pick_suspicious :: "string list \<Rightarrow> string list \<Rightarrow> string gen" where
  "pick_suspicious susp_ids normal_ids =
     (if susp_ids \<noteq> [] then choice susp_ids else choice normal_ids)"

definition smurf_tx ::
  "string \<Rightarrow> nat \<Rightarrow> nat \<times> string \<Rightarrow> TransactionRecord list \<times> real \<Rightarrow>
   (TransactionRecord list \<times> real) gen" where
  "smurf_tx mule tx_offset i_smurf st =
     gbind (uniform 2500 9490) (\<lambda>u.
     let amount = round2 u
     in gbind (choice NORMAL_COUNTRIES) (\<lambda>country.
        gbind (make_tx (snd i_smurf) mule True (tx_offset + fst i_smurf) (Some amount)
                 (Some ''cash'') (Some country) 7) (\<lambda>tx.
        greturn (fst st @ [tx], snd st + amount))))"

definition generate_smurfing ::
  "string list \<Rightarrow> string list \<Rightarrow> nat \<Rightarrow> (TransactionRecord list \<times> string list) gen" where
  "generate_smurfing susp_ids normal_ids tx_offset =
     gbind (randint 5 14) (\<lambda>n_smurfs.
     gbind (sample normal_ids (min (nat n_smurfs) (length normal_ids))) (\<lambda>smurfs.
     gbind (pick_suspicious susp_ids normal_ids) (\<lambda>mule.
     gbind (pick_suspicious susp_ids normal_ids) (\<lambda>beneficiary.
     gbind (randint 0 300) (\<lambda>base_day.
     gbind (gfold (smurf_tx mule tx_offset) (zip [0..<length smurfs] smurfs) ([], 0)) (\<lambda>(txs, total).
     gbind (choice [''wire'', ''crypto'', ''swift'']) (\<lambda>channel.
     gbind (choice HIGH_RISK_COUNTRIES) (\<lambda>country.
     gbind (make_tx mule beneficiary True (tx_offset + length smurfs) (Some (round2 (total * 0.93)))
              (Some channel) (Some country) 365) (\<lambda>tx.
     greturn (txs @ [tx], smurfs @ [mule, beneficiary]))))))))))"

definition chain_member :: "string list \<Rightarrow> string list \<Rightarrow> nat \<Rightarrow> string gen" where
  "chain_member susp_ids normal_ids k =
     gbind random_unit (\<lambda>u.
     if u < 0.55 \<and> susp_ids \<noteq> [] then choice susp_ids else choice normal_ids)"

definition layer_tx ::
  "string list \<Rightarrow> nat \<Rightarrow> nat \<Rightarrow> TransactionRecord list \<times> real \<Rightarrow>
   (TransactionRecord list \<times> real) gen" where
  "layer_tx chain tx_offset i st =
     gbind (uniform 0.88 0.97) (\<lambda>u.
     let hop_amount = round2 (snd st * u)
     in gbind (choice HIGH_RISK_COUNTRIES) (\<lambda>country.
        gbind (choice [''wire'', ''swift'', ''crypto'']) (\<lambda>channel.
        gbind (make_tx (chain ! i) (chain ! (i + 1)) True (tx_offset + i) (Some hop_amount)
                 (Some channel) (Some country) 90) (\<lambda>tx.
        greturn (fst st @ [tx], hop_amount)))))"

definition generate_layering ::
  "string list \<Rightarrow> string list \<Rightarrow> nat \<Rightarrow> (TransactionRecord list \<times> string list) gen" where
  "generate_layering susp_ids normal_ids tx_offset =
     gbind (randint 4 9) (\<lambda>chain_length.
     gbind (gmap (chain_member susp_ids normal_ids) [0..<nat chain_length]) (\<lambda>chain.
     gbind (uniform 50000 800000) (\<lambda>u.
     gbind (gfold (layer_tx chain tx_offset) [0..<length chain - 1] ([], round2 u)) (\<lambda>(txs, amount).
     greturn (txs, chain)))))"

definition circular_tx :: "string list \<Rightarrow> real \<Rightarrow> nat \<Rightarrow> nat \<Rightarrow> TransactionRecord gen" where
  "circular_tx cycle amount tx_offset i =
     (let src = cycle ! i; dst = cycle ! ((i + 1) mod length cycle)
      in gbind (uniform 0.92 1.08) (\<lambda>u.
         gbind (choice [''wire'', ''crypto'', ''swift'']) (\<lambda>channel.
         gbind (choice HIGH_RISK_COUNTRIES) (\<lambda>country.
         make_tx src dst True (tx_offset + i) (Some (round2 (amount * u)))
           (Some channel) (Some country) 30))))"

definition generate_circular ::
  "string list \<Rightarrow> string list \<Rightarrow> nat \<Rightarrow> (TransactionRecord list \<times> string list) gen" where
  "generate_circular susp_ids normal_ids tx_offset =
     gbind (randint 3 7) (\<lambda>cycle_size.
     let pool = (if nat cycle_size \<le> length susp_ids then susp_ids else normal_ids)
     in gbind (sample pool (min (nat cycle_size) (length pool))) (\<lambda>cycle.
        gbind (uniform 15000 300000) (\<lambda>u.
        let amount = round2 u
        in gbind (gmap (circular_tx cycle amount tx_offset) [0..<length cycle]) (\<lambda>txs.
           greturn (txs, cycle)))))"

subsection \<open>The dataset\<close>

text \<open>
  The state of \<open>_generate_dataset\<close>: the entities (the values of \<open>entity_map\<close>, in the order
  of their keys), the transactions and the offset of the next transaction. The field
  \<open>ds_clusters\<close> is not in the source: it records, for every pattern generated, the
  cluster id with the transactions and the member list that the pattern returned, so that
  properties of a cluster can be stated.
\<close>

record dataset =
  ds_entities :: "EntityRecord list"
  ds_transactions :: "TransactionRecord list"
  ds_tx_offset :: nat
  ds_clusters :: "(string \<times> TransactionRecord list \<times> string list) list"

definition normal_tx :: "string list \<Rightarrow> nat \<Rightarrow> nat \<Rightarrow> TransactionRecord gen" where
  "normal_tx normal_ids tx_offset i =
     gbind (sample normal_ids 2) (\<lambda>pair.
     make_tx (pair ! 0) (pair ! 1) False (tx_offset + i) None None None 365)"

text \<open>\<open>entity_map[mid].cluster_id = cluster_id; entity_map[mid].is_suspicious = True\<close>.\<close>

definition label_member :: "string \<Rightarrow> string \<Rightarrow> EntityRecord list \<Rightarrow> EntityRecord list" where
  "label_member cluster_id mid ents =
     map (\<lambda>e. if e_id e = mid then e\<lparr>e_cluster_id := Some cluster_id, e_is_suspicious := True\<rparr> else e) ents"

text \<open>
  One round of a pattern loop; the three loops of the source differ in the generator they
  call and in the prefix of the cluster id only.
\<close>

definition pattern_round ::
  "(string list \<Rightarrow> string list \<Rightarrow> nat \<Rightarrow> (TransactionRecord list \<times> string list) gen) \<Rightarrow>
   string \<Rightarrow> string list \<Rightarrow> string list \<Rightarrow> nat \<Rightarrow> dataset \<Rightarrow> dataset gen" where
  "pattern_round generate prefix susp_ids normal_ids k ds =
     (let cluster_id = prefix @ zpad 4 (dec k)
      in gbind (generate susp_ids normal_ids (ds_tx_offset ds)) (\<lambda>(new_txs, members).
         greturn \<lparr>ds_entities = fold (label_member cluster_id) members (ds_entities ds),
                  ds_transactions = ds_transactions ds @ new_txs,
                  ds_tx_offset = ds_tx_offset ds + length new_txs,
                  ds_clusters = ds_clusters ds @ [(cluster_id, new_txs, members)]\<rparr>))"

definition generate_dataset_state :: "nat \<Rightarrow> nat \<Rightarrow> nat \<Rightarrow> nat \<Rightarrow> nat \<Rightarrow> dataset gen" where
  "generate_dataset_state n_entities n_normal_tx n_smurfing_clusters n_layering_chains
       n_circular_clusters =
     gbind (create_entities n_entities) (\<lambda>entities.
     let normal_ids = map e_id (filter (\<lambda>e. \<not> e_is_suspicious e) entities);
         susp_ids = map e_id (filter e_is_suspicious entities)
     in gbind (gmap (normal_tx normal_ids 0) [0..<n_normal_tx]) (\<lambda>txs.
        gbind (gfold (pattern_round generate_smurfing ''CLU_SMURF_'' susp_ids normal_ids)
                 [0..<n_smurfing_clusters]
                 \<lparr>ds_entities = entities, ds_transactions = txs, ds_tx_offset = n_normal_tx,
                  ds_clusters = []\<rparr>) (\<lambda>ds1.
        gbind (gfold (pattern_round generate_layering ''CLU_LAYER_'' susp_ids normal_ids)
                 [0..<n_layering_chains] ds1) (\<lambda>ds2.
        gfold (pattern_round generate_circular ''CLU_CIRC_'' susp_ids normal_ids)
          [0..<n_circular_clusters] ds2))))"

definition generate_dataset ::
  "nat \<Rightarrow> nat \<Rightarrow> nat \<Rightarrow> nat \<Rightarrow> nat \<Rightarrow> (EntityRecord list \<times> TransactionRecord list) gen" where
  "generate_dataset n_entities n_normal_tx n_smurfing_clusters n_layering_chains n_circular_clusters =
     gbind (generate_dataset_state n_entities n_normal_tx n_smurfing_clusters n_layering_chains
              n_circular_clusters) (\<lambda>ds.
     greturn (ds_entities ds, ds_transactions ds))"

text \<open>\<open>generate(mode)\<close>; \<open>seeded\<close> is the state that \<open>_reset_rng\<close> sets for the seed.\<close>

definition generate :: "rng \<Rightarrow> string \<Rightarrow> py_error + ((EntityRecord list \<times> TransactionRecord list) \<times> rng)" where
  "generate seeded mode =
     (if mode = ''demo'' then generate_dataset 1000 4000 6 10 5 seeded
      else generate_dataset 15000 120000 90 140 70 seeded)"

subsection \<open>Cycles\<close>

text \<open>
  What the specification asks of a circular cluster. The edges of a list of transactions;
  their restriction to a set of members; and the property that the edges form a closed
  directed cycle through the members, each visited once: some ordering of the members has
  exactly the edges from each member to the next and from the last back to the first.
\<close>

definition tx_edges :: "TransactionRecord list \<Rightarrow> (string \<times> string) list" where
  "tx_edges txs = map (\<lambda>tx. (t_src tx, t_dst tx)) txs"

definition restrict_edges :: "string list \<Rightarrow> (string \<times> string) list \<Rightarrow> (string \<times> string) list" where
  "restrict_edges members es = filter (\<lambda>(s, d). s \<in> set members \<and> d \<in> set members) es"

fun interleave :: "'a \<Rightarrow> 'a list \<Rightarrow> 'a list list" where
  "interleave x [] = [[x]]"
| "interleave x (y # ys) = (x # y # ys) # map ((#) y) (interleave x ys)"

fun orderings :: "'a list \<Rightarrow> 'a list list" where
  "orderings [] = [[]]"
| "orderings (x # xs) = concat (map (interleave x) (orderings xs))"

definition forms_closed_cycle :: "string list \<Rightarrow> (string \<times> string) list \<Rightarrow> bool" where
  "forms_closed_cycle members es \<longleftrightarrow>
     (\<exists>cyc\<in>set (orderings (remdups members)). mset es = mset (zip cyc (rotate1 cyc)))"

text \<open>
  The pool and the member list that \<open>_generate_circular\<close> draws when called in the state
  \<open>r\<close>: the cycle size is the first draw, the members are sampled after it.
\<close>

definition circular_pool :: "string list \<Rightarrow> string list \<Rightarrow> rng \<Rightarrow> string list" where
  "circular_pool susp_ids normal_ids r =
     (if 3 + next_draw r mod 5 \<le> length susp_ids then susp_ids else normal_ids)"

definition circular_cycle :: "string list \<Rightarrow> string list \<Rightarrow> rng \<Rightarrow> string list" where
  "circular_cycle susp_ids normal_ids r =
     (let pool = circular_pool susp_ids normal_ids r
      in fst (sample_loop pool (length pool) 0 (min (3 + next_draw r mod 5) (length pool))
                (after_draws 1 r)))"

text \<open>The entities that end the run carrying a cluster label.\<close>

definition label_holders :: "string \<Rightarrow> EntityRecord list \<Rightarrow> string list" where
  "label_holders cluster_id ents = map e_id (filter (\<lambda>e. e_cluster_id e = Some cluster_id) ents)"

section \<open>Example data\<close>

text \<open>
  A small database and a fixed training outcome, used to run the definitions above on a
  concrete input: three entities, scored 0.9, 0.2 and exactly 0.5, and one alert left by an
  earlier run.
\<close>

definition ex_entity :: "string \<Rightarrow> string \<Rightarrow> string option \<Rightarrow> Entity" where
  "ex_entity eid etype cid =
     \<lparr>ent_id = eid, ent_entity_type = etype, ent_country = ''PA'', ent_is_suspicious = False,
      ent_cluster_id = cid, ent_risk_score = 0, ent_features_json = []\<rparr>"

definition ex_alert :: Alert where
  "ex_alert =
     \<lparr>al_id = ''0A1B2C3D'', al_entity_id = ''E0000002'', al_cluster_id = None, al_score = 0.8,
      al_narrative = ''stale'', al_shap_values_json = [], al_status = ''open'', al_created_at = 0\<rparr>"

definition ex_db :: db where
  "ex_db =
     \<lparr>entities = [ex_entity ''E0000001'' ''mule'' (Some ''CLU_CIRC_0000''),
                  ex_entity ''E0000002'' ''individual'' None,
                  ex_entity ''E0000003'' ''shell'' None],
      transactions = [], clusters = [], alerts = [ex_alert], model_runs = []\<rparr>"

definition ex_results :: train_results where
  "ex_results =
     \<lparr>res_metrics = \<lparr>gnn = [(''precision'', 1), (''recall'', 1), (''f1'', 1)], rule_based = [],
                      logistic_regression = [], pr_curve_precision = [], pr_curve_recall = []\<rparr>,
      res_node_scores = [''E0000001'' \<mapsto> 0.9, ''E0000002'' \<mapsto> 0.2, ''E0000003'' \<mapsto> 0.5],
      res_node_shap = Map.empty,
      res_feature_names = []\<rparr>"

definition ex_train :: train_fn where
  "ex_train ents txs mode seed = Inr ex_results"

definition ex_env :: env where
  "ex_env =
     \<lparr>uuid4_str = (\<lambda>k. if k = 0 then ''0f8fad5b-d9cb-469f-a165-70867728950e''
                        else ''7c9e6679-7425-40de-944b-e07fc1f90ae7''),
      utcnow = (\<lambda>k. int k)\<rparr>"

definition ex_empty_db :: db where
  "ex_empty_db = \<lparr>entities = [], transactions = [], clusters = [], alerts = [ex_alert], model_runs = []\<rparr>"


text \<open>
  Labels of a dataset of the demo size (1000 entities, 50 of them suspicious), and the
  draw that leaves an array in its order. Four labelled entities with a validation split
  \<open>[1, 3, 0]\<close>, and two parameter states named by the probabilities they predict:
  \<open>ex_good\<close> classifies every entity correctly, \<open>ex_bad\<close> does not.
\<close>

definition ex_labels :: "nat list" where
  "ex_labels = replicate 950 0 @ replicate 50 1"

definition ex_shuffle :: shuffle_fn where
  "ex_shuffle arr stratify rs = arr"

definition ex_good :: "real list" where
  "ex_good = [9 / 10, 1 / 10, 1 / 10, 9 / 10]"

definition ex_bad :: "real list" where
  "ex_bad = [1 / 10, 9 / 10, 1 / 10, 9 / 10]"

definition ex_step :: "nat \<Rightarrow> real list \<Rightarrow> real list" where
  "ex_step epoch m = (if epoch = 10 then ex_good else if epoch = 20 then ex_bad else m)"

text \<open>Three nodes with two features each, and the identity layer.\<close>

definition ex_x :: "real list list" where
  "ex_x = [[1, 2], [3, 4], [5, 6]]"

definition ex_lin :: Linear where
  "ex_lin = \<lparr>weight = [[1, 0], [0, 1]], bias = [0, 0]\<rparr>"

text \<open>
  Entities that take part in no transaction, named as the generator names them; two
  entities with one transfer between them, of 100 and of minus one half.
\<close>

definition plain_entity :: "string \<Rightarrow> EntityRecord" where
  "plain_entity eid =
     \<lparr>e_id = eid, e_entity_type = ''individual'', e_country = ''US'', e_is_suspicious = False,
      e_cluster_id = None, e_risk_score = 0, e_features = []\<rparr>"

definition isolated_entities :: "nat \<Rightarrow> EntityRecord list" where
  "isolated_entities n = map (\<lambda>i. plain_entity (entity_id_of i)) [0..<n]"

definition ex_pair :: "EntityRecord list" where
  "ex_pair = [plain_entity ''E0000000'', plain_entity ''E0000001'']"

definition ex_transfer :: "real \<Rightarrow> TransactionRecord" where
  "ex_transfer amount =
     \<lparr>t_id = ''T0000000000'', t_src = ''E0000000'', t_dst = ''E0000001'', t_amount = amount,
      t_timestamp = 0, t_channel = ''wire'', t_country = ''US'', t_risk_flags = [],
      t_is_suspicious = False\<rparr>"

text \<open>
  A state of the generators for a dataset of five entities and two circular clusters: every
  raw draw of \<open>random\<close> is 0 but the 36th and the 37th, which the second cycle uses to
  select its second and third member.
\<close>

definition ex_rng :: rng where
  "ex_rng = \<lparr>py_draws = (\<lambda>i. if i = 35 then 1 else if i = 36 then 2 else 0), py_pos = 0,
             np_draws = (\<lambda>i. 0), np_pos = 0\<rparr>"

section \<open>Properties\<close>

subsection \<open>The alert loop\<close>

lemma al_entity_id_make_alert [simp]:
  "al_entity_id (make_alert ev results cm k db_e) = ent_id db_e"
  by (simp add: make_alert_def Let_def)

lemma al_score_make_alert [simp]:
  "al_score (make_alert ev results cm k db_e) = ent_risk_score db_e"
  by (simp add: make_alert_def Let_def)

lemma make_alerts_entity_ids:
  "map al_entity_id (make_alerts ev results cm k rows) =
   map ent_id (filter (\<lambda>e. \<not> ent_risk_score e < threshold) rows)"
  by (induction rows arbitrary: k) simp_all

lemma make_alerts_count:
  "length (filter (\<lambda>a. al_entity_id a = x) (make_alerts ev results cm k rows)) =
   length (filter (\<lambda>e. ent_id e = x) (filter (\<lambda>e. \<not> ent_risk_score e < threshold) rows))"
  by (induction rows arbitrary: k) simp_all

lemma ent_id_update_entity [simp]: "ent_id (update_entity results e) = ent_id e"
  by (simp add: update_entity_def)

lemma run_train_Inr:
  assumes "run_train train ev d mode seed = (d', Inr r)"
  obtains results where
    "entities d \<noteq> []"
    "train (map entity_record_of (entities d)) (map transaction_record_of (transactions d)) mode seed = Inr results"
    "entities d' = map (update_entity results) (entities d)"
    "alerts d' = make_alerts ev results (cluster_map_of (map entity_record_of (entities d))) 0 (entities d')"
    "distinct (map al_id (alerts d'))"
    "transactions d' = transactions d"
  using assms
  by (auto simp: run_train_def Let_def split: if_splits sum.splits)

lemma count_distinct_filter:
  assumes "distinct (map f xs)" "x \<in> set xs"
  shows "length (filter (\<lambda>y. f y = f x) (filter P xs)) = (if P x then 1 else 0)"
proof -
  have inj: "inj_on f (set xs)" and dis: "distinct xs"
    using assms(1) by (simp_all add: distinct_map)
  have "{y. P y \<and> f y = f x} \<inter> set xs = (if P x then {x} else {})"
    using inj assms(2) by (auto dest: inj_onD)
  then show ?thesis
    using dis by (simp add: distinct_length_filter)
qed

lemma al_id_make_alert: "al_id (make_alert ev results cm k db_e) = upper (take 8 (uuid4_str ev k))"
  by (simp add: make_alert_def Let_def)

lemma ex_uuid_0: "upper (take 8 ''0f8fad5b-d9cb-469f-a165-70867728950e'') = ''0F8FAD5B''"
  by code_simp

lemma ex_uuid_1: "upper (take 8 ''7c9e6679-7425-40de-944b-e07fc1f90ae7'') = ''7C9E6679''"
  by code_simp

lemma ex_al_id_0: "al_id (make_alert ex_env r cm 0 e) = ''0F8FAD5B''"
  unfolding al_id_make_alert ex_env_def by (simp only: env.simps if_True refl ex_uuid_0)

lemma ex_al_id_1: "al_id (make_alert ex_env r cm (Suc 0) e) = ''7C9E6679''"
  unfolding al_id_make_alert ex_env_def by (simp only: env.simps nat.simps if_False ex_uuid_1)

lemma ex_run:
  "run_train ex_train ex_env ex_db ''demo'' 42 =
     (fst (run_train ex_train ex_env ex_db ''demo'' 42),
      Inr (projr (snd (run_train ex_train ex_env ex_db ''demo'' 42))))"
  by (simp add: run_train_def Let_def ex_train_def ex_db_def ex_entity_def ex_results_def
      update_entity_def get_or_def threshold_def ex_al_id_0 ex_al_id_1)


text \<open>
  C3. After a run of \<open>run_train\<close> that completes, on a database whose entity ids are
  pairwise distinct (the primary key of the table), every entity with risk score at least
  0.50 has exactly one alert referring to it and every entity with risk score below 0.50 has
  none; the alerts do not depend on the alerts present before the run, which are discarded.
\<close>

theorem run_train_alert_threshold:
  assumes run: "run_train train ev d mode seed = (d', Inr r)"
      and ids: "distinct (map ent_id (entities d))"
      and e: "e \<in> set (entities d')"
  shows "(1 / 2 \<le> ent_risk_score e \<longrightarrow>
            length (filter (\<lambda>a. al_entity_id a = ent_id e) (alerts d')) = 1) \<and>
         (ent_risk_score e < 1 / 2 \<longrightarrow>
            filter (\<lambda>a. al_entity_id a = ent_id e) (alerts d') = []) \<and>
         (\<forall>old. alerts (fst (run_train train ev (d\<lparr>alerts := old\<rparr>) mode seed)) = alerts d')"
proof -
  from run obtain results where
    ne: "entities d \<noteq> []" and
    tr: "train (map entity_record_of (entities d)) (map transaction_record_of (transactions d)) mode seed = Inr results" and
    ents: "entities d' = map (update_entity results) (entities d)" and
    als: "alerts d' = make_alerts ev results (cluster_map_of (map entity_record_of (entities d))) 0 (entities d')" and
    dis: "distinct (map al_id (alerts d'))"
    by (rule run_train_Inr)
  have d': "distinct (map ent_id (entities d'))"
    using ids by (simp add: ents comp_def)
  have "length (filter (\<lambda>a. al_entity_id a = ent_id e) (alerts d')) =
        length (filter (\<lambda>y. ent_id y = ent_id e)
                  (filter (\<lambda>e. \<not> ent_risk_score e < threshold) (entities d')))"
    by (subst als) (rule make_alerts_count)
  also have "\<dots> = (if \<not> ent_risk_score e < threshold then 1 else 0)"
    using d' e by (rule count_distinct_filter)
  finally have cnt: "length (filter (\<lambda>a. al_entity_id a = ent_id e) (alerts d')) =
        (if \<not> ent_risk_score e < threshold then 1 else 0)" .
  have old: "alerts (fst (run_train train ev (d\<lparr>alerts := old\<rparr>) mode seed)) = alerts d'" for old
    using ne tr dis als ents
    by (simp add: run_train_def Let_def)
  from cnt old show ?thesis by (auto simp: threshold_def)
qed

theorem run_train_alert_threshold_witness:
  "length (filter (\<lambda>a. al_entity_id a = ''E0000001'')
             (alerts (fst (run_train ex_train ex_env ex_db ''demo'' 42)))) = 1 \<and>
   filter (\<lambda>a. al_entity_id a = ''E0000002'')
             (alerts (fst (run_train ex_train ex_env ex_db ''demo'' 42))) = []"
proof -
  let ?d' = "fst (run_train ex_train ex_env ex_db ''demo'' 42)"
  have ids: "distinct (map ent_id (entities ex_db))"
    by (simp add: ex_db_def ex_entity_def)
  have ents: "entities ?d' = map (update_entity ex_results) (entities ex_db)"
    using ex_run by (auto elim!: run_train_Inr simp: ex_train_def)
  have e1: "update_entity ex_results (ex_entity ''E0000001'' ''mule'' (Some ''CLU_CIRC_0000'')) \<in> set (entities ?d')"
    and e2: "update_entity ex_results (ex_entity ''E0000002'' ''individual'' None) \<in> set (entities ?d')"
    unfolding ents by (simp_all add: ex_db_def)
  from run_train_alert_threshold [OF ex_run ids e1] run_train_alert_threshold [OF ex_run ids e2]
  show ?thesis
    by (simp add: update_entity_def ex_entity_def ex_results_def get_or_def)
qed


subsection \<open>The empty database\<close>


subsection \<open>The narrative of an alert\<close>

lemma contains_prefix: "contains p (p @ ys)"
proof (cases "p @ ys")
  case Nil
  then show ?thesis by simp
next
  case (Cons a l)
  have "take (length p) (p @ ys) = p" by simp
  then show ?thesis unfolding Cons by simp
qed

lemma contains_append: "contains p (xs @ p @ ys)"
proof (induction xs)
  case Nil
  show ?case using contains_prefix by simp
next
  case (Cons x xs)
  then show ?case by simp
qed

lemma strip_between:
  assumes "s \<noteq> []" "\<not> is_space (hd s)" "\<not> is_space c" "\<forall>w\<in>set ws. is_space w"
  shows "strip (s @ m @ [c] @ ws) = s @ m @ [c]"
proof -
  from assms(1,2) obtain a s' where s: "s = a # s'" and a: "\<not> is_space a"
    by (cases s) auto
  have front: "dropWhile is_space (s @ m @ [c] @ ws) = s @ m @ [c] @ ws"
    by (simp add: s a)
  have "dropWhile is_space (rev ws @ c # rev m @ rev s) = dropWhile is_space (c # rev m @ rev s)"
    using assms(4) by (intro dropWhile_append2) simp
  also have "\<dots> = c # rev m @ rev s"
    using assms(3) by simp
  finally show ?thesis
    unfolding strip_def front by simp
qed

lemma heavy_rule_hd: "heavy_rule \<noteq> [] \<and> \<not> is_space (hd heavy_rule)"
  by code_simp

lemma narrative_head_hd:
  "narrative_head i t c s \<noteq> [] \<and> \<not> is_space (hd (narrative_head i t c s))"
  using heavy_rule_hd by (simp add: narrative_head_def)

lemma narrative_footer_end: "narrative_footer = butlast narrative_footer @ [CHR ''e'']"
  by (simp add: narrative_footer_def)

lemma generate_narrative_head:
  "\<exists>rest. generate_narrative i t c s cid n p sh k = narrative_head i t c s @ rest"
proof -
  have sp: "\<not> is_space (CHR ''e'')" "\<forall>w\<in>set nl. is_space w"
    by (simp_all add: is_space_def nl_def)
  let ?m = "narrative_summary i t c s cid n p @ nl @ light_rule 2 @
            '' KEY RISK DRIVERS (SHAP Attributions) '' @ light_rule 11 @ nl @ nl @
            drivers_str sh k @ nl @ narrative_actions cid @ butlast narrative_footer"
  have "generate_narrative i t c s cid n p sh k =
        strip (narrative_head i t c s @ ?m @ [CHR ''e''] @ nl)"
    unfolding generate_narrative_def
    by (subst narrative_footer_end) (simp only: append_assoc)
  also have "\<dots> = narrative_head i t c s @ ?m @ [CHR ''e'']"
    using narrative_head_hd sp by (intro strip_between) auto
  finally show ?thesis by blast
qed

lemma risk_level_cases:
  "(risk_level s = ''HIGH'' \<longleftrightarrow> 3 / 4 < s) \<and>
   (risk_level s = ''MEDIUM'' \<longleftrightarrow> 1 / 2 < s \<and> s \<le> 3 / 4) \<and>
   (risk_level s = ''ELEVATED'' \<longleftrightarrow> s \<le> 1 / 2)"
  by (auto simp: risk_level_def)

lemma make_alerts_mem:
  "a \<in> set (make_alerts ev results cm k rows) \<Longrightarrow>
   \<exists>e\<in>set rows. \<exists>j. a = make_alert ev results cm j e \<and> \<not> ent_risk_score e < threshold"
  by (induction rows arbitrary: k) (auto split: if_splits)

lemma narrative_head_risk_level:
  "\<exists>pre post. narrative_head i t c s =
      pre @ (''RISK LEVEL:   '' @ risk_level s @ ''  (Tier '' @ risk_tier s) @ post"
proof -
  let ?pre = "heavy_rule @ nl @ ''SUSPICIOUS ACTIVITY REPORT '' @ em_dash @ '' CASE SUMMARY'' @ nl @
     heavy_rule @ nl @ nl @ ''ENTITY:       '' @ i @ nl @ ''TYPE:         '' @ upper t @ nl @
     ''JURISDICTION: '' @ c @ nl"
  let ?post = "'' '' @ em_dash @ '' Score: '' @ fmt_f 4 s @ '')'' @ nl"
  have "narrative_head i t c s =
      ?pre @ (''RISK LEVEL:   '' @ risk_level s @ ''  (Tier '' @ risk_tier s) @ ?post"
    unfolding narrative_head_def by (simp only: append_assoc)
  then show ?thesis by blast
qed

lemma al_narrative_make_alert:
  "\<exists>n p sh. al_narrative (make_alert ev results cm k e) =
     generate_narrative (ent_id e) (ent_entity_type e) (ent_country e) (ent_risk_score e)
       (ent_cluster_id e) n p sh 4"
  by (simp add: make_alert_def Let_def) blast

lemma al_narrative_risk_line:
  "\<exists>pre post. al_narrative (make_alert ev results cm k e) =
     pre @ (''RISK LEVEL:   '' @ risk_level (ent_risk_score e) @ ''  (Tier '' @
            risk_tier (ent_risk_score e)) @ post"
proof -
  obtain n p sh where "al_narrative (make_alert ev results cm k e) =
     generate_narrative (ent_id e) (ent_entity_type e) (ent_country e) (ent_risk_score e)
       (ent_cluster_id e) n p sh 4"
    using al_narrative_make_alert by blast
  moreover obtain rest where "generate_narrative (ent_id e) (ent_entity_type e) (ent_country e)
       (ent_risk_score e) (ent_cluster_id e) n p sh 4 =
       narrative_head (ent_id e) (ent_entity_type e) (ent_country e) (ent_risk_score e) @ rest"
    using generate_narrative_head by blast
  moreover obtain pre post where
    "narrative_head (ent_id e) (ent_entity_type e) (ent_country e) (ent_risk_score e) =
       pre @ (''RISK LEVEL:   '' @ risk_level (ent_risk_score e) @ ''  (Tier '' @
              risk_tier (ent_risk_score e)) @ post"
    using narrative_head_risk_level by blast
  ultimately have "al_narrative (make_alert ev results cm k e) =
     pre @ (''RISK LEVEL:   '' @ risk_level (ent_risk_score e) @ ''  (Tier '' @
            risk_tier (ent_risk_score e)) @ (post @ rest)"
    by simp
  then show ?thesis by blast
qed

lemma ex_alerts:
  "alerts (fst (run_train ex_train ex_env ex_db ''demo'' 42)) =
     [make_alert ex_env ex_results (cluster_map_of (map entity_record_of (entities ex_db))) 0
        (update_entity ex_results (ex_entity ''E0000001'' ''mule'' (Some ''CLU_CIRC_0000''))),
      make_alert ex_env ex_results (cluster_map_of (map entity_record_of (entities ex_db))) (Suc 0)
        (update_entity ex_results (ex_entity ''E0000003'' ''shell'' None))]"
proof -
  have "alerts (fst (run_train ex_train ex_env ex_db ''demo'' 42)) =
        make_alerts ex_env ex_results (cluster_map_of (map entity_record_of (entities ex_db))) 0
          (map (update_entity ex_results) (entities ex_db))"
    using ex_run by (auto elim!: run_train_Inr simp: ex_train_def)
  also have "\<dots> = [make_alert ex_env ex_results (cluster_map_of (map entity_record_of (entities ex_db))) 0
        (update_entity ex_results (ex_entity ''E0000001'' ''mule'' (Some ''CLU_CIRC_0000''))),
      make_alert ex_env ex_results (cluster_map_of (map entity_record_of (entities ex_db))) (Suc 0)
        (update_entity ex_results (ex_entity ''E0000003'' ''shell'' None))]"
    by (simp add: ex_db_def [THEN arg_cong, of entities] update_entity_def ex_entity_def
        ex_results_def get_or_def threshold_def)
  finally show ?thesis .
qed


text \<open>
  C4, as the code has it. Every alert that \<open>run_train\<close> creates has a score of at least
  0.50, and its narrative carries the line \<open>RISK LEVEL:\<close> with the level computed from that
  score: HIGH above 0.75, MEDIUM above 0.50 and up to 0.75, and ELEVATED exactly when the
  score is 0.50. The alert loop keeps a score equal to the threshold (it skips \<open>score <
  threshold\<close>) while the tier of the narrative asks for \<open>score > 0.50\<close>, so the ELEVATED
  branch is reached by an alerted entity at the score 0.50 and nowhere else.
\<close>

theorem alert_risk_level:
  assumes run: "run_train train ev d mode seed = (d', Inr r)"
      and a: "a \<in> set (alerts d')"
  shows "1 / 2 \<le> al_score a \<and>
         (\<exists>pre post. al_narrative a =
            pre @ (''RISK LEVEL:   '' @ risk_level (al_score a) @ ''  (Tier '' @
                   risk_tier (al_score a)) @ post) \<and>
         (risk_level (al_score a) = ''HIGH'' \<longleftrightarrow> 3 / 4 < al_score a) \<and>
         (risk_level (al_score a) = ''MEDIUM'' \<longleftrightarrow> 1 / 2 < al_score a \<and> al_score a \<le> 3 / 4) \<and>
         (risk_level (al_score a) = ''ELEVATED'' \<longleftrightarrow> al_score a = 1 / 2)"
proof -
  from run obtain results where
    als: "alerts d' = make_alerts ev results (cluster_map_of (map entity_record_of (entities d))) 0 (entities d')"
    by (rule run_train_Inr)
  from a obtain e j where
    ae: "a = make_alert ev results (cluster_map_of (map entity_record_of (entities d))) j e"
    and sc: "\<not> ent_risk_score e < threshold"
    unfolding als by (blast dest: make_alerts_mem)
  have s: "al_score a = ent_risk_score e" by (simp add: ae)
  have ge: "1 / 2 \<le> al_score a" using sc by (simp add: s threshold_def)
  have line: "\<exists>pre post. al_narrative a =
            pre @ (''RISK LEVEL:   '' @ risk_level (al_score a) @ ''  (Tier '' @
                   risk_tier (al_score a)) @ post"
    unfolding ae al_score_make_alert by (rule al_narrative_risk_line)
  from ge line risk_level_cases [of "al_score a"] show ?thesis by auto
qed

theorem alert_risk_level_witness:
  "al_score (alerts (fst (run_train ex_train ex_env ex_db ''demo'' 42)) ! 0) = 9 / 10 \<and>
   risk_level (al_score (alerts (fst (run_train ex_train ex_env ex_db ''demo'' 42)) ! 0)) = ''HIGH''"
proof -
  let ?d' = "fst (run_train ex_train ex_env ex_db ''demo'' 42)"
  have a: "alerts ?d' ! 0 \<in> set (alerts ?d')"
    by (simp add: ex_alerts)
  have s: "al_score (alerts ?d' ! 0) = 9 / 10"
    by (simp add: ex_alerts update_entity_def ex_entity_def ex_results_def get_or_def)
  have "risk_level (al_score (alerts ?d' ! 0)) = ''HIGH'' \<longleftrightarrow> 3 / 4 < al_score (alerts ?d' ! 0)"
    by (rule alert_risk_level [OF ex_run a, THEN conjunct2, THEN conjunct2, THEN conjunct1])
  with s show ?thesis by simp
qed


text \<open>
  The claim as stated fails: in the example run the entity \<open>E0000003\<close> is scored exactly
  0.50, is alerted, and the narrative of its alert reads \<open>RISK LEVEL: ELEVATED (Tier 3\<close>.
\<close>

theorem alert_elevated_counterexample:
  "\<not> isl (snd (run_train ex_train ex_env ex_db ''demo'' 42)) \<and>
   al_entity_id (alerts (fst (run_train ex_train ex_env ex_db ''demo'' 42)) ! 1) = ''E0000003'' \<and>
   al_score (alerts (fst (run_train ex_train ex_env ex_db ''demo'' 42)) ! 1) = 1 / 2 \<and>
   risk_level (al_score (alerts (fst (run_train ex_train ex_env ex_db ''demo'' 42)) ! 1)) = ''ELEVATED'' \<and>
   contains ''RISK LEVEL:   ELEVATED  (Tier 3''
     (al_narrative (alerts (fst (run_train ex_train ex_env ex_db ''demo'' 42)) ! 1))"
proof -
  let ?d' = "fst (run_train ex_train ex_env ex_db ''demo'' 42)"
  let ?e = "update_entity ex_results (ex_entity ''E0000003'' ''shell'' None)"
  have r: "\<not> isl (snd (run_train ex_train ex_env ex_db ''demo'' 42))"
    by (subst ex_run) simp
  have sc: "ent_risk_score ?e = 1 / 2"
    by (simp add: update_entity_def ex_entity_def ex_results_def get_or_def)
  have a1: "alerts ?d' ! 1 = make_alert ex_env ex_results
              (cluster_map_of (map entity_record_of (entities ex_db))) (Suc 0) ?e"
    by (simp add: ex_alerts)
  have i: "al_entity_id (alerts ?d' ! 1) = ''E0000003''"
    unfolding a1 by (simp add: ex_entity_def)
  have s: "al_score (alerts ?d' ! 1) = 1 / 2"
    unfolding a1 by (simp add: sc)
  have lv: "risk_level (1 / 2) = ''ELEVATED''" "risk_tier (1 / 2) = ''3''"
    by (simp_all add: risk_level_def risk_tier_def)
  obtain pre post where "al_narrative (alerts ?d' ! 1) =
      pre @ (''RISK LEVEL:   '' @ risk_level (1 / 2) @ ''  (Tier '' @ risk_tier (1 / 2)) @ post"
    unfolding a1 using al_narrative_risk_line [of ex_env ex_results _ "Suc 0" ?e] unfolding sc by blast
  then have "al_narrative (alerts ?d' ! 1) = pre @ ''RISK LEVEL:   ELEVATED  (Tier 3'' @ post"
    by (simp add: lv)
  then have c: "contains ''RISK LEVEL:   ELEVATED  (Tier 3'' (al_narrative (alerts ?d' ! 1))"
    using contains_append [of "''RISK LEVEL:   ELEVATED  (Tier 3''" pre post] by simp
  have l: "risk_level (al_score (alerts ?d' ! 1)) = ''ELEVATED''"
    unfolding s by (rule lv)
  from r i s l c show ?thesis by (intro conjI)
qed




subsection \<open>The train, validation and test split\<close>

lemma ebind_Inr_iff: "ebind m f = Inr y \<longleftrightarrow> (\<exists>x. m = Inr x \<and> f x = Inr y)"
  by (cases m) (simp_all add: ebind_def)

lemma ebind_Inr [simp]: "ebind (Inr x) f = f x"
  by (simp add: ebind_def)

lemma ebind_Inl [simp]: "ebind (Inl e) f = Inl e"
  by (simp add: ebind_def)

lemma train_test_split_Inr:
  assumes "train_test_split shuffle arr ts stratify rs = Inr (a, b)"
      and "length (shuffle arr stratify rs) = length arr"
  shows "length b = n_test_of ts (length arr)"
    and "length a = length arr - n_test_of ts (length arr)"
    and "a @ b = shuffle arr stratify rs"
    and "n_test_of ts (length arr) < length arr"
  using assms
  by (auto simp: train_test_split_def Let_def split: if_splits)

lemma n_test_bounds:
  "0.15 * real n \<le> real (n_test_of 0.15 n)" "real (n_test_of 0.15 n) < 0.15 * real n + 1"
proof -
  have nn: "0 \<le> \<lceil>0.15 * real n\<rceil>" by (simp add: ceiling_le_iff [symmetric] le_ceiling_iff)
  then have eq: "real (n_test_of 0.15 n) = of_int \<lceil>0.15 * real n\<rceil>"
    by (simp add: n_test_of_def)
  show "0.15 * real n \<le> real (n_test_of 0.15 n)" unfolding eq by (rule le_of_int_ceiling)
  show "real (n_test_of 0.15 n) < 0.15 * real n + 1"
    unfolding eq using ceiling_correct [of "0.15 * real n"] by linarith
qed

lemma train_val_test_split_Inr:
  assumes "train_val_test_split shuffle labels seed = Inr (idx_train, idx_val, idx_test)"
  obtains idx_tv labels_tv where
    "train_test_split shuffle [0..<length labels] 0.15 labels seed = Inr (idx_tv, idx_test)"
    "train_test_split shuffle idx_tv 0.15 labels_tv seed = Inr (idx_train, idx_val)"
  using assms
  by (auto simp: train_val_test_split_def Let_def ebind_Inr_iff)

lemma n_test_1000: "n_test_of 0.15 1000 = 150"
  by (simp add: n_test_of_def)

lemma n_test_850: "n_test_of 0.15 850 = 128"
proof -
  have "\<lceil>(0.15::real) * 850\<rceil> = 128"
    by (rule ceiling_unique) simp_all
  then show ?thesis by (simp add: n_test_of_def)
qed

lemma n_test_850_simp: "n_test_of (3 / 20) 850 = 128"
  using n_test_850 by simp

lemma n_test_1000_simp: "n_test_of (3 / 20) 1000 = 150"
  using n_test_1000 by simp

lemma count_list_replicate: "count_list (replicate n x) y = (if x = y then n else 0)"
  by (induction n) auto

lemma map_nth_upt_take: "k \<le> length xs \<Longrightarrow> map (\<lambda>i. xs ! i) [0..<k] = take k xs"
  by (rule nth_equalityI) simp_all

lemma ex_split_1:
  "train_test_split ex_shuffle [0..<1000] 0.15 ex_labels 42 = Inr ([0..<850], [850..<1000])"
proof -
  have s: "set ex_labels = {0, 1}" by (auto simp: ex_labels_def)
  have c: "count_list ex_labels 0 = 950" "count_list ex_labels (Suc 0) = 50"
    by (simp_all add: ex_labels_def count_list_replicate)
  have r: "length (remdups ex_labels) = 2"
    by (simp add: length_remdups_card_conv s)
  have l: "length ex_labels = 1000" by (simp add: ex_labels_def)
  show ?thesis
    by (simp add: train_test_split_def Let_def l n_test_1000_simp r s c ex_shuffle_def)
qed

lemma ex_labels_tv: "fancy_index ex_labels [0..<850] = Inr (replicate 850 0)"
proof -
  have "map (\<lambda>i. ex_labels ! i) [0..<850] = take 850 ex_labels"
    by (rule map_nth_upt_take) (simp add: ex_labels_def)
  also have "\<dots> = replicate 850 0" by (simp add: ex_labels_def)
  finally show ?thesis by (simp add: fancy_index_def ex_labels_def)
qed

lemma ex_split_2:
  "train_test_split ex_shuffle [0..<850] 0.15 (replicate 850 0) 42 = Inr ([0..<722], [722..<850])"
proof -
  have r: "length (remdups (replicate 850 (0::nat))) = 1"
    by (simp add: length_remdups_card_conv)
  show ?thesis
    by (simp add: train_test_split_def Let_def n_test_850_simp r count_list_replicate ex_shuffle_def)
qed

lemma ex_split: "train_val_test_split ex_shuffle ex_labels 42 = Inr ([0..<722], [722..<850], [850..<1000])"
proof -
  have l: "length ex_labels = 1000" by (simp add: ex_labels_def)
  show ?thesis
    unfolding train_val_test_split_def Let_def l ex_split_1 ebind_Inr prod.case ex_labels_tv ex_split_2
    by (rule refl)
qed







subsection \<open>The validation step of the training loop\<close>

lemma ex_validation:
  "validation_metrics [1, 0, 0, 1] [1, 3, 0] [9 / 10, 1 / 10, 1 / 10, 9 / 10] =
     Inr [(''precision'', 1 / 2), (''recall'', 1 / 2), (''f1'', 1 / 2), (''roc_auc'', 1)]"
  by (simp add: validation_metrics_def mask_def bool_index_def fancy_index_def threshold_preds_def
      compute_classification_metrics_def precision_score_def recall_score_def f1_score_def
      roc_auc_score_def ratio0_def true_pos_def false_pos_def false_neg_def count_pairs_def Let_def)

lemma ex_validation_good:
  "validation_metrics [1, 0, 0, 1] [1, 3, 0] ex_good =
     Inr [(''precision'', 1 / 2), (''recall'', 1 / 2), (''f1'', 1 / 2), (''roc_auc'', 1)]"
  unfolding ex_good_def by (rule ex_validation)

lemma ex_validation_bad:
  "validation_metrics [1, 0, 0, 1] [1, 3, 0] ex_bad =
     Inr [(''precision'', 1), (''recall'', 1), (''f1'', 1), (''roc_auc'', 1 / 4)]"
  by (simp add: ex_bad_def validation_metrics_def mask_def bool_index_def fancy_index_def threshold_preds_def
      compute_classification_metrics_def precision_score_def recall_score_def f1_score_def
      roc_auc_score_def ratio0_def true_pos_def false_pos_def false_neg_def count_pairs_def Let_def)

lemma ex_epoch_plain:
  "epoch mod 10 \<noteq> 0 \<Longrightarrow> epoch_body ex_step (\<lambda>m. m) ls iv epoch st = Inr (st\<lparr>model := model st\<rparr>)"
  by (auto simp: epoch_body_def ex_step_def Let_def)

lemma ex_fit:
  "fit_model ex_step (\<lambda>m. m) [1, 0, 0, 1] [1, 3, 0] 20 [] = Inr ex_bad"
proof -
  have u: "[1..<20 + 1] = [1, 2, 3, 4, 5, 6, 7, 8, 9, 10, 11, 12, 13, 14, 15, 16, 17, 18, 19, 20::nat]"
    by (simp add: upt_rec)
  have e10: "epoch_body ex_step (\<lambda>m. m) [1, 0, 0, 1] [1, 3, 0] 10
               \<lparr>model = [], best_val_f1 = - 1, best_state = None\<rparr> =
             Inr \<lparr>model = ex_good, best_val_f1 = 1 / 2, best_state = Some ex_good\<rparr>"
    unfolding epoch_body_def Let_def by (simp add: ex_step_def ex_validation_good del: One_nat_def)
  have e20: "epoch_body ex_step (\<lambda>m. m) [1, 0, 0, 1] [1, 3, 0] 20
               \<lparr>model = ex_good, best_val_f1 = 1 / 2, best_state = Some ex_good\<rparr> =
             Inr \<lparr>model = ex_bad, best_val_f1 = 1, best_state = Some ex_bad\<rparr>"
    unfolding epoch_body_def Let_def by (simp add: ex_step_def ex_validation_bad del: One_nat_def)
  show ?thesis
    unfolding fit_model_def u
    by (simp add: ex_epoch_plain e10 e20 del: One_nat_def)
qed

text \<open>
  C1 at a failing input. With the labels \<open>[1, 0, 0, 1]\<close> and the validation split
  \<open>[1, 3, 0]\<close> (a split comes out of the library in shuffled order), the code takes the
  predictions through the boolean mask, so in the order 0, 1, 3, and the labels in the
  order 1, 3, 0: it compares the prediction of one entity with the label of another. The
  parameters \<open>ex_good\<close>, right on every validation entity (validation F1 1), are scored
  0.5; the parameters \<open>ex_bad\<close>, whose validation F1 is 0.5, are scored 1. A run of 20
  epochs that passes through \<open>ex_good\<close> at epoch 10 and \<open>ex_bad\<close> at epoch 20 therefore
  retains and restores \<open>ex_bad\<close>, the snapshot with the lower validation F1.
\<close>

theorem validation_f1_misaligned:
  "map_sum id (\<lambda>vm. map_of vm ''f1'') (validation_metrics [1, 0, 0, 1] [1, 3, 0] ex_good) =
     Inr (Some (1 / 2)) \<and>
   aligned_validation_f1 [1, 0, 0, 1] [1, 3, 0] ex_good = 1 \<and>
   map_sum id (\<lambda>vm. map_of vm ''f1'') (validation_metrics [1, 0, 0, 1] [1, 3, 0] ex_bad) =
     Inr (Some 1) \<and>
   aligned_validation_f1 [1, 0, 0, 1] [1, 3, 0] ex_bad = 1 / 2 \<and>
   fit_model ex_step (\<lambda>m. m) [1, 0, 0, 1] [1, 3, 0] 20 [] = Inr ex_bad"
  unfolding ex_validation_good ex_validation_bad ex_fit
  by (simp add: ex_good_def ex_bad_def aligned_validation_f1_def threshold_preds_def f1_score_def
      ratio0_def true_pos_def false_pos_def false_neg_def count_pairs_def)

subsection \<open>The fallback GraphSAGE layer\<close>

lemma length_scatter_add_rows [simp]:
  "length (scatter_add_rows es x agg) = length agg"
  unfolding scatter_add_rows_def by (induction es arbitrary: agg) (auto split: prod.splits)

lemma length_scatter_add_ones [simp]:
  "length (scatter_add_ones es c) = length c"
  unfolding scatter_add_ones_def by (induction es arbitrary: c) (auto split: prod.splits)

lemma scatter_add_ones_nth:
  "v < length c \<Longrightarrow>
   scatter_add_ones es c ! v = c ! v + real (length (in_neighbors es v))"
proof (induction es arbitrary: c)
  case Nil
  then show ?case by (simp add: scatter_add_ones_def in_neighbors_def)
next
  case (Cons e es)
  obtain s t where e: "e = (s, t)" by (cases e)
  have "scatter_add_ones (e # es) c = scatter_add_ones es (c[t := c ! t + 1])"
    by (simp add: scatter_add_ones_def e)
  also have "\<dots> ! v = (c[t := c ! t + 1]) ! v + real (length (in_neighbors es v))"
    using Cons.prems by (intro Cons.IH) simp
  finally show ?case
    using Cons.prems by (auto simp: in_neighbors_def e nth_list_update)
qed

lemma scatter_add_rows_nth:
  assumes "v < length agg" "length (agg ! v) = d" "\<forall>(s, t)\<in>set es. length (x ! s) = d" "j < d"
  shows "scatter_add_rows es x agg ! v ! j =
         agg ! v ! j + sum_list (map (\<lambda>s. x ! s ! j) (in_neighbors es v)) \<and>
         length (scatter_add_rows es x agg ! v) = d"
  using assms
proof (induction es arbitrary: agg)
  case Nil
  then show ?case by (simp add: scatter_add_rows_def in_neighbors_def)
next
  case (Cons e es)
  obtain s t where e: "e = (s, t)" by (cases e)
  let ?agg = "agg[t := vec_add (agg ! t) (x ! s)]"
  have xs: "length (x ! s) = d" using Cons.prems(3) by (simp add: e)
  have step: "scatter_add_rows (e # es) x agg = scatter_add_rows es x ?agg"
    by (simp add: scatter_add_rows_def e)
  have lv: "length (?agg ! v) = d"
    using Cons.prems(1,2) xs by (cases "t = v") (simp_all add: vec_add_def)
  have ih: "scatter_add_rows es x ?agg ! v ! j =
         ?agg ! v ! j + sum_list (map (\<lambda>s. x ! s ! j) (in_neighbors es v)) \<and>
         length (scatter_add_rows es x ?agg ! v) = d"
    using Cons.prems(1,3,4) lv by (intro Cons.IH) simp_all
  have "?agg ! v ! j = agg ! v ! j + (if t = v then x ! s ! j else 0)"
    using Cons.prems(1,2,4) xs by (cases "t = v") (simp_all add: vec_add_def)
  with ih show ?case
    unfolding step by (auto simp: in_neighbors_def e)
qed

lemma mean_in_zero:
  "in_neighbors edge_index v = [] \<Longrightarrow> mean_in x d edge_index v = replicate d 0"
  by (simp add: mean_in_def map_replicate_const)

lemma sage_agg_row:
  assumes shape: "\<forall>row\<in>set x. length row = d"
      and edges: "\<forall>(src, dst)\<in>set edge_index. src < length x \<and> dst < length x"
      and v: "v < length x"
  shows "map (\<lambda>a. a / (scatter_add_ones edge_index (replicate (length x) 0) ! v + sage_eps))
           (scatter_add_rows edge_index x (replicate (length x) (replicate d 0)) ! v) =
         mean_in x d edge_index v"
proof (rule nth_equalityI)
  let ?agg0 = "replicate (length x) (replicate d (0::real))"
  have xs: "\<forall>(s, t)\<in>set edge_index. length (x ! s) = d"
    using shape edges by (auto simp: all_set_conv_all_nth)
  have row: "scatter_add_rows edge_index x ?agg0 ! v ! j =
         ?agg0 ! v ! j + sum_list (map (\<lambda>s. x ! s ! j) (in_neighbors edge_index v)) \<and>
         length (scatter_add_rows edge_index x ?agg0 ! v) = d" if "j < d" for j
    using v xs that by (intro scatter_add_rows_nth) simp_all
  have len: "length (scatter_add_rows edge_index x ?agg0 ! v) = d"
  proof (cases d)
    case 0
    have "\<forall>(s, t)\<in>set edge_index. length (x ! s) = 0" using xs 0 by simp
    then have "length (scatter_add_rows es' x a ! v) = 0"
      if "set es' \<subseteq> set edge_index" "v < length a" "length (a ! v) = 0" for es' a
      using that
    proof (induction es' arbitrary: a)
      case Nil
      then show ?case by (simp add: scatter_add_rows_def)
    next
      case (Cons e es')
      obtain s t where e: "e = (s, t)" by (cases e)
      have "scatter_add_rows (e # es') x a = scatter_add_rows es' x (a[t := vec_add (a ! t) (x ! s)])"
        by (simp add: scatter_add_rows_def e)
      moreover have "length ((a[t := vec_add (a ! t) (x ! s)]) ! v) = 0"
        using Cons.prems by (cases "t = v") (simp_all add: vec_add_def)
      ultimately show ?case using Cons by simp
    qed
    from this [of edge_index ?agg0] v 0 show ?thesis by simp
  next
    case (Suc d')
    then have "0 < d" by simp
    from row [OF this] show ?thesis by simp
  qed
  show "length (map (\<lambda>a. a / (scatter_add_ones edge_index (replicate (length x) 0) ! v + sage_eps))
           (scatter_add_rows edge_index x ?agg0 ! v)) = length (mean_in x d edge_index v)"
    by (simp add: len mean_in_def)
  fix j
  assume "j < length (map (\<lambda>a. a / (scatter_add_ones edge_index (replicate (length x) 0) ! v + sage_eps))
           (scatter_add_rows edge_index x ?agg0 ! v))"
  then have j: "j < d" by (simp add: len)
  have c: "scatter_add_ones edge_index (replicate (length x) 0) ! v =
           real (length (in_neighbors edge_index v))"
    using v by (simp add: scatter_add_ones_nth)
  show "map (\<lambda>a. a / (scatter_add_ones edge_index (replicate (length x) 0) ! v + sage_eps))
           (scatter_add_rows edge_index x ?agg0 ! v) ! j = mean_in x d edge_index v ! j"
    using j v row [OF j] by (simp add: len c mean_in_def)
qed


text \<open>
  C7. For a feature matrix of shape \<open>(n, d)\<close> and an edge list whose indices are nodes,
  \<open>_sage\<close> returns for every node \<open>v\<close> the concatenation of the self transform of the
  input vector of \<open>v\<close> and the neighbour transform of the sum of the input vectors of the
  in-neighbours of \<open>v\<close> (one term per incoming edge) divided by the in-degree plus
  epsilon; a node with no incoming edge aggregates the zero vector. The edge list may be
  empty.
\<close>

theorem sage_layer:
  assumes shape: "\<forall>row\<in>set x. length row = d"
      and edges: "\<forall>(src, dst)\<in>set edge_index. src < length x \<and> dst < length x"
  shows "sage lin_self lin_neigh x edge_index =
           Inr (map (\<lambda>v. linear lin_self (x ! v) @ linear lin_neigh (mean_in x d edge_index v))
                  [0..<length x]) \<and>
         (\<forall>v<length x. in_neighbors edge_index v = [] \<longrightarrow>
            mean_in x d edge_index v = replicate d 0)"
proof -
  let ?n = "length x"
  let ?d = "if x = [] then 0 else length (hd x)"
  have d: "x \<noteq> [] \<Longrightarrow> ?d = d" using shape by (cases x) auto
  have ok: "\<not> (\<exists>(src, dst)\<in>set edge_index. ?n \<le> src \<or> ?n \<le> dst)"
    using edges by (auto simp: not_le)
  let ?agg = "scatter_add_rows edge_index x (replicate ?n (replicate ?d 0))"
  let ?counts = "scatter_add_ones edge_index (replicate ?n 0)"
  let ?agg' = "map2 (\<lambda>row c. map (\<lambda>a. a / (c + sage_eps)) row) ?agg ?counts"
  have run: "sage lin_self lin_neigh x edge_index =
        Inr (map2 (\<lambda>xv av. linear lin_self xv @ linear lin_neigh av) x ?agg')"
    using ok unfolding sage_def Let_def by (simp only: if_False)
  have "map2 (\<lambda>xv av. linear lin_self xv @ linear lin_neigh av) x ?agg' =
        map (\<lambda>v. linear lin_self (x ! v) @ linear lin_neigh (mean_in x d edge_index v)) [0..<?n]"
  proof (rule nth_equalityI)
    show "length (map2 (\<lambda>xv av. linear lin_self xv @ linear lin_neigh av) x ?agg') =
          length (map (\<lambda>v. linear lin_self (x ! v) @ linear lin_neigh (mean_in x d edge_index v)) [0..<?n])"
      by simp
  next
    fix v
    assume "v < length (map2 (\<lambda>xv av. linear lin_self xv @ linear lin_neigh av) x ?agg')"
    then have v: "v < ?n" by simp
    then have ne: "x \<noteq> []" by auto
    have "?agg' ! v = map (\<lambda>a. a / (?counts ! v + sage_eps)) (?agg ! v)"
      using v by simp
    also have "\<dots> = mean_in x d edge_index v"
      unfolding d [OF ne] using shape edges v by (rule sage_agg_row)
    finally have "?agg' ! v = mean_in x d edge_index v" .
    then show "map2 (\<lambda>xv av. linear lin_self xv @ linear lin_neigh av) x ?agg' ! v =
         map (\<lambda>v. linear lin_self (x ! v) @ linear lin_neigh (mean_in x d edge_index v)) [0..<?n] ! v"
      using v by simp
  qed
  with run show ?thesis by (simp add: mean_in_zero)
qed

theorem sage_layer_witness:
  "sage ex_lin ex_lin ex_x [(0, 1), (2, 1)] =
     Inr (map (\<lambda>v. linear ex_lin (ex_x ! v) @ linear ex_lin (mean_in ex_x 2 [(0, 1), (2, 1)] v))
            [0..<length ex_x]) \<and>
   mean_in ex_x 2 [(0, 1), (2, 1)] 0 = replicate 2 0 \<and>
   sage ex_lin ex_lin ex_x [] =
     Inr (map (\<lambda>v. linear ex_lin (ex_x ! v) @ linear ex_lin (mean_in ex_x 2 [] v))
            [0..<length ex_x]) \<and>
   mean_in ex_x 2 [] 1 = replicate 2 0"
proof -
  have shape: "\<forall>row\<in>set ex_x. length row = 2"
    by (simp add: ex_x_def)
  have e1: "\<forall>(src, dst)\<in>set [(0, 1), (2, 1)]. src < length ex_x \<and> dst < length ex_x"
    by (simp add: ex_x_def)
  have e2: "\<forall>(src, dst)\<in>set []. src < length ex_x \<and> dst < length ex_x"
    by simp
  have n0: "in_neighbors [(0, 1), (2, 1)] 0 = []" "(0::nat) < length ex_x"
    by (simp_all add: in_neighbors_def ex_x_def)
  have n1: "in_neighbors [] 1 = []" "(1::nat) < length ex_x"
    by (simp_all add: in_neighbors_def ex_x_def)
  from sage_layer [OF shape e1, of ex_lin ex_lin] sage_layer [OF shape e2, of ex_lin ex_lin] n0 n1
  show ?thesis by blast
qed

subsection \<open>The feature matrix\<close>

lemma emap_Inr:
  "emap f xs = Inr ys \<Longrightarrow> list_all2 (\<lambda>x y. f x = Inr y) xs ys"
proof (induction xs arbitrary: ys)
  case Nil
  then show ?case by simp
next
  case (Cons x xs)
  then show ?case by (auto simp: ebind_Inr_iff)
qed

lemma emap_all_Inr:
  "(\<And>x. x \<in> set xs \<Longrightarrow> \<exists>y. f x = Inr y) \<Longrightarrow> \<exists>ys. emap f xs = Inr ys"
proof (induction xs)
  case Nil
  then show ?case by simp
next
  case (Cons x xs)
  then obtain y ys where "f x = Inr y" "emap f xs = Inr ys"
    by (metis list.set_intros)
  then show ?case by simp
qed

lemma is_finite_nan_to_num [simp]: "is_finite (nan_to_num v)"
  by (cases v) simp_all

lemma feature_row_length:
  "feature_row dc idc e a eid = Inr row \<Longrightarrow> length row = 18"
  by (auto simp: feature_row_def Let_def split: if_splits)

lemma compute_node_features_Inr:
  assumes "compute_node_features G ents txs = Inr (feat, eids, names)"
  obtains dc idc rows where
    "centralities G = Inr (dc, idc)"
    "list_all2 (\<lambda>eid row. feature_row dc idc (the (entity_lookup ents eid))
                   (the (accumulate (map e_id ents) txs eid)) eid = Inr row) (map e_id ents) rows"
    "feat = \<lparr>shape = (if rows = [] then [0] else [length rows, length (hd rows)]),
             data = map (map nan_to_num) rows\<rparr>"
    "eids = map e_id ents" "names = feature_names"
proof -
  from assms obtain dc idc rows where
    c: "centralities G = Inr (dc, idc)" and
    r: "emap (\<lambda>eid. feature_row dc idc (the (entity_lookup ents eid))
                   (the (accumulate (map e_id ents) txs eid)) eid) (map e_id ents) = Inr rows" and
    f: "feat = (np_array rows)\<lparr>data := map (map nan_to_num) (data (np_array rows))\<rparr>"
       "eids = map e_id ents" "names = feature_names"
    by (auto simp: compute_node_features_def Let_def ebind_Inr_iff)
  from f(1) have "feat = \<lparr>shape = (if rows = [] then [0] else [length rows, length (hd rows)]),
             data = map (map nan_to_num) rows\<rparr>"
    by (simp add: np_array_def)
  then show ?thesis
    using c emap_Inr [OF r] f(2,3) by (intro that)
qed

lemma compute_node_features_shape:
  assumes "compute_node_features G ents txs = Inr (feat, eids, names)"
  shows "length (data feat) = length ents"
    and "\<forall>row\<in>set (data feat). length row = 18 \<and> (\<forall>v\<in>set row. is_finite v)"
    and "ents \<noteq> [] \<Longrightarrow> shape feat = [length ents, 18]"
    and "ents = [] \<Longrightarrow> shape feat = [0]"
    and "length names = 18"
proof -
  from assms obtain dc idc rows where
    r: "list_all2 (\<lambda>eid row. feature_row dc idc (the (entity_lookup ents eid))
                   (the (accumulate (map e_id ents) txs eid)) eid = Inr row) (map e_id ents) rows" and
    f: "feat = \<lparr>shape = (if rows = [] then [0] else [length rows, length (hd rows)]),
             data = map (map nan_to_num) rows\<rparr>" and
    n: "names = feature_names"
    by (rule compute_node_features_Inr)
  have len: "length rows = length ents"
    using r by (auto dest: list_all2_lengthD)
  have rows18: "\<forall>row\<in>set rows. length row = 18"
  proof
    fix row assume "row \<in> set rows"
    then obtain i where i: "i < length rows" "row = rows ! i"
      by (auto simp: in_set_conv_nth)
    from r i have "feature_row dc idc (the (entity_lookup ents (map e_id ents ! i)))
                   (the (accumulate (map e_id ents) txs (map e_id ents ! i))) (map e_id ents ! i) = Inr row"
      by (simp add: list_all2_conv_all_nth)
    then show "length row = 18" by (rule feature_row_length)
  qed
  show "length (data feat) = length ents" by (simp add: f len)
  show "\<forall>row\<in>set (data feat). length row = 18 \<and> (\<forall>v\<in>set row. is_finite v)"
    using rows18 by (auto simp: f)
  show "shape feat = [length ents, 18]" if "ents \<noteq> []"
  proof -
    from that len have "rows \<noteq> []" by auto
    then have "hd rows \<in> set rows" by simp
    with rows18 have "length (hd rows) = 18" by blast
    with \<open>rows \<noteq> []\<close> show ?thesis by (simp add: f len)
  qed
  show "shape feat = [0]" if "ents = []"
    using that len by (simp add: f)
  show "length names = 18" by (simp add: n feature_names_def)
qed

lemma acc_tx_nonneg:
  assumes "0 \<le> t_amount tx" "\<forall>eid a. acc eid = Some a \<longrightarrow> amounts_nonneg a"
  shows "\<forall>eid a. acc_tx tx acc eid = Some a \<longrightarrow> amounts_nonneg a"
  using assms
  by (auto simp: acc_tx_def Let_def acc_out_def acc_in_def amounts_nonneg_def
           split: option.splits if_splits)

lemma acc_tx_dom: "dom (acc_tx tx acc) = dom acc"
  by (auto simp: acc_tx_def Let_def split: option.splits if_splits)

lemma fold_acc_tx_nonneg:
  assumes "\<forall>tx\<in>set txs. 0 \<le> t_amount tx" "\<forall>eid a. acc eid = Some a \<longrightarrow> amounts_nonneg a"
  shows "\<forall>eid a. fold acc_tx txs acc eid = Some a \<longrightarrow> amounts_nonneg a"
  using assms
proof (induction txs arbitrary: acc)
  case Nil
  then show ?case by simp
next
  case (Cons tx txs)
  have "\<forall>eid a. acc_tx tx acc eid = Some a \<longrightarrow> amounts_nonneg a"
    using Cons.prems by (intro acc_tx_nonneg) simp_all
  then show ?case
    using Cons.prems(1) by (simp add: Cons.IH)
qed

lemma fold_acc_tx_dom: "dom (fold acc_tx txs acc) = dom acc"
  by (induction txs arbitrary: acc) (simp_all add: acc_tx_dom)

lemma accumulate_Some:
  assumes "eid \<in> set eids"
  obtains a where "accumulate eids txs eid = Some a"
proof -
  have "dom (accumulate eids txs) = set eids"
    unfolding accumulate_def fold_acc_tx_dom by (auto split: if_splits)
  with assms show ?thesis using that by blast
qed

lemma accumulate_nonneg:
  assumes "\<forall>tx\<in>set txs. 0 \<le> t_amount tx" "accumulate eids txs eid = Some a"
  shows "amounts_nonneg a"
proof -
  have "\<forall>eid a. fold acc_tx txs (\<lambda>eid. if eid \<in> set eids then Some empty_acc else None) eid = Some a
          \<longrightarrow> amounts_nonneg a"
    using assms(1)
    by (intro fold_acc_tx_nonneg) (auto simp: amounts_nonneg_def empty_acc_def split: if_splits)
  with assms(2) show ?thesis by (simp add: accumulate_def)
qed

lemma nan_to_num_log1p:
  "0 \<le> x \<Longrightarrow> \<exists>r. nan_to_num (np_log1p x) = Fin r \<and> 0 \<le> r"
  by (simp add: np_log1p_def)

lemma fold_max_ge: "(a::real) \<le> fold max xs a"
proof (induction xs arbitrary: a)
  case Nil
  show ?case by simp
next
  case (Cons x xs)
  have "a \<le> max x a" by simp
  also have "\<dots> \<le> fold max xs (max x a)" by (rule Cons.IH)
  finally show ?case by simp
qed

lemma max_list_nonneg: "xs \<noteq> [] \<Longrightarrow> \<forall>x\<in>set xs. 0 \<le> x \<Longrightarrow> 0 \<le> max_list xs"
proof -
  assume "xs \<noteq> []" "\<forall>x\<in>set xs. 0 \<le> x"
  then have "0 \<le> hd xs" by simp
  also have "hd xs \<le> fold max (tl xs) (hd xs)" by (rule fold_max_ge)
  finally show ?thesis by (simp add: max_list_def)
qed

lemma np_mean_nonneg: "\<forall>x\<in>set xs. 0 \<le> x \<Longrightarrow> 0 \<le> np_mean xs"
  by (simp add: np_mean_def sum_list_nonneg)

lemma np_std_nonneg: "0 \<le> np_std xs"
  unfolding np_std_def by (intro real_sqrt_ge_zero np_mean_nonneg) simp

lemma np_diff_sorted_nonneg:
  assumes "sorted xs"
  shows "\<forall>d\<in>set (np_diff xs). 0 \<le> d"
proof
  fix d assume "d \<in> set (np_diff xs)"
  then obtain a b where ab: "(a, b) \<in> set (zip xs (tl xs))" "d = b - a"
    by (auto simp: np_diff_def)
  then obtain i where i: "i < length xs" "i < length (tl xs)" "xs ! i = a" "tl xs ! i = b"
    by (auto simp: in_set_zip)
  then have "b = xs ! Suc i" by (simp add: nth_tl)
  moreover have "xs ! i \<le> xs ! Suc i"
    using assms i by (intro sorted_nth_mono) simp_all
  ultimately show "0 \<le> d" using i ab by simp
qed

lemma burstiness_nonneg: "\<exists>b. burstiness_of tss = Fin b \<and> 0 \<le> b"
proof (cases "3 \<le> length (sort tss)")
  case False
  then show ?thesis by (simp add: burstiness_of_def Let_def)
next
  case True
  let ?ts = "sort tss"
  let ?xs = "map (\<lambda>t. total_seconds (t - hd ?ts)) ?ts"
  have "sorted ?xs"
    unfolding sorted_map
    by (rule sorted_wrt_mono_rel [of _ "(\<le>)"]) (auto simp: total_seconds_def divide_right_mono)
  then have d: "\<forall>d\<in>set (np_diff ?xs). 0 \<le> d" by (rule np_diff_sorted_nonneg)
  then have m: "0 \<le> np_mean (np_diff ?xs)" by (rule np_mean_nonneg)
  then have ne: "np_mean (np_diff ?xs) + 1 / 10 ^ 9 \<noteq> 0"
    by (smt (verit) divide_pos_pos zero_less_one zero_less_power zero_less_numeral)
  have "0 \<le> np_std (np_diff ?xs) / (np_mean (np_diff ?xs) + 1 / 10 ^ 9)"
    using np_std_nonneg m by (intro divide_nonneg_nonneg) simp_all
  with True ne show ?thesis
    by (simp add: burstiness_of_def Let_def np_div_def)
qed

lemma nan_to_num_burstiness:
  "\<exists>r. nan_to_num (py_min (burstiness_of tss) 10) = Fin r \<and> 0 \<le> r"
proof -
  obtain b where "burstiness_of tss = Fin b" "0 \<le> b"
    using burstiness_nonneg by blast
  then show ?thesis by simp
qed

lemma centralities_nonneg:
  assumes "centralities G = Inr (dc, idc)"
  shows "(\<forall>v r. dc v = Some r \<longrightarrow> 0 \<le> r) \<and> (\<forall>v r. idc v = Some r \<longrightarrow> 0 \<le> r)"
proof (cases "length (nodes G) \<le> 8000")
  case True
  with assms have "dc = degree_centrality G" "idc = in_degree_centrality G"
    by (simp_all add: centralities_def Let_def)
  then show ?thesis
    by (auto simp: degree_centrality_def in_degree_centrality_def split: if_splits)
next
  case False
  with assms show ?thesis
    by (auto simp: centralities_def Let_def split: if_splits)
qed

lemma get_or_nonneg:
  "\<forall>v r. m v = Some r \<longrightarrow> 0 \<le> r \<Longrightarrow> (0::real) \<le> get_or m k 0"
  by (auto simp: get_or_def split: option.splits)

lemma feature_row_nonneg:
  assumes row: "feature_row dc idc e a eid = Inr row"
      and a: "amounts_nonneg a"
      and dc: "\<forall>v r. dc v = Some r \<longrightarrow> 0 \<le> r"
      and idc: "\<forall>v r. idc v = Some r \<longrightarrow> 0 \<le> r"
  shows "\<forall>v\<in>set row. \<exists>r. nan_to_num v = Fin r \<and> 0 \<le> r"
proof -
  let ?oa = "out_amounts a" and ?ia = "in_amounts a"
  have oa: "\<forall>x\<in>set ?oa. 0 \<le> x" and ia: "\<forall>x\<in>set ?ia. 0 \<le> x"
    using a by (auto simp: amounts_nonneg_def)
  have ts: "0 \<le> sum_list ?oa" and tr: "0 \<le> sum_list ?ia"
    using oa ia by (simp_all add: sum_list_nonneg)
  have avs: "0 \<le> (if ?oa \<noteq> [] then np_mean ?oa else 0)"
    and avr: "0 \<le> (if ?ia \<noteq> [] then np_mean ?ia else 0)"
    using oa ia by (simp_all add: np_mean_nonneg)
  have mxs: "0 \<le> (if ?oa \<noteq> [] then max_list ?oa else 0)"
    and mxr: "0 \<le> (if ?ia \<noteq> [] then max_list ?ia else 0)"
    using oa ia by (simp_all add: max_list_nonneg)
  have ratio: "0 \<le> sum_list ?ia / (sum_list ?oa + 1 / 10 ^ 9)"
    using ts tr by (intro divide_nonneg_nonneg) simp_all
  note l = nan_to_num_log1p
  from row have r: "row =
     [np_log1p (sum_list ?oa), np_log1p (sum_list ?ia),
      np_log1p (real (length ?oa)), np_log1p (real (length ?ia)),
      np_log1p (if ?oa \<noteq> [] then np_mean ?oa else 0), np_log1p (if ?ia \<noteq> [] then np_mean ?ia else 0),
      np_log1p (if ?oa \<noteq> [] then max_list ?oa else 0), np_log1p (if ?ia \<noteq> [] then max_list ?ia else 0),
      np_log1p (sum_list ?ia / (sum_list ?oa + 1 / 10 ^ 9)),
      Fin (real (length (List.union (out_countries a) (in_countries a)))),
      Fin (real (length (List.union (out_channels a) (in_channels a)))),
      np_log1p (real (length (counterparts a))),
      py_min (burstiness_of (timestamps a)) 10,
      np_log1p (real (flag_counts a)),
      Fin (get_or dc eid 0),
      Fin (get_or idc eid 0),
      Fin (real (get_or (map_of etype_enc) (e_entity_type e) 0)),
      Fin (if e_country e \<in> set HIGH_RISK_COUNTRIES then 1 else 0)]"
    by (simp add: feature_row_def Let_def split: if_splits)
  let ?P = "\<lambda>v. \<exists>r. nan_to_num v = Fin r \<and> 0 \<le> r"
  have fin: "?P (Fin x)" if "0 \<le> x" for x using that by simp
  have p: "?P (np_log1p (sum_list ?oa))" "?P (np_log1p (sum_list ?ia))"
    "?P (np_log1p (real (length ?oa)))" "?P (np_log1p (real (length ?ia)))"
    "?P (np_log1p (if ?oa \<noteq> [] then np_mean ?oa else 0))"
    "?P (np_log1p (if ?ia \<noteq> [] then np_mean ?ia else 0))"
    "?P (np_log1p (if ?oa \<noteq> [] then max_list ?oa else 0))"
    "?P (np_log1p (if ?ia \<noteq> [] then max_list ?ia else 0))"
    "?P (np_log1p (sum_list ?ia / (sum_list ?oa + 1 / 10 ^ 9)))"
    "?P (np_log1p (real (length (counterparts a))))"
    "?P (np_log1p (real (flag_counts a)))"
    by (rule l ts tr avs avr mxs mxr ratio of_nat_0_le_iff)+
  have q: "?P (Fin (real (length (List.union (out_countries a) (in_countries a)))))"
    "?P (Fin (real (length (List.union (out_channels a) (in_channels a)))))"
    "?P (Fin (get_or dc eid 0))" "?P (Fin (get_or idc eid 0))"
    "?P (Fin (real (get_or (map_of etype_enc) (e_entity_type e) 0)))"
    "?P (Fin (if e_country e \<in> set HIGH_RISK_COUNTRIES then 1 else 0))"
    using get_or_nonneg [OF dc, of eid] get_or_nonneg [OF idc, of eid]
    by (simp_all del: of_nat_eq_0_iff)
  have b: "?P (py_min (burstiness_of (timestamps a)) 10)"
    by (rule nan_to_num_burstiness)
  show ?thesis
    unfolding r by (simp only: list.set ball_simps p q b simp_thms)
qed

lemma is_nonneg_iff: "is_nonneg v \<longleftrightarrow> (\<exists>r. v = Fin r \<and> 0 \<le> r)"
  by (cases v) simp_all


text \<open>
  C10, as the code has it. When no transaction has a negative amount, every entry of the
  matrix that \<open>compute_node_features\<close> returns is a finite number greater than or equal
  to 0, for every graph, entity list and transaction list. The amounts are floats that the
  code does not check: the hypothesis on them is what makes the log1p aggregates and the
  ratio non-negative.
\<close>

theorem features_nonneg:
  assumes run: "compute_node_features G ents txs = Inr (feat, eids, names)"
      and amounts: "\<forall>tx\<in>set txs. 0 \<le> t_amount tx"
  shows "\<forall>row\<in>set (data feat). \<forall>v\<in>set row. is_nonneg v"
proof (intro ballI)
  fix row' v assume row': "row' \<in> set (data feat)" and v: "v \<in> set row'"
  from run obtain dc idc rows where
    c: "centralities G = Inr (dc, idc)" and
    r: "list_all2 (\<lambda>eid row. feature_row dc idc (the (entity_lookup ents eid))
                   (the (accumulate (map e_id ents) txs eid)) eid = Inr row) (map e_id ents) rows" and
    f: "feat = \<lparr>shape = (if rows = [] then [0] else [length rows, length (hd rows)]),
             data = map (map nan_to_num) rows\<rparr>"
    by (rule compute_node_features_Inr)
  from row' f obtain i where i: "i < length rows" "row' = map nan_to_num (rows ! i)"
    by (auto simp: in_set_conv_nth)
  let ?eid = "map e_id ents ! i"
  have len: "length rows = length ents" using r by (auto dest: list_all2_lengthD)
  have fr: "feature_row dc idc (the (entity_lookup ents ?eid))
              (the (accumulate (map e_id ents) txs ?eid)) ?eid = Inr (rows ! i)"
    using r i by (simp add: list_all2_conv_all_nth)
  have "?eid \<in> set (map e_id ents)" using i len by (intro nth_mem) simp
  then obtain a where a: "accumulate (map e_id ents) txs ?eid = Some a"
    by (rule accumulate_Some)
  have "amounts_nonneg a" using amounts a by (rule accumulate_nonneg)
  with fr have "\<forall>w\<in>set (rows ! i). \<exists>r. nan_to_num w = Fin r \<and> 0 \<le> r"
    using centralities_nonneg [OF c] unfolding a option.sel by (intro feature_row_nonneg) auto
  with v i show "is_nonneg v" by (auto simp: is_nonneg_iff)
qed

lemma feature_row_Inr:
  "sum_list (out_amounts a) + 1 / 10 ^ 9 \<noteq> 0 \<Longrightarrow> \<exists>row. feature_row dc idc e a eid = Inr row"
  by (simp add: feature_row_def Let_def)

lemma eps_nonzero: "0 \<le> (x::real) \<Longrightarrow> x + 1 / 10 ^ 9 \<noteq> 0"
proof -
  assume "0 \<le> x"
  moreover have "(0::real) < 1 / 10 ^ 9" by simp
  ultimately have "0 < x + 1 / 10 ^ 9" by (rule add_nonneg_pos)
  then show ?thesis by simp
qed

lemma compute_node_features_returns:
  assumes small: "length (nodes G) \<le> 8000"
      and amounts: "\<forall>tx\<in>set txs. 0 \<le> t_amount tx"
  shows "\<exists>feat. compute_node_features G ents txs = Inr (feat, map e_id ents, feature_names)"
proof -
  let ?f = "\<lambda>eid. feature_row (degree_centrality G) (in_degree_centrality G)
          (the (entity_lookup ents eid)) (the (accumulate (map e_id ents) txs eid)) eid"
  have c: "centralities G = Inr (degree_centrality G, in_degree_centrality G)"
    using small by (simp add: centralities_def)
  have "\<exists>row. ?f eid = Inr row" if "eid \<in> set (map e_id ents)" for eid
  proof -
    from that obtain a where a: "accumulate (map e_id ents) txs eid = Some a"
      by (rule accumulate_Some)
    have "amounts_nonneg a" using amounts a by (rule accumulate_nonneg)
    then have "0 \<le> sum_list (out_amounts a)"
      by (simp add: amounts_nonneg_def sum_list_nonneg)
    then have "sum_list (out_amounts a) + 1 / 10 ^ 9 \<noteq> 0"
      by (rule eps_nonzero)
    then show ?thesis
      unfolding a option.sel by (rule feature_row_Inr)
  qed
  then have "\<exists>rows. emap ?f (map e_id ents) = Inr rows"
    by (rule emap_all_Inr)
  then obtain rows where rows: "emap ?f (map e_id ents) = Inr rows" ..
  show ?thesis
    unfolding compute_node_features_def Let_def c ebind_def sum.case prod.case rows
    by blast
qed

lemma compute_node_features_returns_if:
  assumes small: "length (nodes G) \<le> 8000"
      and ok: "\<forall>eid\<in>set (map e_id ents).
                 sum_list (out_amounts (the (accumulate (map e_id ents) txs eid))) + 1 / 10 ^ 9 \<noteq> 0"
  shows "\<exists>feat. compute_node_features G ents txs = Inr (feat, map e_id ents, feature_names)"
proof -
  let ?f = "\<lambda>eid. feature_row (degree_centrality G) (in_degree_centrality G)
          (the (entity_lookup ents eid)) (the (accumulate (map e_id ents) txs eid)) eid"
  have c: "centralities G = Inr (degree_centrality G, in_degree_centrality G)"
    using small by (simp add: centralities_def)
  have "\<exists>row. ?f eid = Inr row" if "eid \<in> set (map e_id ents)" for eid
    using ok that by (intro feature_row_Inr) blast
  then have "\<exists>rows. emap ?f (map e_id ents) = Inr rows"
    by (rule emap_all_Inr)
  then obtain rows where rows: "emap ?f (map e_id ents) = Inr rows" ..
  show ?thesis
    unfolding compute_node_features_def Let_def c ebind_def sum.case prod.case rows
    by blast
qed

lemma feature_row_first:
  "feature_row dc idc e a eid = Inr row \<Longrightarrow> row ! 0 = np_log1p (sum_list (out_amounts a))"
  by (auto simp: feature_row_def Let_def split: if_splits)

lemma compute_node_features_first:
  assumes run: "compute_node_features G ents txs = Inr (feat, eids, names)"
      and i: "i < length ents"
  shows "data feat ! i ! 0 =
         nan_to_num (np_log1p (sum_list (out_amounts (the (accumulate (map e_id ents) txs (e_id (ents ! i)))))))"
proof -
  from run obtain dc idc rows where
    r: "list_all2 (\<lambda>eid row. feature_row dc idc (the (entity_lookup ents eid))
                   (the (accumulate (map e_id ents) txs eid)) eid = Inr row) (map e_id ents) rows" and
    f: "feat = \<lparr>shape = (if rows = [] then [0] else [length rows, length (hd rows)]),
             data = map (map nan_to_num) rows\<rparr>"
    by (rule compute_node_features_Inr)
  have len: "length rows = length ents" using r by (auto dest: list_all2_lengthD)
  have fr: "feature_row dc idc (the (entity_lookup ents (e_id (ents ! i))))
              (the (accumulate (map e_id ents) txs (e_id (ents ! i)))) (e_id (ents ! i)) = Inr (rows ! i)"
    using r i len by (simp add: list_all2_conv_all_nth)
  have "length (rows ! i) = 18" using fr by (rule feature_row_length)
  then show ?thesis
    using feature_row_first [OF fr] i len by (simp add: f)
qed

lemma nodes_add_node: "length (nodes (add_node v G)) \<le> Suc (length (nodes G))"
  by (simp add: add_node_def)

lemma nodes_fold_add_node:
  "length (nodes (fold (\<lambda>e. add_node (e_id e)) ents G)) \<le> length (nodes G) + length ents"
proof (induction ents arbitrary: G)
  case Nil
  show ?case by simp
next
  case (Cons e ents)
  have "length (nodes (fold (\<lambda>e. add_node (e_id e)) ents (add_node (e_id e) G)))
        \<le> length (nodes (add_node (e_id e) G)) + length ents"
    by (rule Cons.IH)
  also have "\<dots> \<le> Suc (length (nodes G)) + length ents"
    using nodes_add_node [of "e_id e" G] by simp
  finally show ?case by simp
qed

lemma nodes_add_edge: "length (nodes (add_edge u v G)) \<le> length (nodes G) + 2"
proof -
  have "length (nodes (add_edge u v G)) = length (nodes (add_node v (add_node u G)))"
    by (simp add: add_edge_def Let_def)
  also have "\<dots> \<le> Suc (length (nodes (add_node u G)))" by (rule nodes_add_node)
  also have "\<dots> \<le> Suc (Suc (length (nodes G)))" using nodes_add_node [of u G] by simp
  finally show ?thesis by simp
qed

lemma nodes_fold_add_edge:
  "length (nodes (fold (\<lambda>tx. add_edge (t_src tx) (t_dst tx)) txs G)) \<le> length (nodes G) + 2 * length txs"
proof (induction txs arbitrary: G)
  case Nil
  show ?case by simp
next
  case (Cons tx txs)
  have "length (nodes (fold (\<lambda>tx. add_edge (t_src tx) (t_dst tx)) txs (add_edge (t_src tx) (t_dst tx) G)))
        \<le> length (nodes (add_edge (t_src tx) (t_dst tx) G)) + 2 * length txs"
    by (rule Cons.IH)
  also have "\<dots> \<le> length (nodes G) + 2 + 2 * length txs"
    using nodes_add_edge [of "t_src tx" "t_dst tx" G] by simp
  finally show ?case by simp
qed

lemma nodes_build_le:
  "length (nodes (build_networkx_graph ents txs)) \<le> length ents + 2 * length txs"
proof -
  have "length (nodes (build_networkx_graph ents txs)) \<le>
        length (nodes (fold (\<lambda>e. add_node (e_id e)) ents \<lparr>nodes = [], edges = []\<rparr>)) + 2 * length txs"
    unfolding build_networkx_graph_def by (rule nodes_fold_add_edge)
  also have "\<dots> \<le> length ents + 2 * length txs"
    using nodes_fold_add_node [of ents "\<lparr>nodes = [], edges = []\<rparr>"] by simp
  finally show ?thesis .
qed

lemma ex_pair_acc:
  "accumulate (map e_id ex_pair) [ex_transfer x] ''E0000000'' =
     Some (acc_out (ex_transfer x) empty_acc)"
  "accumulate (map e_id ex_pair) [ex_transfer x] ''E0000001'' =
     Some (acc_in (ex_transfer x) empty_acc)"
  by (simp_all add: accumulate_def acc_tx_def Let_def ex_pair_def plain_entity_def ex_transfer_def)

lemma ex_pair_out:
  "out_amounts (the (accumulate (map e_id ex_pair) [ex_transfer x] ''E0000000'')) = [x]"
  "out_amounts (the (accumulate (map e_id ex_pair) [ex_transfer x] ''E0000001'')) = []"
  unfolding ex_pair_acc option.sel
  by (simp_all add: acc_out_def acc_in_def empty_acc_def ex_transfer_def)

lemma ex_pair_small:
  "length (nodes (build_networkx_graph ex_pair [ex_transfer x])) \<le> 8000"
  using nodes_build_le [of ex_pair "[ex_transfer x]"] by (simp add: ex_pair_def)

lemma ex_pair_returns:
  assumes "x + 1 / 10 ^ 9 \<noteq> 0"
  shows "\<exists>feat. compute_node_features (build_networkx_graph ex_pair [ex_transfer x]) ex_pair [ex_transfer x] =
           Inr (feat, map e_id ex_pair, feature_names)"
proof (rule compute_node_features_returns_if [OF ex_pair_small])
  have "set (map e_id ex_pair) = {''E0000000'', ''E0000001''}"
    by (simp add: ex_pair_def plain_entity_def)
  then show "\<forall>eid\<in>set (map e_id ex_pair).
     sum_list (out_amounts (the (accumulate (map e_id ex_pair) [ex_transfer x] eid))) + 1 / 10 ^ 9 \<noteq> 0"
    using assms by (simp add: ex_pair_out)
qed

theorem features_nonneg_witness:
  "is_nonneg (data (fst (projr (compute_node_features (build_networkx_graph ex_pair [ex_transfer 100])
       ex_pair [ex_transfer 100]))) ! 0 ! 0)"
proof -
  obtain feat where run:
    "compute_node_features (build_networkx_graph ex_pair [ex_transfer 100]) ex_pair
        [ex_transfer 100] = Inr (feat, map e_id ex_pair, feature_names)"
    using ex_pair_returns [of 100] by auto
  have amounts: "\<forall>tx\<in>set [ex_transfer 100]. 0 \<le> t_amount tx"
    by (simp add: ex_transfer_def)
  note sh = compute_node_features_shape [OF run]
  have r: "data feat ! 0 \<in> set (data feat)"
    using sh(1) by (intro nth_mem) (simp add: ex_pair_def)
  then have "length (data feat ! 0) = 18" using sh(2) by blast
  then have "data feat ! 0 ! 0 \<in> set (data feat ! 0)" by (intro nth_mem) simp
  with features_nonneg [OF run amounts] r have "is_nonneg (data feat ! 0 ! 0)" by blast
  then show ?thesis unfolding run by simp
qed

text \<open>
  The claim as stated fails on a transaction list with a negative amount: a single transfer
  of minus one half from \<open>E0000000\<close> gives that entity a total sent of -0.5, whose log1p is
  \<open>ln 0.5\<close>, a finite negative number that \<open>nan_to_num\<close> leaves as it is.
\<close>

theorem features_negative_counterexample:
  "map_sum id (\<lambda>(feat, eids, names). data feat ! 0 ! 0)
     (compute_node_features (build_networkx_graph ex_pair [ex_transfer (- 1 / 2)]) ex_pair
        [ex_transfer (- 1 / 2)]) = Inr (Fin (ln (1 / 2))) \<and>
   \<not> is_nonneg (Fin (ln (1 / 2)))"
proof -
  obtain feat where run:
    "compute_node_features (build_networkx_graph ex_pair [ex_transfer (- 1 / 2)]) ex_pair
        [ex_transfer (- 1 / 2)] = Inr (feat, map e_id ex_pair, feature_names)"
    using ex_pair_returns [of "- 1 / 2"] by auto
  have "data feat ! 0 ! 0 = nan_to_num (np_log1p (sum_list (out_amounts
          (the (accumulate (map e_id ex_pair) [ex_transfer (- 1 / 2)] (e_id (ex_pair ! 0)))))))"
    by (rule compute_node_features_first [OF run]) (simp add: ex_pair_def)
  also have "e_id (ex_pair ! 0) = ''E0000000''"
    by (simp add: ex_pair_def plain_entity_def)
  also have "nan_to_num (np_log1p (sum_list (out_amounts
          (the (accumulate (map e_id ex_pair) [ex_transfer (- 1 / 2)] ''E0000000''))))) = Fin (ln (1 / 2))"
    by (simp add: ex_pair_out np_log1p_def)
  finally have v: "data feat ! 0 ! 0 = Fin (ln (1 / 2))" .
  have "ln (1 / 2) < (0::real)" by (simp add: ln_div)
  with v show ?thesis unfolding run by simp
qed


lemma digits_val_snoc: "digits_val (s @ [c]) = 10 * digits_val s + (of_char c - 48)"
  by (simp add: digits_val_def)

lemma of_char_digit: "d < 10 \<Longrightarrow> of_char (digit_char d) = 48 + d"
  by (simp add: digit_char_def)

lemma digits_val_dec: "digits_val (dec n) = n"
proof (induction n rule: dec.induct)
  case (1 n)
  show ?case
  proof (cases "n < 10")
    case True
    then show ?thesis
      by (subst dec.simps) (simp add: digits_val_def of_char_digit)
  next
    case False
    have "digits_val (dec n) = 10 * digits_val (dec (n div 10)) + (of_char (digit_char (n mod 10)) - 48)"
      using False by (subst dec.simps) (simp add: digits_val_snoc)
    also have "\<dots> = 10 * (n div 10) + n mod 10"
      using False by (simp add: "1.IH" of_char_digit)
    finally show ?thesis by simp
  qed
qed

lemma digits_val_zeros: "digits_val (replicate k (CHR ''0'') @ s) = digits_val s"
proof -
  have "foldl (\<lambda>acc c. 10 * acc + (of_char c - 48)) 0 (replicate k (CHR ''0'')) = (0::nat)"
    by (induction k) simp_all
  then show ?thesis by (simp add: digits_val_def)
qed

lemma entity_id_of_inj: "entity_id_of i = entity_id_of j \<Longrightarrow> i = j"
proof -
  assume "entity_id_of i = entity_id_of j"
  then have "zpad 7 (dec i) = zpad 7 (dec j)" by (simp add: entity_id_of_def)
  then have "digits_val (zpad 7 (dec i)) = digits_val (zpad 7 (dec j))" by simp
  then show "i = j" by (simp add: zpad_def digits_val_zeros digits_val_dec)
qed

lemma isolated_distinct: "distinct (map e_id (isolated_entities n))"
proof -
  have "map e_id (isolated_entities n) = map entity_id_of [0..<n]"
    by (simp add: isolated_entities_def plain_entity_def comp_def)
  moreover have "inj_on entity_id_of (set [0..<n])"
    by (rule inj_onI) (rule entity_id_of_inj)
  ultimately show ?thesis by (simp add: distinct_map)
qed

lemma fold_add_node_distinct:
  assumes "distinct (nodes G @ map e_id ents)"
  shows "fold (\<lambda>e. add_node (e_id e)) ents G = G\<lparr>nodes := nodes G @ map e_id ents\<rparr>"
  using assms
proof (induction ents arbitrary: G)
  case Nil
  show ?case by simp
next
  case (Cons e ents)
  have new: "e_id e \<notin> set (nodes G)" using Cons.prems by auto
  then have step: "add_node (e_id e) G = G\<lparr>nodes := nodes G @ [e_id e]\<rparr>"
    by (simp add: add_node_def)
  have "distinct (nodes (G\<lparr>nodes := nodes G @ [e_id e]\<rparr>) @ map e_id ents)"
    using Cons.prems by auto
  from Cons.IH [OF this] show ?case by (simp add: step)
qed

lemma build_no_transactions:
  assumes "distinct (map e_id ents)"
  shows "build_networkx_graph ents [] = \<lparr>nodes = map e_id ents, edges = []\<rparr>"
  using fold_add_node_distinct [of "\<lparr>nodes = [], edges = []\<rparr>" ents] assms
  by (simp add: build_networkx_graph_def)

lemma fold_max_zero: "\<forall>x\<in>set xs. x = (0::nat) \<Longrightarrow> fold max xs 0 = 0"
  by (induction xs) simp_all

lemma max_default_zeros: "xs \<noteq> [] \<Longrightarrow> \<forall>x\<in>set xs. x = 0 \<Longrightarrow> max_default xs = 0"
proof -
  assume ne: "xs \<noteq> []" and z: "\<forall>x\<in>set xs. x = 0"
  then have "hd xs = 0" "\<forall>x\<in>set (tl xs). x = 0"
    by (auto dest: list.set_sel(2))
  then show ?thesis using ne by (simp add: max_default_def fold_max_zero)
qed

lemma centralities_no_edges:
  assumes "8000 < length (nodes G)" "edges G = []"
  shows "centralities G = Inl (ZeroDivisionError ''division by zero'')"
proof -
  have ne: "nodes G \<noteq> []" using assms(1) by auto
  have "max_default (map (degree G) (nodes G)) = 0"
    using ne assms(2) by (intro max_default_zeros) (simp_all add: degree_def in_degree_def out_degree_def)
  then show ?thesis
    using assms(1) ne by (simp add: centralities_def Let_def)
qed

lemma compute_node_features_no_edges:
  assumes "distinct (map e_id ents)" "8000 < length ents"
  shows "compute_node_features (build_networkx_graph ents []) ents [] =
           Inl (ZeroDivisionError ''division by zero'')"
proof -
  have "centralities (build_networkx_graph ents []) = Inl (ZeroDivisionError ''division by zero'')"
    using assms by (intro centralities_no_edges) (simp_all add: build_no_transactions)
  then show ?thesis
    by (simp add: compute_node_features_def Let_def ebind_def)
qed


text \<open>
  C2 at two failing inputs. With 8001 entities and no transaction the graph has more than
  8000 nodes, all of degree 0: the largest degree is 0 (the default 1 of \<open>max\<close> serves an
  empty graph only) and \<open>d / max_d\<close> raises \<open>ZeroDivisionError\<close>, so no matrix is returned.
  With no entity at all the array has the shape \<open>(0,)\<close>, which has no second dimension.
  On every input where a matrix is returned and there is an entity, the shape is
  \<open>(n, 18)\<close> and every entry is finite (\<open>compute_node_features_shape\<close>); with at most 8000
  nodes and no negative amount a matrix is returned (\<open>compute_node_features_returns\<close>).
\<close>

theorem features_raise_without_transactions:
  "length (isolated_entities 8001) = 8001 \<and>
   compute_node_features (build_networkx_graph (isolated_entities 8001) []) (isolated_entities 8001) [] =
     Inl (ZeroDivisionError ''division by zero'') \<and>
   map_sum id (\<lambda>(feat, eids, names). shape feat)
     (compute_node_features (build_networkx_graph [] []) [] []) = Inr [0]"
proof -
  have l: "length (isolated_entities 8001) = 8001"
    by (simp add: isolated_entities_def)
  have a: "compute_node_features (build_networkx_graph (isolated_entities 8001) []) (isolated_entities 8001) [] =
     Inl (ZeroDivisionError ''division by zero'')"
    using isolated_distinct [of 8001] l by (intro compute_node_features_no_edges) simp_all
  have "length (nodes (build_networkx_graph [] [])) \<le> 8000"
    by (simp add: build_networkx_graph_def)
  then obtain feat where run: "compute_node_features (build_networkx_graph [] []) [] [] =
      Inr (feat, map e_id [], feature_names)"
    using compute_node_features_returns [of "build_networkx_graph [] []" "[]" "[]"] by auto
  have "shape feat = [0]"
    by (rule compute_node_features_shape(4) [OF run]) simp
  with l a show ?thesis unfolding run by simp
qed

subsection \<open>The circular pattern\<close>

text \<open>
  Evaluation of the generator: what each library call returns in a state of the draws, the
  members that \<open>random.sample\<close> selects, and the transactions of one cycle.
\<close>

lemma greturn_Inr_iff [simp]: "greturn x r = Inr y \<longleftrightarrow> y = (x, r)"
  by (auto simp: greturn_def)

lemma graise_Inr [simp]: "graise e r \<noteq> Inr y"
  by (simp add: graise_def)

lemma swap_remove:
  assumes d: "distinct (take (Suc m) pool)" and j: "j \<le> m" and m: "m < length pool"
  shows "distinct (take m (pool[j := pool ! m])) \<and>
         set (take m (pool[j := pool ! m])) = set (take (Suc m) pool) - {pool ! j}"
proof -
  let ?B = "take m pool"
  have A: "take (Suc m) pool = ?B @ [pool ! m]"
    using m by (simp add: take_Suc_conv_app_nth)
  have dB: "distinct ?B" and l: "pool ! m \<notin> set ?B"
    using d unfolding A by simp_all
  have t: "take m (pool[j := pool ! m]) = ?B[j := pool ! m]"
    by (simp add: take_update_swap)
  show ?thesis
  proof (cases "j = m")
    case True
    then have "?B[j := pool ! m] = ?B" using m by (intro list_update_beyond) simp
    with True dB l show ?thesis unfolding t A by auto
  next
    case False
    with j have jm: "j < m" by simp
    then have jB: "j < length ?B" using m by simp
    have Bj: "?B ! j = pool ! j" using jm by simp
    have "distinct (?B[j := pool ! m])"
      using dB l by (intro distinct_list_update) auto
    moreover have "set (?B[j := pool ! m]) = insert (pool ! m) (set ?B - {?B ! j})"
      using dB jB by (rule set_update_distinct)
    moreover have "pool ! j \<in> set ?B" using jB Bj by (metis nth_mem)
    ultimately show ?thesis
      unfolding t A using l Bj by auto
  qed
qed

lemma sample_loop_distinct:
  assumes "distinct (take (n - i) pool)" "c \<le> n - i" "n \<le> length pool"
  shows "distinct (fst (sample_loop pool n i c r)) \<and>
         set (fst (sample_loop pool n i c r)) \<subseteq> set (take (n - i) pool) \<and>
         length (fst (sample_loop pool n i c r)) = c"
  using assms
proof (induction c arbitrary: pool i r)
  case 0
  show ?case by simp
next
  case (Suc c)
  let ?m = "n - i - 1"
  let ?j = "py_draws r (py_pos r) mod (n - i)"
  let ?pool = "pool[?j := pool ! ?m]"
  let ?r1 = "r\<lparr>py_pos := Suc (py_pos r)\<rparr>"
  have pos: "0 < n - i" using Suc.prems(2) by simp
  then have sm: "Suc ?m = n - i" by simp
  have j: "?j \<le> ?m" using pos by (metis sm less_Suc_eq_le mod_less_divisor)
  have m: "?m < length pool" using pos Suc.prems(3) by simp
  have d: "distinct (take (Suc ?m) pool)" using Suc.prems(1) sm by simp
  note sr = swap_remove [OF d j m]
  have n': "n - Suc i = ?m" by simp
  have ih: "distinct (fst (sample_loop ?pool n (Suc i) c ?r1)) \<and>
         set (fst (sample_loop ?pool n (Suc i) c ?r1)) \<subseteq> set (take (n - Suc i) ?pool) \<and>
         length (fst (sample_loop ?pool n (Suc i) c ?r1)) = c"
    using sr Suc.prems(2,3) unfolding n' [symmetric] by (intro Suc.IH) simp_all
  have res: "fst (sample_loop pool n i (Suc c) r) = pool ! ?j # fst (sample_loop ?pool n (Suc i) c ?r1)"
    by (simp add: Let_def split: prod.splits)
  have x: "pool ! ?j \<in> set (take (n - i) pool)"
    using j m sm by (metis in_set_conv_nth length_take less_Suc_eq_le min.absorb2 nth_take order_less_imp_le Suc_leI)
  from ih sr x show ?case
    unfolding res n' sm by auto
qed

lemma sample_distinct:
  assumes "sample population k r = Inr (xs, r')" "distinct population"
  shows "distinct xs \<and> set xs \<subseteq> set population \<and> length xs = k"
proof -
  from assms(1) have k: "k \<le> length population"
    and xs: "xs = fst (sample_loop population (length population) 0 k r)"
    by (auto simp: sample_def split: if_splits)
  from sample_loop_distinct [of "length population" 0 population k r] assms(2) k
  show ?thesis unfolding xs by simp
qed

lemma after_draws_simps [simp]:
  "py_draws (after_draws k r) = py_draws r"
  "py_pos (after_draws k r) = py_pos r + k"
  "np_draws (after_draws k r) = np_draws r"
  "np_pos (after_draws k r) = np_pos r"
  by (simp_all add: after_draws_def)

lemma next_draw_after [simp]: "next_draw (after_draws k r) = py_draws r (py_pos r + k)"
  by (simp add: next_draw_def)

lemma randbelow_eval: "randbelow n r = Inr (next_draw r mod n, after_draws 1 r)"
  by (simp add: randbelow_def after_draws_def next_draw_def)

lemma randint_eval:
  "a \<le> b \<Longrightarrow> randint a b r = Inr (a + int (next_draw r mod nat (b - a + 1)), after_draws 1 r)"
  by (simp add: randint_def gbind_def randbelow_eval greturn_def)

lemma choice_eval:
  "xs \<noteq> [] \<Longrightarrow> choice xs r = Inr (xs ! (next_draw r mod length xs), after_draws 1 r)"
  by (simp add: choice_def gbind_def randbelow_eval greturn_def)

lemma uniform_eval:
  "uniform a b r = Inr (a + (b - a) * (real (next_draw r mod 2 ^ 53) / 2 ^ 53), after_draws 1 r)"
  by (simp add: uniform_def gbind_def random_unit_def greturn_def after_draws_def next_draw_def)

lemma gbind_eval: "m r = Inr (x, r1) \<Longrightarrow> gbind m f r = f x r1"
  by (simp add: gbind_def)

lemma after_after: "after_draws a (after_draws b r) = after_draws (b + a) r"
  by (simp add: after_draws_def add.assoc)

lemma make_tx_given:
  assumes "0 \<le> d"
  shows "\<exists>tx. make_tx src dst s idx (Some a) (Some c) (Some k) d r = Inr (tx, after_draws 3 r) \<and>
           t_src tx = src \<and> t_dst tx = dst \<and> t_is_suspicious tx = s"
proof -
  have 3: "after_draws 1 (after_draws 1 (after_draws 1 r)) = after_draws 3 r"
    by (simp add: after_draws_def)
  have d: "randint 0 d r = Inr (0 + int (next_draw r mod nat (d - 0 + 1)), after_draws 1 r)" for r
    using assms by (intro randint_eval)
  have h: "randint 0 23 r = Inr (0 + int (next_draw r mod nat (23 - 0 + 1)), after_draws 1 r)" for r
    by (intro randint_eval) simp
  have m: "randint 0 59 r = Inr (0 + int (next_draw r mod nat (59 - 0 + 1)), after_draws 1 r)" for r
    by (intro randint_eval) simp
  show ?thesis
    unfolding make_tx_def option.case
    by (simp only: gbind_eval [OF greturn_def] gbind_eval [OF d] gbind_eval [OF h] gbind_eval [OF m] 3
        greturn_def) simp
qed

lemma HIGH_RISK_COUNTRIES_nonempty: "HIGH_RISK_COUNTRIES \<noteq> []"
  by (simp add: HIGH_RISK_COUNTRIES_def)

lemma circular_tx_eval:
  "\<exists>tx. circular_tx cycle amount off i r = Inr (tx, after_draws 6 r) \<and>
        t_src tx = cycle ! i \<and> t_dst tx = cycle ! ((i + 1) mod length cycle) \<and> t_is_suspicious tx"
proof -
  have 6: "after_draws 3 (after_draws 1 (after_draws 1 (after_draws 1 r))) = after_draws 6 r"
    by (simp add: after_draws_def)
  have ne: "[''wire'', ''crypto'', ''swift''] \<noteq> []" by simp
  have "\<exists>a c k. circular_tx cycle amount off i r =
      make_tx (cycle ! i) (cycle ! ((i + 1) mod length cycle)) True (off + i) (Some a) (Some c) (Some k) 30
        (after_draws 1 (after_draws 1 (after_draws 1 r)))"
    unfolding circular_tx_def Let_def
    by (simp only: gbind_eval [OF uniform_eval] gbind_eval [OF choice_eval [OF ne]]
        gbind_eval [OF choice_eval [OF HIGH_RISK_COUNTRIES_nonempty]]) blast
  then obtain a c k where e: "circular_tx cycle amount off i r =
      make_tx (cycle ! i) (cycle ! ((i + 1) mod length cycle)) True (off + i) (Some a) (Some c) (Some k) 30
        (after_draws 1 (after_draws 1 (after_draws 1 r)))" by blast
  show ?thesis
    unfolding e using make_tx_given [of 30 "cycle ! i" "cycle ! ((i + 1) mod length cycle)" True "off + i" a c k
      "after_draws 1 (after_draws 1 (after_draws 1 r))"] unfolding 6 by simp
qed

lemma gmap_circular_tx:
  "\<exists>txs. gmap (circular_tx cycle amount off) is r = Inr (txs, after_draws (6 * length is) r) \<and>
         tx_edges txs = map (\<lambda>i. (cycle ! i, cycle ! ((i + 1) mod length cycle))) is \<and>
         (\<forall>tx\<in>set txs. t_is_suspicious tx)"
proof (induction "is" arbitrary: r)
  case Nil
  show ?case by (simp add: tx_edges_def after_draws_def)
next
  case (Cons i "is")
  obtain tx where tx: "circular_tx cycle amount off i r = Inr (tx, after_draws 6 r)"
    "t_src tx = cycle ! i" "t_dst tx = cycle ! ((i + 1) mod length cycle)" "t_is_suspicious tx"
    using circular_tx_eval by blast
  obtain txs where txs: "gmap (circular_tx cycle amount off) is (after_draws 6 r) =
      Inr (txs, after_draws (6 * length is) (after_draws 6 r))"
    "tx_edges txs = map (\<lambda>i. (cycle ! i, cycle ! ((i + 1) mod length cycle))) is"
    "\<forall>tx\<in>set txs. t_is_suspicious tx"
    using Cons.IH by blast
  have r: "after_draws (6 * length is) (after_draws 6 r) = after_draws (6 * length (i # is)) r"
    by (simp add: after_draws_def)
  have "gmap (circular_tx cycle amount off) (i # is) r = Inr (tx # txs, after_draws (6 * length (i # is)) r)"
    unfolding r [symmetric] by (simp add: tx(1) txs(1))
  moreover have "tx_edges (tx # txs) = map (\<lambda>i. (cycle ! i, cycle ! ((i + 1) mod length cycle))) (i # is)"
    using tx(2,3) txs(2) by (simp add: tx_edges_def)
  moreover have "\<forall>t\<in>set (tx # txs). t_is_suspicious t"
    using tx(4) txs(3) by simp
  ultimately show ?case by blast
qed

lemma zip_rotate1:
  "zip xs (rotate1 xs) = map (\<lambda>i. (xs ! i, xs ! ((i + 1) mod length xs))) [0..<length xs]"
  by (rule nth_equalityI) (simp_all add: nth_rotate1)

lemma sample_loop_rng: "snd (sample_loop pool n i c r) = after_draws c r"
proof (induction c arbitrary: pool i r)
  case 0
  show ?case by (simp add: after_draws_def)
next
  case (Suc c)
  have "snd (sample_loop pool n i (Suc c) r) =
        snd (sample_loop (pool[py_draws r (py_pos r) mod (n - i) := pool ! (n - i - 1)]) n (Suc i) c
               (r\<lparr>py_pos := Suc (py_pos r)\<rparr>))"
    by (simp add: Let_def split: prod.splits)
  also have "\<dots> = after_draws c (r\<lparr>py_pos := Suc (py_pos r)\<rparr>)" by (rule Suc.IH)
  also have "\<dots> = after_draws (Suc c) r" by (simp add: after_draws_def)
  finally show ?case .
qed

lemma sample_loop_fst_Suc:
  "fst (sample_loop pool n i (Suc c) r) =
     pool ! (next_draw r mod (n - i)) #
     fst (sample_loop (pool[next_draw r mod (n - i) := pool ! (n - i - 1)]) n (Suc i) c (after_draws 1 r))"
  by (simp add: Let_def next_draw_def after_draws_def split: prod.splits)

lemma sample_loop_length: "length (fst (sample_loop pool n i c r)) = c"
proof (induction c arbitrary: pool i r)
  case 0
  show ?case by simp
next
  case (Suc c)
  show ?case unfolding sample_loop_fst_Suc by (simp add: Suc.IH)
qed

lemma sample_eval:
  assumes "k \<le> length population"
  shows "sample population k r =
           Inr (fst (sample_loop population (length population) 0 k r), after_draws k r)"
proof -
  have "sample_loop population (length population) 0 k r =
        (fst (sample_loop population (length population) 0 k r), after_draws k r)"
    by (metis prod.collapse sample_loop_rng)
  then show ?thesis using assms by (simp add: sample_def)
qed

lemma circular_cycle_distinct:
  assumes "distinct susp_ids" "distinct normal_ids"
  shows "distinct (circular_cycle susp_ids normal_ids r)"
proof -
  let ?pool = "circular_pool susp_ids normal_ids r"
  have "distinct ?pool" using assms by (simp add: circular_pool_def)
  then have "distinct (take (length ?pool - 0) ?pool)" by simp
  from sample_loop_distinct [OF this, of "min (3 + next_draw r mod 5) (length ?pool)" "after_draws 1 r"]
  show ?thesis by (simp add: circular_cycle_def Let_def)
qed

lemma generate_circular_eval:
  "\<exists>txs. generate_circular susp_ids normal_ids off r =
            Inr ((txs, circular_cycle susp_ids normal_ids r),
                 after_draws (2 + 7 * length (circular_cycle susp_ids normal_ids r)) r) \<and>
         tx_edges txs = zip (circular_cycle susp_ids normal_ids r)
                          (rotate1 (circular_cycle susp_ids normal_ids r)) \<and>
         (\<forall>tx\<in>set txs. t_is_suspicious tx)"
proof -
  let ?cs = "3 + next_draw r mod 5"
  let ?pool = "circular_pool susp_ids normal_ids r"
  let ?k = "min ?cs (length ?pool)"
  let ?cycle = "circular_cycle susp_ids normal_ids r"
  let ?r1 = "after_draws 1 r"
  have ri: "randint 3 7 r = Inr (3 + int (next_draw r mod nat (7 - 3 + 1)), ?r1)"
    by (intro randint_eval) simp
  have n: "nat (3 + int (next_draw r mod nat (7 - 3 + 1))) = ?cs" by simp
  have pool: "(if ?cs \<le> length susp_ids then susp_ids else normal_ids) = ?pool"
    by (simp add: circular_pool_def)
  have cyc: "fst (sample_loop ?pool (length ?pool) 0 ?k ?r1) = ?cycle"
    by (simp add: circular_cycle_def Let_def)
  have sa: "sample ?pool ?k ?r1 = Inr (?cycle, after_draws ?k ?r1)"
    using sample_eval [of ?k ?pool ?r1] unfolding cyc by simp
  have len: "length ?cycle = ?k"
    unfolding cyc [symmetric] by (rule sample_loop_length)
  obtain txs where txs:
    "gmap (circular_tx ?cycle (round2 (15000 + (300000 - 15000) *
        (real (next_draw (after_draws ?k ?r1) mod 2 ^ 53) / 2 ^ 53))) off) [0..<length ?cycle]
       (after_draws 1 (after_draws ?k ?r1)) =
     Inr (txs, after_draws (6 * length [0..<length ?cycle]) (after_draws 1 (after_draws ?k ?r1)))"
    "tx_edges txs = map (\<lambda>i. (?cycle ! i, ?cycle ! ((i + 1) mod length ?cycle))) [0..<length ?cycle]"
    "\<forall>tx\<in>set txs. t_is_suspicious tx"
    using gmap_circular_tx by blast
  have fin: "after_draws (6 * length [0..<length ?cycle]) (after_draws 1 (after_draws ?k ?r1)) =
             after_draws (2 + 7 * length ?cycle) r"
    by (simp add: after_draws_def len)
  have "generate_circular susp_ids normal_ids off r = Inr ((txs, ?cycle), after_draws (2 + 7 * length ?cycle) r)"
    unfolding generate_circular_def Let_def
    by (simp only: gbind_eval [where m = "randint 3 7", OF ri] n pool
        gbind_eval [where m = "sample ?pool ?k", OF sa]
        gbind_eval [OF uniform_eval]
        gbind_eval [where m = "gmap (circular_tx ?cycle (round2 (15000 + (300000 - 15000) *
          (real (next_draw (after_draws ?k ?r1) mod 2 ^ 53) / 2 ^ 53))) off) [0..<length ?cycle]", OF txs(1)]
        fin greturn_def)
  with txs(2,3) show ?thesis unfolding zip_rotate1 by blast
qed

lemma generate_circular_Inr:
  assumes "generate_circular susp_ids normal_ids off r = Inr ((txs, members), r')"
      and "distinct susp_ids" "distinct normal_ids"
  shows "distinct members \<and> tx_edges txs = zip members (rotate1 members) \<and>
         (\<forall>tx\<in>set txs. t_is_suspicious tx)"
  using generate_circular_eval [of susp_ids normal_ids off r] assms(1)
    circular_cycle_distinct [OF assms(2,3), of r]
  by auto

lemma self_in_interleave: "x # xs \<in> set (interleave x xs)"
  by (cases xs) simp_all

lemma self_in_orderings: "xs \<in> set (orderings xs)"
proof (induction xs)
  case Nil
  show ?case by simp
next
  case (Cons x xs)
  have "x # xs \<in> set (interleave x xs)" by (rule self_in_interleave)
  with Cons show ?case by auto
qed

lemma cycle_forms_closed_cycle:
  assumes "distinct members"
  shows "forms_closed_cycle members (zip members (rotate1 members)) \<and>
         restrict_edges members (zip members (rotate1 members)) = zip members (rotate1 members)"
proof -
  have "members \<in> set (orderings (remdups members))"
    using assms self_in_orderings [of members] by (simp add: distinct_remdups_id)
  then have a: "forms_closed_cycle members (zip members (rotate1 members))"
    unfolding forms_closed_cycle_def by blast
  have "\<forall>(s, d)\<in>set (zip members (rotate1 members)). s \<in> set members \<and> d \<in> set members"
    by (auto dest: set_zip_leftD set_zip_rightD)
  then have "restrict_edges members (zip members (rotate1 members)) = zip members (rotate1 members)"
    unfolding restrict_edges_def by (intro filter_True) auto
  with a show ?thesis by simp
qed

text \<open>The dataset: the entities, the rounds of the pattern loops and their clusters.\<close>

lemma NORMAL_COUNTRIES_nonempty: "NORMAL_COUNTRIES \<noteq> []"
  by (simp add: NORMAL_COUNTRIES_def COUNTRIES_def HIGH_RISK_COUNTRIES_def)

lemma create_entity_eval:
  "\<exists>e. create_entity ns i r = Inr (e, after_draws 2 r) \<and> e_id e = entity_id_of i \<and>
       e_is_suspicious e = (i < ns) \<and> e_cluster_id e = None"
proof -
  have 2: "after_draws 1 (after_draws 1 r) = after_draws 2 r"
    by (simp add: after_draws_def)
  have s: "SUSPICIOUS_TYPES \<noteq> []" and e: "ENTITY_TYPES \<noteq> []"
    by (simp_all add: SUSPICIOUS_TYPES_def ENTITY_TYPES_def)
  show ?thesis
  proof (cases "i < ns")
    case True
    then show ?thesis
      unfolding create_entity_def Let_def
      by (simp only: if_True gbind_eval [OF choice_eval [OF s]]
          gbind_eval [OF choice_eval [OF HIGH_RISK_COUNTRIES_nonempty]] greturn_def 2) simp
  next
    case False
    then show ?thesis
      unfolding create_entity_def Let_def
      by (simp only: if_False gbind_eval [OF choice_eval [OF e]]
          gbind_eval [OF choice_eval [OF NORMAL_COUNTRIES_nonempty]] greturn_def 2) simp
  qed
qed

lemma gmap_create_entity:
  "\<exists>ents. gmap (create_entity ns) is r = Inr (ents, after_draws (2 * length is) r) \<and>
          map e_id ents = map entity_id_of is \<and>
          map e_is_suspicious ents = map (\<lambda>i. i < ns) is \<and>
          map e_cluster_id ents = map (\<lambda>i. None) is"
proof (induction "is" arbitrary: r)
  case Nil
  show ?case by (simp add: after_draws_def)
next
  case (Cons i "is")
  obtain e where e: "create_entity ns i r = Inr (e, after_draws 2 r)" "e_id e = entity_id_of i"
      "e_is_suspicious e = (i < ns)" "e_cluster_id e = None"
    using create_entity_eval by blast
  obtain ents where ents:
      "gmap (create_entity ns) is (after_draws 2 r) =
         Inr (ents, after_draws (2 * length is) (after_draws 2 r))"
      "map e_id ents = map entity_id_of is"
      "map e_is_suspicious ents = map (\<lambda>i. i < ns) is"
      "map e_cluster_id ents = map (\<lambda>i. None) is"
    using Cons.IH by blast
  have "gmap (create_entity ns) (i # is) r = Inr (e # ents, after_draws (2 * length (i # is)) r)"
    by (simp add: e(1) ents(1) after_after)
  then show ?case using e(2-4) ents(2-4) by simp
qed

lemma create_entities_eval:
  "\<exists>ents. create_entities n r = Inr (ents, after_draws (2 * n) r) \<and>
          map e_id ents = map entity_id_of [0..<n] \<and>
          map e_is_suspicious ents = map (\<lambda>i. i < max 10 (n div 20)) [0..<n] \<and>
          map e_cluster_id ents = map (\<lambda>i. None) [0..<n]"
  using gmap_create_entity [of "max 10 (n div 20)" "[0..<n]" r]
  by (simp add: create_entities_def)

lemma create_entities_distinct:
  assumes "create_entities n r = Inr (ents, r')"
  shows "distinct (map e_id (filter P ents))"
proof -
  have "map e_id ents = map entity_id_of [0..<n]"
    using create_entities_eval [of n r] assms by auto
  moreover have "inj_on entity_id_of (set [0..<n])"
    by (rule inj_onI) (rule entity_id_of_inj)
  ultimately have "distinct (map e_id ents)" by (simp add: distinct_map)
  then show ?thesis by (rule distinct_map_filter)
qed

text \<open>Every round of a pattern loop appends one cluster, made by one call of the generator.\<close>

lemma pattern_round_Inr:
  assumes "pattern_round g p s n k ds r = Inr (ds', r')"
  shows "\<exists>txs members. g s n (ds_tx_offset ds) r = Inr ((txs, members), r') \<and>
           ds_clusters ds' = ds_clusters ds @ [(p @ zpad 4 (dec k), txs, members)] \<and>
           ds_transactions ds' = ds_transactions ds @ txs"
  using assms unfolding pattern_round_def Let_def gbind_def greturn_def
  by (auto split: sum.splits prod.splits)

lemma gfold_pattern_round:
  assumes "gfold (pattern_round g p s n) ks ds r = Inr (ds', r')"
  shows "\<exists>new. ds_clusters ds' = ds_clusters ds @ new \<and>
           set (ds_transactions ds) \<subseteq> set (ds_transactions ds') \<and>
           (\<forall>(cid, txs, members)\<in>set new.
              take (length p) cid = p \<and> set txs \<subseteq> set (ds_transactions ds') \<and>
              (\<exists>off r0 r1. g s n off r0 = Inr ((txs, members), r1)))"
  using assms
proof (induction ks arbitrary: ds r)
  case Nil
  then show ?case by simp
next
  case (Cons k ks)
  from Cons.prems obtain ds1 r1 where
      step: "pattern_round g p s n k ds r = Inr (ds1, r1)"
    and rest: "gfold (pattern_round g p s n) ks ds1 r1 = Inr (ds', r')"
    by (auto split: sum.splits)
  from pattern_round_Inr [OF step] obtain txs members where
      call: "g s n (ds_tx_offset ds) r = Inr ((txs, members), r1)"
    and cl: "ds_clusters ds1 = ds_clusters ds @ [(p @ zpad 4 (dec k), txs, members)]"
    and tr: "ds_transactions ds1 = ds_transactions ds @ txs"
    by blast
  from Cons.IH [OF rest] obtain new where
      new: "ds_clusters ds' = ds_clusters ds1 @ new"
    and sub: "set (ds_transactions ds1) \<subseteq> set (ds_transactions ds')"
    and all: "\<forall>(cid, txs, members)\<in>set new.
              take (length p) cid = p \<and> set txs \<subseteq> set (ds_transactions ds') \<and>
              (\<exists>off r0 r1. g s n off r0 = Inr ((txs, members), r1))"
    by blast
  have 1: "ds_clusters ds' = ds_clusters ds @ ((p @ zpad 4 (dec k), txs, members) # new)"
    using new cl by simp
  have 2: "set (ds_transactions ds) \<subseteq> set (ds_transactions ds')"
    using sub tr by auto
  have 3: "set txs \<subseteq> set (ds_transactions ds')"
    using sub tr by auto
  have "\<forall>(cid, txs, members)\<in>set ((p @ zpad 4 (dec k), txs, members) # new).
              take (length p) cid = p \<and> set txs \<subseteq> set (ds_transactions ds') \<and>
              (\<exists>off r0 r1. g s n off r0 = Inr ((txs, members), r1))"
    using all 3 call by auto
  with 1 2 show ?case by blast
qed

lemma generate_dataset_state_Inr:
  assumes "generate_dataset_state ne nn ns nlay nc r = Inr (ds, r')"
  shows "\<exists>ents r0 new1 new2 new3.
           create_entities ne r = Inr (ents, r0) \<and>
           ds_clusters ds = new1 @ new2 @ new3 \<and>
           (\<forall>(cid, txs, members)\<in>set new1. take 10 cid = ''CLU_SMURF_'') \<and>
           (\<forall>(cid, txs, members)\<in>set new2. take 10 cid = ''CLU_LAYER_'') \<and>
           (\<forall>(cid, txs, members)\<in>set new3.
              set txs \<subseteq> set (ds_transactions ds) \<and>
              (\<exists>off r0 r1. generate_circular (map e_id (filter e_is_suspicious ents))
                   (map e_id (filter (\<lambda>e. \<not> e_is_suspicious e) ents)) off r0 =
                 Inr ((txs, members), r1)))"
proof -
  let ?susp = "\<lambda>ents. map e_id (filter e_is_suspicious ents)"
  let ?norm = "\<lambda>ents. map e_id (filter (\<lambda>e. \<not> e_is_suspicious e) ents)"
  from assms obtain ents r0 txs ra ds1 rb ds2 rc where
      ce: "create_entities ne r = Inr (ents, r0)"
    and f1: "gfold (pattern_round generate_smurfing ''CLU_SMURF_'' (?susp ents) (?norm ents))
               [0..<ns] \<lparr>ds_entities = ents, ds_transactions = txs, ds_tx_offset = nn,
                         ds_clusters = []\<rparr> ra = Inr (ds1, rb)"
    and f2: "gfold (pattern_round generate_layering ''CLU_LAYER_'' (?susp ents) (?norm ents))
               [0..<nlay] ds1 rb = Inr (ds2, rc)"
    and f3: "gfold (pattern_round generate_circular ''CLU_CIRC_'' (?susp ents) (?norm ents))
               [0..<nc] ds2 rc = Inr (ds, r')"
    unfolding generate_dataset_state_def Let_def gbind_def
    by (auto split: sum.splits prod.splits)
  from gfold_pattern_round [OF f1] obtain new1 where
      n1: "ds_clusters ds1 = new1"
        "\<forall>(cid, txs, members)\<in>set new1. take (length ''CLU_SMURF_'') cid = ''CLU_SMURF_''"
    by fastforce
  from gfold_pattern_round [OF f2] obtain new2 where
      n2: "ds_clusters ds2 = ds_clusters ds1 @ new2"
        "\<forall>(cid, txs, members)\<in>set new2. take (length ''CLU_LAYER_'') cid = ''CLU_LAYER_''"
    by fastforce
  from gfold_pattern_round [OF f3] obtain new3 where
      n3: "ds_clusters ds = ds_clusters ds2 @ new3"
        "\<forall>(cid, txs, members)\<in>set new3.
              take (length ''CLU_CIRC_'') cid = ''CLU_CIRC_'' \<and> set txs \<subseteq> set (ds_transactions ds) \<and>
              (\<exists>off r0 r1. generate_circular (?susp ents) (?norm ents) off r0 = Inr ((txs, members), r1))"
    by blast
  have a: "ds_clusters ds = new1 @ new2 @ new3" using n1(1) n2(1) n3(1) by simp
  have b: "\<forall>(cid, txs, members)\<in>set new1. take 10 cid = ''CLU_SMURF_''"
    using n1(2) by (simp add: eval_nat_numeral)
  have c: "\<forall>(cid, txs, members)\<in>set new2. take 10 cid = ''CLU_LAYER_''"
    using n2(2) by (simp add: eval_nat_numeral)
  have d: "\<forall>(cid, txs, members)\<in>set new3.
              set txs \<subseteq> set (ds_transactions ds) \<and>
              (\<exists>off r0 r1. generate_circular (?susp ents) (?norm ents) off r0 = Inr ((txs, members), r1))"
    using n3(2) by fastforce
  from ce a b c d show ?thesis by blast
qed

text \<open>The run of the generator from \<open>ex_rng\<close>.\<close>

lemma pattern_round_circular_eval:
  "\<exists>txs. pattern_round generate_circular p s n k ds r =
           Inr (\<lparr>ds_entities = fold (label_member (p @ zpad 4 (dec k))) (circular_cycle s n r) (ds_entities ds),
                 ds_transactions = ds_transactions ds @ txs,
                 ds_tx_offset = ds_tx_offset ds + length txs,
                 ds_clusters = ds_clusters ds @ [(p @ zpad 4 (dec k), txs, circular_cycle s n r)]\<rparr>,
                after_draws (2 + 7 * length (circular_cycle s n r)) r) \<and>
         tx_edges txs = zip (circular_cycle s n r) (rotate1 (circular_cycle s n r))"
proof -
  obtain txs where txs:
      "generate_circular s n (ds_tx_offset ds) r =
         Inr ((txs, circular_cycle s n r), after_draws (2 + 7 * length (circular_cycle s n r)) r)"
      "tx_edges txs = zip (circular_cycle s n r) (rotate1 (circular_cycle s n r))"
    using generate_circular_eval by blast
  show ?thesis
    unfolding pattern_round_def Let_def
    by (simp only: gbind_eval [where m = "generate_circular s n (ds_tx_offset ds)", OF txs(1)])
       (use txs(2) in \<open>simp add: greturn_def\<close>)
qed

lemma label_member_labels:
  "map (\<lambda>e. (e_id e, e_cluster_id e)) (label_member c m ents) =
     map (\<lambda>(i, l). if i = m then (i, Some c) else (i, l)) (map (\<lambda>e. (e_id e, e_cluster_id e)) ents)"
  by (simp add: label_member_def comp_def)

lemma label_holders_labels:
  "label_holders c ents =
     map fst (filter (\<lambda>p. snd p = Some c) (map (\<lambda>e. (e_id e, e_cluster_id e)) ents))"
  by (simp add: label_holders_def filter_map comp_def)

lemma labels_zip:
  "map (\<lambda>e. (e_id e, e_cluster_id e)) ents = zip (map e_id ents) (map e_cluster_id ents)"
  by (induction ents) simp_all

lemma ex_ids:
  "map entity_id_of [0..<5] = [''E0000000'', ''E0000001'', ''E0000002'', ''E0000003'', ''E0000004'']"
  by code_simp

lemma ex_cluster_ids:
  "''CLU_CIRC_'' @ zpad 4 (dec 0) = ''CLU_CIRC_0000''"
  "''CLU_CIRC_'' @ zpad 4 (dec 1) = ''CLU_CIRC_0001''"
  by code_simp+

lemma ex_cycle_0:
  "circular_cycle [''E0000000'', ''E0000001'', ''E0000002'', ''E0000003'', ''E0000004''] []
     (after_draws 10 ex_rng) = [''E0000000'', ''E0000004'', ''E0000003'']"
  by code_simp

lemma ex_cycle_1:
  "circular_cycle [''E0000000'', ''E0000001'', ''E0000002'', ''E0000003'', ''E0000004''] []
     (after_draws 33 ex_rng) = [''E0000000'', ''E0000001'', ''E0000002'']"
  by code_simp

lemma ex_generated:
  "\<exists>ents txs0 txs1 r'.
     generate_dataset_state 5 0 0 0 2 ex_rng =
       Inr (\<lparr>ds_entities =
               fold (label_member ''CLU_CIRC_0001'') [''E0000000'', ''E0000001'', ''E0000002'']
                 (fold (label_member ''CLU_CIRC_0000'') [''E0000000'', ''E0000004'', ''E0000003''] ents),
             ds_transactions = txs0 @ txs1,
             ds_tx_offset = length txs0 + length txs1,
             ds_clusters =
               [(''CLU_CIRC_0000'', txs0, [''E0000000'', ''E0000004'', ''E0000003'']),
                (''CLU_CIRC_0001'', txs1, [''E0000000'', ''E0000001'', ''E0000002''])]\<rparr>, r') \<and>
     map (\<lambda>e. (e_id e, e_cluster_id e)) ents =
       [(''E0000000'', None), (''E0000001'', None), (''E0000002'', None), (''E0000003'', None),
        (''E0000004'', None)] \<and>
     tx_edges txs0 =
       [(''E0000000'', ''E0000004''), (''E0000004'', ''E0000003''), (''E0000003'', ''E0000000'')]"
proof -
  let ?ids = "[''E0000000'', ''E0000001'', ''E0000002'', ''E0000003'', ''E0000004'']"
  obtain ents where ents:
      "create_entities 5 ex_rng = Inr (ents, after_draws (2 * 5) ex_rng)"
      "map e_id ents = map entity_id_of [0..<5]"
      "map e_is_suspicious ents = map (\<lambda>i. i < max 10 (5 div 20)) [0..<5]"
      "map e_cluster_id ents = map (\<lambda>i. None) [0..<5]"
    using create_entities_eval [of 5 ex_rng] by blast
  have "set (map e_is_suspicious ents) \<subseteq> {True}"
    unfolding ents(3) by auto
  then have all: "\<forall>e\<in>set ents. e_is_suspicious e" by auto
  have susp: "map e_id (filter e_is_suspicious ents) = ?ids"
    using all ents(2) by (simp add: ex_ids)
  have norm: "map e_id (filter (\<lambda>e. \<not> e_is_suspicious e) ents) = []"
    using all by simp
  have labels: "map (\<lambda>e. (e_id e, e_cluster_id e)) ents =
       [(''E0000000'', None), (''E0000001'', None), (''E0000002'', None), (''E0000003'', None),
        (''E0000004'', None)]"
    unfolding labels_zip ents(2) ents(4) ex_ids by (simp add: upt_rec [of _ 5] del: upt_Suc)
  let ?ds0 = "\<lparr>ds_entities = ents, ds_transactions = [], ds_tx_offset = 0, ds_clusters = []\<rparr>"
  obtain txs0 where r0:
      "pattern_round generate_circular ''CLU_CIRC_'' ?ids [] 0 ?ds0 (after_draws 10 ex_rng) =
         Inr (\<lparr>ds_entities = fold (label_member ''CLU_CIRC_0000'')
                               [''E0000000'', ''E0000004'', ''E0000003''] ents,
               ds_transactions = txs0, ds_tx_offset = length txs0,
               ds_clusters = [(''CLU_CIRC_0000'', txs0, [''E0000000'', ''E0000004'', ''E0000003''])]\<rparr>,
              after_draws 33 ex_rng)"
      "tx_edges txs0 =
         [(''E0000000'', ''E0000004''), (''E0000004'', ''E0000003''), (''E0000003'', ''E0000000'')]"
    using pattern_round_circular_eval [of "''CLU_CIRC_''" ?ids "[]" 0 ?ds0 "after_draws 10 ex_rng"]
    unfolding ex_cluster_ids ex_cycle_0 by (auto simp add: after_after)
  let ?ds1 = "\<lparr>ds_entities = fold (label_member ''CLU_CIRC_0000'')
                               [''E0000000'', ''E0000004'', ''E0000003''] ents,
               ds_transactions = txs0, ds_tx_offset = length txs0,
               ds_clusters = [(''CLU_CIRC_0000'', txs0, [''E0000000'', ''E0000004'', ''E0000003''])]\<rparr>"
  obtain txs1 r' where r1:
      "pattern_round generate_circular ''CLU_CIRC_'' ?ids [] 1 ?ds1 (after_draws 33 ex_rng) =
         Inr (\<lparr>ds_entities =
                 fold (label_member ''CLU_CIRC_0001'') [''E0000000'', ''E0000001'', ''E0000002'']
                   (fold (label_member ''CLU_CIRC_0000'') [''E0000000'', ''E0000004'', ''E0000003''] ents),
               ds_transactions = txs0 @ txs1, ds_tx_offset = length txs0 + length txs1,
               ds_clusters =
                 [(''CLU_CIRC_0000'', txs0, [''E0000000'', ''E0000004'', ''E0000003'']),
                  (''CLU_CIRC_0001'', txs1, [''E0000000'', ''E0000001'', ''E0000002''])]\<rparr>, r')"
    using pattern_round_circular_eval [of "''CLU_CIRC_''" ?ids "[]" 1 ?ds1 "after_draws 33 ex_rng"]
    unfolding ex_cluster_ids ex_cycle_1 by auto
  have two: "[0..<2] = [0, 1]" by (simp add: upt_rec)
  have ce: "create_entities 5 ex_rng = Inr (ents, after_draws 10 ex_rng)"
    using ents(1) by simp
  have "generate_dataset_state 5 0 0 0 2 ex_rng =
          gfold (pattern_round generate_circular ''CLU_CIRC_'' ?ids []) [0, 1] ?ds0
            (after_draws 10 ex_rng)"
    unfolding generate_dataset_state_def Let_def
      gbind_eval [where m = "create_entities 5", OF ce] susp norm
    by (simp add: gbind_def two)
  also have "\<dots> =
       Inr (\<lparr>ds_entities =
               fold (label_member ''CLU_CIRC_0001'') [''E0000000'', ''E0000001'', ''E0000002'']
                 (fold (label_member ''CLU_CIRC_0000'') [''E0000000'', ''E0000004'', ''E0000003''] ents),
             ds_transactions = txs0 @ txs1,
             ds_tx_offset = length txs0 + length txs1,
             ds_clusters =
               [(''CLU_CIRC_0000'', txs0, [''E0000000'', ''E0000004'', ''E0000003'']),
                (''CLU_CIRC_0001'', txs1, [''E0000000'', ''E0000001'', ''E0000002''])]\<rparr>, r')"
    by (simp only: gfold.simps r0(1) r1 sum.case prod.case)
  finally have run: "generate_dataset_state 5 0 0 0 2 ex_rng =
       Inr (\<lparr>ds_entities =
               fold (label_member ''CLU_CIRC_0001'') [''E0000000'', ''E0000001'', ''E0000002'']
                 (fold (label_member ''CLU_CIRC_0000'') [''E0000000'', ''E0000004'', ''E0000003''] ents),
             ds_transactions = txs0 @ txs1,
             ds_tx_offset = length txs0 + length txs1,
             ds_clusters =
               [(''CLU_CIRC_0000'', txs0, [''E0000000'', ''E0000004'', ''E0000003'']),
                (''CLU_CIRC_0001'', txs1, [''E0000000'', ''E0000001'', ''E0000002''])]\<rparr>, r')" .
  show ?thesis
    by (rule exI [of _ ents], rule exI [of _ txs0], rule exI [of _ txs1], rule exI [of _ r'],
        intro conjI run labels r0(2))
qed

text \<open>
  C6, as the code has it. In every dataset that \<open>_generate_dataset\<close> returns, for every
  circular-pattern cluster (a cluster whose label begins with \<open>CLU_CIRC_\<close>), the members
  that \<open>_generate_circular\<close> returned for the cluster are pairwise distinct, the
  transactions generated for the cluster go from each member to the next and from the last
  back to the first, all of them are between members, so that, restricted to these members,
  they form a closed directed cycle that visits each member exactly once; and they are
  transactions of the dataset. The members are those the generator returned for the
  cluster, not the entities that carry its label at the end of the run.
\<close>

theorem circular_cluster_cycle:
  assumes "generate_dataset_state ne nn ns nlay nc r = Inr (ds, r')"
      and "(cid, ctxs, members) \<in> set (ds_clusters ds)"
      and "take 9 cid = ''CLU_CIRC_''"
  shows "distinct members \<and>
         tx_edges ctxs = zip members (rotate1 members) \<and>
         restrict_edges members (tx_edges ctxs) = tx_edges ctxs \<and>
         forms_closed_cycle members (restrict_edges members (tx_edges ctxs)) \<and>
         set ctxs \<subseteq> set (ds_transactions ds)"
proof -
  from generate_dataset_state_Inr [OF assms(1)] obtain ents r0 new1 new2 new3 where
      ce: "create_entities ne r = Inr (ents, r0)"
    and cl: "ds_clusters ds = new1 @ new2 @ new3"
    and n1: "\<forall>(cid, txs, members)\<in>set new1. take 10 cid = ''CLU_SMURF_''"
    and n2: "\<forall>(cid, txs, members)\<in>set new2. take 10 cid = ''CLU_LAYER_''"
    and n3: "\<forall>(cid, txs, members)\<in>set new3.
              set txs \<subseteq> set (ds_transactions ds) \<and>
              (\<exists>off r0 r1. generate_circular (map e_id (filter e_is_suspicious ents))
                   (map e_id (filter (\<lambda>e. \<not> e_is_suspicious e) ents)) off r0 =
                 Inr ((txs, members), r1))"
    by blast
  have pre: "take 9 (take 10 cid) = take 9 cid" by simp
  have "(cid, ctxs, members) \<notin> set new1"
  proof
    assume "(cid, ctxs, members) \<in> set new1"
    with n1 have "take 10 cid = ''CLU_SMURF_''" by auto
    with pre assms(3) show False by simp
  qed
  moreover have "(cid, ctxs, members) \<notin> set new2"
  proof
    assume "(cid, ctxs, members) \<in> set new2"
    with n2 have "take 10 cid = ''CLU_LAYER_''" by auto
    with pre assms(3) show False by simp
  qed
  ultimately have "(cid, ctxs, members) \<in> set new3" using assms(2) cl by simp
  with n3 obtain off ra rb where
      sub: "set ctxs \<subseteq> set (ds_transactions ds)"
    and call: "generate_circular (map e_id (filter e_is_suspicious ents))
                 (map e_id (filter (\<lambda>e. \<not> e_is_suspicious e) ents)) off ra =
               Inr ((ctxs, members), rb)"
    by auto
  from generate_circular_Inr [OF call create_entities_distinct [OF ce] create_entities_distinct [OF ce]]
  have d: "distinct members" and e: "tx_edges ctxs = zip members (rotate1 members)" by simp_all
  from cycle_forms_closed_cycle [OF d] e sub d show ?thesis by simp
qed

text \<open>
  The theorem at a dataset of five entities and two circular clusters: the first cluster has
  the members E0000000, E0000004, E0000003 and the three transactions of their cycle.
\<close>

theorem circular_cluster_cycle_witness:
  "\<not> isl (generate_dataset_state 5 0 0 0 2 ex_rng) \<and>
   fst (ds_clusters (fst (projr (generate_dataset_state 5 0 0 0 2 ex_rng))) ! 0) = ''CLU_CIRC_0000'' \<and>
   snd (snd (ds_clusters (fst (projr (generate_dataset_state 5 0 0 0 2 ex_rng))) ! 0)) =
     [''E0000000'', ''E0000004'', ''E0000003''] \<and>
   tx_edges (fst (snd (ds_clusters (fst (projr (generate_dataset_state 5 0 0 0 2 ex_rng))) ! 0))) =
     [(''E0000000'', ''E0000004''), (''E0000004'', ''E0000003''), (''E0000003'', ''E0000000'')] \<and>
   forms_closed_cycle [''E0000000'', ''E0000004'', ''E0000003'']
     (restrict_edges [''E0000000'', ''E0000004'', ''E0000003'']
        (tx_edges (fst (snd (ds_clusters (fst (projr (generate_dataset_state 5 0 0 0 2 ex_rng))) ! 0)))))"
proof -
  from ex_generated obtain ents txs0 txs1 r' where
      run: "generate_dataset_state 5 0 0 0 2 ex_rng =
       Inr (\<lparr>ds_entities =
               fold (label_member ''CLU_CIRC_0001'') [''E0000000'', ''E0000001'', ''E0000002'']
                 (fold (label_member ''CLU_CIRC_0000'') [''E0000000'', ''E0000004'', ''E0000003''] ents),
             ds_transactions = txs0 @ txs1,
             ds_tx_offset = length txs0 + length txs1,
             ds_clusters =
               [(''CLU_CIRC_0000'', txs0, [''E0000000'', ''E0000004'', ''E0000003'']),
                (''CLU_CIRC_0001'', txs1, [''E0000000'', ''E0000001'', ''E0000002''])]\<rparr>, r')"
    by (elim exE conjE)
  have mem: "(''CLU_CIRC_0000'', txs0, [''E0000000'', ''E0000004'', ''E0000003'']) \<in>
      set (ds_clusters \<lparr>ds_entities =
               fold (label_member ''CLU_CIRC_0001'') [''E0000000'', ''E0000001'', ''E0000002'']
                 (fold (label_member ''CLU_CIRC_0000'') [''E0000000'', ''E0000004'', ''E0000003''] ents),
             ds_transactions = txs0 @ txs1,
             ds_tx_offset = length txs0 + length txs1,
             ds_clusters =
               [(''CLU_CIRC_0000'', txs0, [''E0000000'', ''E0000004'', ''E0000003'']),
                (''CLU_CIRC_0001'', txs1, [''E0000000'', ''E0000001'', ''E0000002''])]\<rparr>)"
    by simp
  have pre: "take 9 ''CLU_CIRC_0000'' = ''CLU_CIRC_''" by simp
  note cyc = circular_cluster_cycle [OF run mem pre]
  from cyc have e: "tx_edges txs0 =
      [(''E0000000'', ''E0000004''), (''E0000004'', ''E0000003''), (''E0000003'', ''E0000000'')]"
    by simp
  from cyc have "forms_closed_cycle [''E0000000'', ''E0000004'', ''E0000003'']
      (restrict_edges [''E0000000'', ''E0000004'', ''E0000003''] (tx_edges txs0))"
    by (elim conjE)
  then show ?thesis
    unfolding run by (simp add: e)
qed

text \<open>
  C6 as stated fails in the same dataset. The second cluster has the members E0000000,
  E0000001, E0000002, and labelling them overwrites the label of E0000000: the entities
  that end the run with the label of the first cluster are E0000003 and E0000004, the only
  transaction of the first cluster between them goes from E0000004 to E0000003, and one
  edge is not a closed cycle through two entities.
\<close>

theorem circular_label_holders_counterexample:
  "\<not> isl (generate_dataset_state 5 0 0 0 2 ex_rng) \<and>
   map fst (ds_clusters (fst (projr (generate_dataset_state 5 0 0 0 2 ex_rng)))) =
     [''CLU_CIRC_0000'', ''CLU_CIRC_0001''] \<and>
   label_holders ''CLU_CIRC_0000''
     (ds_entities (fst (projr (generate_dataset_state 5 0 0 0 2 ex_rng)))) =
     [''E0000003'', ''E0000004''] \<and>
   restrict_edges
     (label_holders ''CLU_CIRC_0000''
        (ds_entities (fst (projr (generate_dataset_state 5 0 0 0 2 ex_rng)))))
     (tx_edges (fst (snd (ds_clusters (fst (projr (generate_dataset_state 5 0 0 0 2 ex_rng))) ! 0)))) =
     [(''E0000004'', ''E0000003'')] \<and>
   \<not> forms_closed_cycle
     (label_holders ''CLU_CIRC_0000''
        (ds_entities (fst (projr (generate_dataset_state 5 0 0 0 2 ex_rng)))))
     (restrict_edges
        (label_holders ''CLU_CIRC_0000''
           (ds_entities (fst (projr (generate_dataset_state 5 0 0 0 2 ex_rng)))))
        (tx_edges (fst (snd (ds_clusters (fst (projr (generate_dataset_state 5 0 0 0 2 ex_rng))) ! 0)))))"
proof -
  from ex_generated obtain ents txs0 txs1 r' where
      run: "generate_dataset_state 5 0 0 0 2 ex_rng =
       Inr (\<lparr>ds_entities =
               fold (label_member ''CLU_CIRC_0001'') [''E0000000'', ''E0000001'', ''E0000002'']
                 (fold (label_member ''CLU_CIRC_0000'') [''E0000000'', ''E0000004'', ''E0000003''] ents),
             ds_transactions = txs0 @ txs1,
             ds_tx_offset = length txs0 + length txs1,
             ds_clusters =
               [(''CLU_CIRC_0000'', txs0, [''E0000000'', ''E0000004'', ''E0000003'']),
                (''CLU_CIRC_0001'', txs1, [''E0000000'', ''E0000001'', ''E0000002''])]\<rparr>, r')"
    and labels: "map (\<lambda>e. (e_id e, e_cluster_id e)) ents =
       [(''E0000000'', None), (''E0000001'', None), (''E0000002'', None), (''E0000003'', None),
        (''E0000004'', None)]"
    and edges: "tx_edges txs0 =
       [(''E0000000'', ''E0000004''), (''E0000004'', ''E0000003''), (''E0000003'', ''E0000000'')]"
    by (elim exE conjE)
  have holders: "label_holders ''CLU_CIRC_0000''
      (fold (label_member ''CLU_CIRC_0001'') [''E0000000'', ''E0000001'', ''E0000002'']
         (fold (label_member ''CLU_CIRC_0000'') [''E0000000'', ''E0000004'', ''E0000003''] ents)) =
      [''E0000003'', ''E0000004'']"
    unfolding label_holders_labels fold.simps comp_def id_def label_member_labels labels
    by simp
  have restricted: "restrict_edges [''E0000003'', ''E0000004''] (tx_edges txs0) =
      [(''E0000004'', ''E0000003'')]"
    unfolding edges by (simp add: restrict_edges_def)
  have "\<not> forms_closed_cycle [''E0000003'', ''E0000004''] [(''E0000004'', ''E0000003'')]"
    by (simp add: forms_closed_cycle_def)
  then show ?thesis
    unfolding run using holders restricted by simp
qed

end
